theory Spec2Isabelle
  imports Complex_Main
begin

section \<open>Python and numpy values\<close>

text \<open>
  The Fourier operators of hcipy (\<^verbatim>\<open>hcipy/fourier/fourier_operations.py\<close>) and the
  angular spectrum propagator (\<^verbatim>\<open>hcipy/propagation/angular_spectrum.py\<close>) are embedded
  as functions on explicit operator states. An exception is the left summand of a result.
  Sample values are complex numbers: the floating point rounding of numpy is not part of
  the model, every array holds exact values, and an array of a real dtype holds values
  whose imaginary part is zero.
\<close>

datatype error = ValueError | AttributeError | IndexError | ZeroDivisionError

text \<open>Sequencing of calls that may raise: the first exception ends the computation.\<close>

definition bindE :: "error + 'a \<Rightarrow> ('a \<Rightarrow> error + 'b) \<Rightarrow> error + 'b" where
  "bindE r k = (case r of Inl e \<Rightarrow> Inl e | Inr x \<Rightarrow> k x)"

text \<open>Python indexing of a sequence: a negative index counts from the end.\<close>

definition py_index :: "'a list \<Rightarrow> int \<Rightarrow> error + 'a" where
  "py_index xs i =
     (if 0 \<le> i \<and> i < int (length xs) then Inr (xs ! nat i)
      else if i < 0 \<and> - int (length xs) \<le> i then Inr (xs ! nat (int (length xs) + i))
      else Inl IndexError)"

datatype dtype = float32 | float64 | complex64 | complex128

definition is_complex_dtype :: "dtype \<Rightarrow> bool" where
  "is_complex_dtype d = (d = complex64 \<or> d = complex128)"

text \<open>
  A numpy array: its shape, its dtype and its samples, read at a multi-index (one
  component for each axis, the first axis first).
\<close>

record ndarray =
  shape :: "nat list"
  dtype :: dtype
  elem :: "nat list \<Rightarrow> complex"

text \<open>All multi-indices of a shape, in row-major (C) order.\<close>

fun indices :: "nat list \<Rightarrow> nat list list" where
  "indices [] = [[]]"
| "indices (n # sh) = concat (map (\<lambda>i. map ((#) i) (indices sh)) [0..<n])"

text \<open>Row-major position of a multi-index, and the multi-index of a position.\<close>

fun ravel :: "nat list \<Rightarrow> nat list \<Rightarrow> nat" where
  "ravel (n # sh) (i # idx) = i * prod_list sh + ravel sh idx"
| "ravel _ _ = 0"

fun unravel :: "nat list \<Rightarrow> nat \<Rightarrow> nat list" where
  "unravel [] k = []"
| "unravel (n # sh) k = (k div prod_list sh) # unravel sh (k mod prod_list sh)"

text \<open>\<^verbatim>\<open>a.astype(d)\<close>: a cast to a real dtype discards the imaginary part.\<close>

definition astype :: "dtype \<Rightarrow> ndarray \<Rightarrow> ndarray" where
  "astype d a =
     a\<lparr>dtype := d,
       elem := (if is_complex_dtype d then elem a else (\<lambda>idx. complex_of_real (Re (elem a idx))))\<rparr>"

text \<open>\<^verbatim>\<open>np.conj(a)\<close>.\<close>

definition conj :: "ndarray \<Rightarrow> ndarray" where
  "conj a = a\<lparr>elem := (\<lambda>idx. cnj (elem a idx))\<rparr>"

text \<open>
  An axis argument of numpy: a negative axis counts from the last one; an axis outside
  the array raises (numpy's AxisError is a ValueError).
\<close>

definition normalize_axis :: "nat \<Rightarrow> int \<Rightarrow> error + nat" where
  "normalize_axis nd ax =
     (if 0 \<le> ax \<and> ax < int nd then Inr (nat ax)
      else if ax < 0 \<and> - int nd \<le> ax then Inr (nat (int nd + ax))
      else Inl ValueError)"

text \<open>
  The discrete Fourier transform along one axis, as \<^verbatim>\<open>np.fft.fft\<close> and
  \<^verbatim>\<open>np.fft.ifft\<close> define it: the inverse transform has the conjugate kernel and the
  factor \<open>1/n\<close>. A transform over an axis of length zero raises. The result is complex.
\<close>

definition dft_kernel :: "bool \<Rightarrow> nat \<Rightarrow> nat \<Rightarrow> nat \<Rightarrow> complex" where
  "dft_kernel inverse_dir n j k =
     (if inverse_dir then cis (2 * pi * real j * real k / real n) / of_nat n
      else cis (- (2 * pi * real j * real k / real n)))"

definition dft_axis :: "bool \<Rightarrow> nat \<Rightarrow> ndarray \<Rightarrow> ndarray" where
  "dft_axis inverse_dir ax a =
     a\<lparr>dtype := complex128,
       elem := (\<lambda>idx. \<Sum>j<shape a ! ax. elem a (idx[ax := j]) * dft_kernel inverse_dir (shape a ! ax) j (idx ! ax))\<rparr>"

definition fft1 :: "bool \<Rightarrow> ndarray \<Rightarrow> int \<Rightarrow> error + ndarray" where
  "fft1 inverse_dir a axis =
     (case normalize_axis (length (shape a)) axis of
        Inl e \<Rightarrow> Inl e
      | Inr ax \<Rightarrow> if shape a ! ax = 0 then Inl ValueError else Inr (dft_axis inverse_dir ax a))"

definition fft :: "ndarray \<Rightarrow> int \<Rightarrow> error + ndarray" where
  "fft a axis = fft1 False a axis"

definition ifft :: "ndarray \<Rightarrow> int \<Rightarrow> error + ndarray" where
  "ifft a axis = fft1 True a axis"

text \<open>
  \<^verbatim>\<open>fftn(a, axes=...)\<close> and \<^verbatim>\<open>ifftn\<close>: numpy transforms one axis after the other,
  the last of \<open>axes\<close> first.
\<close>

fun fftn1 :: "bool \<Rightarrow> ndarray \<Rightarrow> int list \<Rightarrow> error + ndarray" where
  "fftn1 inverse_dir a [] = Inr (a\<lparr>dtype := complex128\<rparr>)"
| "fftn1 inverse_dir a (axis # axes) =
     (case fftn1 inverse_dir a axes of Inl e \<Rightarrow> Inl e | Inr b \<Rightarrow> fft1 inverse_dir b axis)"

definition fftn :: "ndarray \<Rightarrow> int list \<Rightarrow> error + ndarray" where
  "fftn a axes = fftn1 False a axes"

definition ifftn :: "ndarray \<Rightarrow> int list \<Rightarrow> error + ndarray" where
  "ifftn a axes = fftn1 True a axes"

text \<open>
  Broadcasting of an operand \<open>b\<close> against an array of shape \<open>sh\<close> that is updated in
  place (\<^verbatim>\<open>f *= b\<close>, \<^verbatim>\<open>f[c] = b\<close>): the shapes are aligned at the last axis, \<open>b\<close>
  may not have more axes than the target, and each axis of \<open>b\<close> has the target's length
  or length one.
\<close>

definition broadcastable :: "nat list \<Rightarrow> nat list \<Rightarrow> bool" where
  "broadcastable bsh sh =
     (length bsh \<le> length sh \<and>
      list_all2 (\<lambda>b n. b = n \<or> b = 1) bsh (drop (length sh - length bsh) sh))"

definition broadcast_index :: "nat list \<Rightarrow> nat list \<Rightarrow> nat list" where
  "broadcast_index bsh idx =
     map2 (\<lambda>b i. if b = 1 then 0 else i) bsh (drop (length idx - length bsh) idx)"

text \<open>\<^verbatim>\<open>f *= b\<close>: the dtype of \<open>f\<close> stays.\<close>

definition imul :: "ndarray \<Rightarrow> ndarray \<Rightarrow> error + ndarray" where
  "imul f b =
     (if broadcastable (shape b) (shape f)
      then Inr (f\<lparr>elem := (\<lambda>idx. elem f idx * elem b (broadcast_index (shape b) idx))\<rparr>)
      else Inl ValueError)"

text \<open>
  \<^verbatim>\<open>np.fft.ifftshift(a, axes)\<close>: along each of the axes the sample at position
  \<open>k\<close> of the result is the sample at \<open>(k + n div 2) mod n\<close> of the argument.
\<close>

definition ifftshift_axis :: "nat \<Rightarrow> ndarray \<Rightarrow> ndarray" where
  "ifftshift_axis ax a =
     a\<lparr>elem := (\<lambda>idx. elem a (idx[ax := (idx ! ax + shape a ! ax div 2) mod (shape a ! ax)]))\<rparr>"

fun ifftshift :: "ndarray \<Rightarrow> int list \<Rightarrow> error + ndarray" where
  "ifftshift a [] = Inr a"
| "ifftshift a (axis # axes) =
     (case normalize_axis (length (shape a)) axis of
        Inl e \<Rightarrow> Inl e
      | Inr ax \<Rightarrow> ifftshift (ifftshift_axis ax a) axes)"

text \<open>\<^verbatim>\<open>tuple(range(-ndim, 0))\<close>: the last \<open>ndim\<close> axes.\<close>

definition last_axes :: "nat \<Rightarrow> int list" where
  "last_axes nd = map (\<lambda>i. int i - int nd) [0..<nd]"

text \<open>
  \<^verbatim>\<open>a.reshape(newshape)\<close>: the samples are kept in row-major order; numpy raises when
  the sizes differ. With a last length of \<open>-1\<close> numpy infers it from the size of the
  array, and raises when it cannot.
\<close>

definition reshape :: "nat list \<Rightarrow> ndarray \<Rightarrow> error + ndarray" where
  "reshape newshape a =
     (if prod_list newshape \<noteq> prod_list (shape a) then Inl ValueError
      else Inr (a\<lparr>shape := newshape,
                  elem := (\<lambda>idx. elem a (unravel (shape a) (ravel newshape idx)))\<rparr>))"

definition reshape_infer :: "nat list \<Rightarrow> ndarray \<Rightarrow> error + ndarray" where
  "reshape_infer lead a =
     (if prod_list lead = 0 \<or> prod_list (shape a) mod prod_list lead \<noteq> 0 then Inl ValueError
      else reshape (lead @ [prod_list (shape a) div prod_list lead]) a)"

text \<open>
  \<^verbatim>\<open>a.shape[:-nd]\<close>: all axes but the last \<open>nd\<close>; in Python \<^verbatim>\<open>a.shape[:-0]\<close> is the
  empty tuple.
\<close>

definition shape_lead :: "nat \<Rightarrow> nat list \<Rightarrow> nat list" where
  "shape_lead nd sh = (if nd = 0 then [] else take (length sh - nd) sh)"

section \<open>Grids and fields\<close>

text \<open>
  The grid and field classes are consumed through their attributes. A grid has a
  coordinate system, a number of dimensions and, when regular, the sample counts
  \<open>dims\<close>, spacings \<open>delta\<close> and offsets \<open>zero\<close> of its axes, the x axis first. The
  shape of a grid is \<open>dims\<close> reversed: the last array axis is x.
\<close>

datatype coord_system = cartesian | polar

record grid =
  is_regular :: bool
  coords :: coord_system
  ndim :: nat
  dims :: "nat list"
  delta :: "real list"
  zero :: "real list"

definition grid_shape :: "grid \<Rightarrow> nat list" where
  "grid_shape g = rev (dims g)"

definition grid_size :: "grid \<Rightarrow> nat" where
  "grid_size g = prod_list (dims g)"

text \<open>\<^verbatim>\<open>grid.separated_coords[i]\<close> of a regular grid.\<close>

definition separated_coords :: "grid \<Rightarrow> nat \<Rightarrow> real list" where
  "separated_coords g i = map (\<lambda>k. zero g ! i + delta g ! i * real k) [0..<dims g ! i]"

text \<open>
  A field is an array of shape \<open>tensor_shape + (N,)\<close> bound to a grid. Its shaped view
  has the shape \<open>tensor_shape + grid.shape\<close>; a grid without a shape has no shaped view.
\<close>

record field =
  data :: ndarray
  grid :: grid

definition Field :: "ndarray \<Rightarrow> grid \<Rightarrow> field" where
  "Field a g = \<lparr>data = a, grid = g\<rparr>"

definition tensor_shape :: "field \<Rightarrow> nat list" where
  "tensor_shape f = butlast (shape (data f))"

definition tensor_order :: "field \<Rightarrow> nat" where
  "tensor_order f = length (shape (data f)) - 1"

definition field_dtype :: "field \<Rightarrow> dtype" where
  "field_dtype f = dtype (data f)"

definition shaped :: "field \<Rightarrow> error + ndarray" where
  "shaped f =
     (if \<not> is_regular (grid f) then Inl ValueError
      else reshape (tensor_shape f @ grid_shape (grid f)) (data f))"

text \<open>\<^verbatim>\<open>field.astype('complex')\<close>: the same samples, of dtype complex128.\<close>

definition field_astype :: "dtype \<Rightarrow> field \<Rightarrow> field" where
  "field_astype d f = f\<lparr>data := astype d (data f)\<rparr>"

text \<open>The inner product of two arrays of one shape, and of two fields.\<close>

definition array_inner :: "ndarray \<Rightarrow> ndarray \<Rightarrow> complex" where
  "array_inner a b = (\<Sum>idx\<leftarrow>indices (shape a). elem a idx * cnj (elem b idx))"

definition field_inner :: "field \<Rightarrow> field \<Rightarrow> complex" where
  "field_inner u v = array_inner (data u) (data v)"

text \<open>
  Indexing with a tuple of slices, \<^verbatim>\<open>a[c]\<close>: \<open>None\<close> is \<^verbatim>\<open>slice(None)\<close> and
  \<open>Some (lo, hi)\<close> is \<^verbatim>\<open>slice(lo, hi)\<close>, clipped to the axis as Python does. Axes
  after the last entry of the tuple are taken whole; more entries than axes raise.
\<close>

type_synonym slice = "(nat \<times> nat) option"

definition slice_start :: "slice \<Rightarrow> nat \<Rightarrow> nat" where
  "slice_start sl n = (case sl of None \<Rightarrow> 0 | Some (lo, hi) \<Rightarrow> min lo n)"

definition slice_len :: "slice \<Rightarrow> nat \<Rightarrow> nat" where
  "slice_len sl n = (case sl of None \<Rightarrow> n | Some (lo, hi) \<Rightarrow> min hi n - min lo n)"

definition pad_slices :: "slice list \<Rightarrow> nat \<Rightarrow> slice list" where
  "pad_slices c nd = c @ replicate (nd - length c) None"

definition sliced_shape :: "slice list \<Rightarrow> nat list \<Rightarrow> nat list" where
  "sliced_shape c sh = map2 slice_len (pad_slices c (length sh)) sh"

definition slice_starts :: "slice list \<Rightarrow> nat list \<Rightarrow> nat list" where
  "slice_starts c sh = map2 slice_start (pad_slices c (length sh)) sh"

definition getitem :: "ndarray \<Rightarrow> slice list \<Rightarrow> error + ndarray" where
  "getitem a c =
     (if length (shape a) < length c then Inl IndexError
      else Inr (a\<lparr>shape := sliced_shape c (shape a),
                  elem := (\<lambda>idx. elem a (map2 (+) (slice_starts c (shape a)) idx))\<rparr>))"

text \<open>
  \<^verbatim>\<open>a[c] = v\<close>: the value is broadcast to the shape of the selected region; the
  samples outside the region stay.
\<close>

definition in_region :: "nat list \<Rightarrow> nat list \<Rightarrow> nat list \<Rightarrow> bool" where
  "in_region starts lens idx =
     list_all2 (\<lambda>(s, l) i. s \<le> i \<and> i < s + l) (zip starts lens) idx"

definition setitem :: "ndarray \<Rightarrow> slice list \<Rightarrow> ndarray \<Rightarrow> error + ndarray" where
  "setitem a c v =
     (if length (shape a) < length c then Inl IndexError
      else if \<not> broadcastable (shape v) (sliced_shape c (shape a)) then Inl ValueError
      else Inr (a\<lparr>elem := (\<lambda>idx.
                  if in_region (slice_starts c (shape a)) (sliced_shape c (shape a)) idx
                  then elem v (broadcast_index (shape v) (map2 (-) idx (slice_starts c (shape a))))
                  else elem a idx)\<rparr>))"

text \<open>\<^verbatim>\<open>grid.zeros(tensor_shape, dtype).shaped\<close>.\<close>

definition zeros_shaped :: "grid \<Rightarrow> nat list \<Rightarrow> dtype \<Rightarrow> error + ndarray" where
  "zeros_shaped g tsh d =
     (if \<not> is_regular g then Inl ValueError
      else Inr \<lparr>shape = tsh @ grid_shape g, dtype = d, elem = (\<lambda>idx. 0)\<rparr>)"

text \<open>The coordinates of all axes of a regular grid, the x axis first.\<close>

definition all_separated_coords :: "grid \<Rightarrow> error + real list list" where
  "all_separated_coords g =
     (if \<not> is_regular g then Inl ValueError
      else Inr (map (separated_coords g) [0..<ndim g]))"

section \<open>Collaborators outside the Fourier operators\<close>

text \<open>
  The padded FFT object, the Fourier grid constructor, the phase ramp evaluator and
  the supersampled evaluator are used by the operators but are not part of them. They
  are parameters of the model: \<open>FastFourierTransform\<close> yields the internal grid and the
  cutout of the input samples in the padded buffer (\<open>None\<close> when nothing is padded).
\<close>

record fft_object =
  output_grid :: grid
  cutout_input :: "(nat \<times> nat) list option"

record env =
  FastFourierTransform :: "grid \<Rightarrow> real \<Rightarrow> error + fft_object"
  fft_forward :: "fft_object \<Rightarrow> field \<Rightarrow> error + field"
  make_fft_grid :: "grid \<Rightarrow> real \<Rightarrow> real \<Rightarrow> error + grid"
  numexpr_grid_shift :: "real list \<Rightarrow> grid \<Rightarrow> error + ndarray"
  evaluate_supersampled :: "(grid \<Rightarrow> error + field) \<Rightarrow> grid \<Rightarrow> nat \<Rightarrow> error + field"

section \<open>FourierFilter\<close>

text \<open>
  The transfer function given at construction is a generator, called with the internal
  grid, or a field.
\<close>

datatype transfer_function = Generator "grid \<Rightarrow> error + field" | Precomputed field

text \<open>
  The operator's attributes. \<open>priv_transfer_function\<close> is the attribute
  \<^verbatim>\<open>_transfer_function\<close>, the cached transfer function in FFT ordering.
\<close>

record FourierFilter =
  input_grid :: grid
  internal_grid :: grid
  cutout :: "(nat \<times> nat) list option"
  shape_in :: "nat list"
  transfer_function :: transfer_function
  priv_transfer_function :: "ndarray option"
  internal_array :: "ndarray option"

definition FourierFilter_init :: "env \<Rightarrow> grid \<Rightarrow> transfer_function \<Rightarrow> real \<Rightarrow> error + FourierFilter" where
  "FourierFilter_init E g tf q =
     bindE (FastFourierTransform E g q) (\<lambda>fft.
       Inr \<lparr>input_grid = g, internal_grid = output_grid fft, cutout = cutout_input fft,
            shape_in = grid_shape g, transfer_function = tf,
            priv_transfer_function = None, internal_array = None\<rparr>)"

text \<open>
  Assignment to the attribute \<^verbatim>\<open>transfer_function\<close>: the class defines no property
  for it, so the assignment stores the new value and does nothing else.
\<close>

definition set_transfer_function :: "transfer_function \<Rightarrow> FourierFilter \<Rightarrow> FourierFilter" where
  "set_transfer_function tf s = s\<lparr>transfer_function := tf\<rparr>"

text \<open>
  The test of \<^verbatim>\<open>_compute_functions\<close> that decides whether the scratch buffer is
  allocated anew: a chain of \<^verbatim>\<open>recompute = recompute or ...\<close>, each operand
  evaluated only when the operands before it are false. The last operand is
  \<^verbatim>\<open>np.all(internal_array.shape[:tensor_order] == field.tensor_shape)\<close>: it compares with
  \<^verbatim>\<open>==\<close>.
\<close>

definition recompute_internal_array :: "FourierFilter \<Rightarrow> field \<Rightarrow> bool" where
  "recompute_internal_array s field =
     (case internal_array s of
        None \<Rightarrow> True
      | Some buf \<Rightarrow>
          if length (shape buf) \<noteq> ndim (grid field) + tensor_order field then True
          else if dtype buf \<noteq> field_dtype field then True
          else take (tensor_order field) (shape buf) = tensor_shape field)"

definition compute_transfer_function :: "FourierFilter \<Rightarrow> field \<Rightarrow> error + ndarray" where
  "compute_transfer_function s field =
     bindE (case transfer_function s of Generator gen \<Rightarrow> gen (internal_grid s)
                                      | Precomputed f \<Rightarrow> Inr f) (\<lambda>tf.
     bindE (shaped tf) (\<lambda>tfs.
     bindE (ifftshift tfs (last_axes (ndim (input_grid s)))) (\<lambda>tfs.
       Inr (astype (field_dtype field) tfs))))"

definition FourierFilter_compute_functions :: "FourierFilter \<Rightarrow> field \<Rightarrow> error + FourierFilter" where
  "FourierFilter_compute_functions s field =
     bindE (if priv_transfer_function s = None
               \<or> dtype (the (priv_transfer_function s)) \<noteq> field_dtype field
            then bindE (compute_transfer_function s field) (\<lambda>tf.
                   Inr (s\<lparr>priv_transfer_function := Some tf\<rparr>))
            else Inr s) (\<lambda>s.
       if recompute_internal_array s field
       then bindE (zeros_shaped (internal_grid s) (tensor_shape field) (field_dtype field)) (\<lambda>buf.
              Inr (s\<lparr>internal_array := Some buf\<rparr>))
       else Inr s)"

text \<open>
  Modelled from the spec: \<^verbatim>\<open>field_dot\<close> and \<^verbatim>\<open>field_conjugate_transpose\<close> of the
  field module. For a matrix field and a vector field \<open>field_dot\<close> is, at each sample,
  the product of the matrix with the vector; the conjugate transpose of a matrix field
  swaps the two tensor axes and conjugates. The spec describes no other operands, and
  the model raises for them.
\<close>

definition field_conjugate_transpose :: "field \<Rightarrow> error + field" where
  "field_conjugate_transpose a =
     (if tensor_order a \<noteq> 2 then Inl ValueError
      else Inr (a\<lparr>data := (data a)\<lparr>
             shape := [shape (data a) ! 1, shape (data a) ! 0, shape (data a) ! 2],
             elem := (\<lambda>idx. cnj (elem (data a) [idx ! 1, idx ! 0, idx ! 2]))\<rparr>\<rparr>))"

definition field_dot :: "field \<Rightarrow> field \<Rightarrow> error + field" where
  "field_dot a b =
     (if tensor_order a \<noteq> 2 \<or> length (shape (data b)) \<noteq> 2
         \<or> shape (data a) ! 1 \<noteq> shape (data b) ! 0
         \<or> shape (data a) ! 2 \<noteq> shape (data b) ! 1
      then Inl ValueError
      else Inr (Field \<lparr>shape = [shape (data a) ! 0, shape (data b) ! 1], dtype = complex128,
                       elem = (\<lambda>idx. \<Sum>k<shape (data a) ! 1.
                                 elem (data a) [idx ! 0, k, idx ! 1] * elem (data b) [k, idx ! 1])\<rparr>
                      (grid b)))"

text \<open>
  The slices \<^verbatim>\<open>tuple([slice(None)] * field.tensor_order) + self.cutout\<close>.
\<close>

definition cutout_slices :: "nat \<Rightarrow> (nat \<times> nat) list \<Rightarrow> slice list" where
  "cutout_slices order c = replicate order None @ map Some c"

text \<open>
  The multiplication with the transfer function, on the internal grid \<open>ig\<close>: a matrix
  field when the cached transfer function has two axes more than the internal grid, a
  scalar field otherwise.
\<close>

definition apply_transfer_function :: "grid \<Rightarrow> ndarray \<Rightarrow> ndarray \<Rightarrow> bool \<Rightarrow> error + ndarray" where
  "apply_transfer_function ig tf f adjoint =
     (if int (length (shape tf)) - int (ndim ig) = 2
      then
        bindE (reshape (shape_lead (ndim ig) (shape f) @ [grid_size ig]) f) (\<lambda>f1.
        bindE (reshape (shape_lead (ndim ig) (shape tf) @ [grid_size ig]) tf) (\<lambda>tf1.
        bindE (if adjoint then field_conjugate_transpose (Field tf1 ig)
               else Inr (Field tf1 ig)) (\<lambda>tf2.
        bindE (field_dot tf2 (Field f1 ig)) shaped)))
      else imul f (if adjoint then conj tf else tf))"

text \<open>
  \<^verbatim>\<open>_operation\<close>. The result is the filtered field together with the operator after
  the call. With a cutout the input is copied into the zeroed scratch buffer and the
  transform of the buffer is taken (\<^verbatim>\<open>np.fft\<close> returns a new array; with MKL the buffer
  may be overwritten by the transform, and it is zeroed again by the next call).
\<close>

definition FourierFilter_operation :: "FourierFilter \<Rightarrow> field \<Rightarrow> bool \<Rightarrow> error + field \<times> FourierFilter" where
  "FourierFilter_operation s0 field adjoint =
     bindE (FourierFilter_compute_functions s0 field) (\<lambda>s.
     bindE (shaped field) (\<lambda>fs.
     bindE (case cutout s of
              None \<Rightarrow> Inr (fs, s)
            | Some c \<Rightarrow>
                bindE (setitem ((the (internal_array s))\<lparr>elem := (\<lambda>idx. 0)\<rparr>)
                         (cutout_slices (tensor_order field) c) fs) (\<lambda>buf.
                  Inr (buf, s\<lparr>internal_array := Some buf\<rparr>))) (\<lambda>(f, s).
     bindE (fftn f (last_axes (ndim (input_grid s)))) (\<lambda>f.
     bindE (apply_transfer_function (internal_grid s) (the (priv_transfer_function s)) f adjoint) (\<lambda>f.
     bindE (ifftn f (last_axes (ndim (input_grid s)))) (\<lambda>f.
     bindE (case cutout s of
              None \<Rightarrow> Inr f
            | Some c \<Rightarrow> getitem f (cutout_slices (tensor_order field) c)) (\<lambda>r.
     bindE (reshape_infer (shape_lead (ndim (internal_grid s)) (shape f)) r) (\<lambda>res.
       Inr (Field res (input_grid s), s)))))))))"

definition FourierFilter_forward :: "FourierFilter \<Rightarrow> field \<Rightarrow> error + field \<times> FourierFilter" where
  "FourierFilter_forward s field = FourierFilter_operation s field False"

definition FourierFilter_backward :: "FourierFilter \<Rightarrow> field \<Rightarrow> error + field \<times> FourierFilter" where
  "FourierFilter_backward s field = FourierFilter_operation s field True"

section \<open>FourierShift\<close>

text \<open>
  \<open>priv_shift\<close>, \<open>priv_ft_axes\<close> and \<open>priv_shift_filter\<close> are the attributes
  \<^verbatim>\<open>_shift\<close>, \<^verbatim>\<open>_ft_axes\<close> and \<^verbatim>\<open>_shift_filter\<close>.
\<close>

record FourierShift =
  shift_input_grid :: grid
  shift_output_grid :: grid
  priv_shift :: "real list"
  priv_ft_axes :: "int list"
  priv_shift_filter :: "ndarray option"

text \<open>\<^verbatim>\<open>np.flatnonzero(shift)\<close>: the positions of the non-zero components.\<close>

definition flatnonzero :: "real list \<Rightarrow> nat list" where
  "flatnonzero xs = filter (\<lambda>i. xs ! i \<noteq> 0) [0..<length xs]"

text \<open>\<^verbatim>\<open>tuple(np.flatnonzero(shift) - 1)\<close>: the axes that are Fourier transformed.\<close>

definition shift_ft_axes :: "real list \<Rightarrow> int list" where
  "shift_ft_axes sh = map (\<lambda>i. int i - 1) (flatnonzero sh)"

text \<open>Indexing with a boolean mask, \<^verbatim>\<open>xs[mask]\<close>; the lengths must agree.\<close>

definition mask_select :: "bool list \<Rightarrow> 'a list \<Rightarrow> error + 'a list" where
  "mask_select msk xs =
     (if length msk \<noteq> length xs then Inl IndexError
      else Inr (map snd (filter fst (zip msk xs))))"

text \<open>
  Indexing with \<^verbatim>\<open>tuple(slice(None) if m else np.newaxis for m in mask[::-1])\<close>: an
  entry \<open>True\<close> takes the next axis of the array whole, an entry \<open>False\<close>
  inserts an axis of length one. The axes of the array that are left follow.
\<close>

fun newaxis_shape :: "bool list \<Rightarrow> nat list \<Rightarrow> nat list" where
  "newaxis_shape [] sh = sh"
| "newaxis_shape (True # ms) sh = (case sh of [] \<Rightarrow> [] | n # sh' \<Rightarrow> n # newaxis_shape ms sh')"
| "newaxis_shape (False # ms) sh = 1 # newaxis_shape ms sh"

fun newaxis_index :: "bool list \<Rightarrow> nat list \<Rightarrow> nat list" where
  "newaxis_index [] idx = idx"
| "newaxis_index (m # ms) [] = []"
| "newaxis_index (True # ms) (i # idx) = i # newaxis_index ms idx"
| "newaxis_index (False # ms) (i # idx) = newaxis_index ms idx"

definition broadcasting_slice :: "bool list \<Rightarrow> ndarray \<Rightarrow> error + ndarray" where
  "broadcasting_slice ms a =
     (if length (shape a) < length (filter id ms) then Inl IndexError
      else Inr (a\<lparr>shape := newaxis_shape ms (shape a),
                  elem := (\<lambda>idx. elem a (newaxis_index ms idx))\<rparr>))"

text \<open>\<^verbatim>\<open>CartesianGrid(RegularCoords(delta, dims, zero))\<close>.\<close>

definition CartesianGrid_regular :: "real list \<Rightarrow> nat list \<Rightarrow> real list \<Rightarrow> grid" where
  "CartesianGrid_regular dl dm z =
     \<lparr>is_regular = True, coords = cartesian, ndim = length dm, dims = dm, delta = dl, zero = z\<rparr>"

text \<open>
  The setter of \<^verbatim>\<open>shift\<close>. When all shifts are zero it returns early with no filter.
\<close>

definition FourierShift_set_shift :: "env \<Rightarrow> FourierShift \<Rightarrow> real list \<Rightarrow> error + FourierShift" where
  "FourierShift_set_shift E s0 sh =
     (let s = s0\<lparr>priv_shift := sh, priv_ft_axes := shift_ft_axes sh\<rparr>;
          msk = map (\<lambda>x. x \<noteq> 0) sh
      in if priv_ft_axes s = [] then Inr (s\<lparr>priv_shift_filter := None\<rparr>)
         else
           bindE (make_fft_grid E (shift_input_grid s) 1 1) (\<lambda>fg.
           bindE (mask_select msk (delta fg)) (\<lambda>dl.
           bindE (mask_select msk (dims fg)) (\<lambda>dm.
           bindE (mask_select msk (zero fg)) (\<lambda>z.
           bindE (numexpr_grid_shift E (map uminus sh) (CartesianGrid_regular dl dm z)) (\<lambda>flt.
           bindE (reshape (grid_shape (CartesianGrid_regular dl dm z)) flt) (\<lambda>flt.
           bindE (ifftshift flt (map int [0..<length (shape flt)])) (\<lambda>flt.
           bindE (broadcasting_slice (rev msk) flt) (\<lambda>flt.
             Inr (s\<lparr>priv_shift_filter := Some flt\<rparr>))))))))))"

definition FourierShift_init :: "env \<Rightarrow> grid \<Rightarrow> real list \<Rightarrow> error + FourierShift" where
  "FourierShift_init E g sh =
     FourierShift_set_shift E
       \<lparr>shift_input_grid = g, shift_output_grid = g, priv_shift = [], priv_ft_axes = [],
        priv_shift_filter = None\<rparr> sh"

definition FourierShift_operation :: "FourierShift \<Rightarrow> field \<Rightarrow> bool \<Rightarrow> error + field" where
  "FourierShift_operation s field adjoint =
     (case priv_shift_filter s of
        None \<Rightarrow> Inr (field_astype complex128 field)
      | Some flt \<Rightarrow>
          bindE (shaped field) (\<lambda>fs.
          bindE (fftn fs (priv_ft_axes s)) (\<lambda>f.
          bindE (imul f (if adjoint then conj flt else flt)) (\<lambda>f.
          bindE (ifftn f (priv_ft_axes s)) (\<lambda>f.
          bindE (reshape_infer (shape_lead (ndim (grid field)) (shape f)) f) (\<lambda>res.
            Inr (Field res (grid field))))))))"

definition FourierShift_forward :: "FourierShift \<Rightarrow> field \<Rightarrow> error + field" where
  "FourierShift_forward s field = FourierShift_operation s field False"

definition FourierShift_backward :: "FourierShift \<Rightarrow> field \<Rightarrow> error + field" where
  "FourierShift_backward s field = FourierShift_operation s field True"

text \<open>
  The grid dimension that an axis of a shaped array belongs to: the shape is
  \<open>tensor_shape + grid.shape\<close> and the grid's shape is \<open>dims\<close> reversed, so that the
  last axis is dimension 0. The leading \<open>order\<close> axes are tensor axes and belong to no
  dimension.
\<close>

definition grid_dim_of_axis :: "nat \<Rightarrow> nat \<Rightarrow> nat \<Rightarrow> nat option" where
  "grid_dim_of_axis order nd ax =
     (if ax < order \<or> order + nd \<le> ax then None else Some (order + nd - 1 - ax))"

text \<open>
  The grid dimensions along which \<^verbatim>\<open>_operation\<close> transforms a field: the call is
  \<^verbatim>\<open>fftn(field.shaped, axes=self._ft_axes)\<close>, and each axis of \<open>_ft_axes\<close> is an axis
  of the shaped array. \<open>None\<close> stands for a tensor axis.
\<close>

definition transformed_dims :: "FourierShift \<Rightarrow> field \<Rightarrow> (error + nat option) list" where
  "transformed_dims s field =
     map (\<lambda>ax. bindE (normalize_axis (tensor_order field + ndim (grid field)) ax)
                  (\<lambda>k. Inr (grid_dim_of_axis (tensor_order field) (ndim (grid field)) k)))
       (priv_ft_axes s)"

section \<open>FourierShear and FourierRotation\<close>

text \<open>
  A value passed as the argument \<open>field\<close> of an operator: a field, or a tuple of
  fields, which has none of the attributes of a field.
\<close>

datatype pyval = FieldV field | TupleV "field list"

definition attr_shaped :: "pyval \<Rightarrow> error + ndarray" where
  "attr_shaped v = (case v of FieldV f \<Rightarrow> shaped f | TupleV fs \<Rightarrow> Inl AttributeError)"

definition attr_grid :: "pyval \<Rightarrow> error + grid" where
  "attr_grid v = (case v of FieldV f \<Rightarrow> Inr (grid f) | TupleV fs \<Rightarrow> Inl AttributeError)"

record FourierShear =
  shear_input_grid :: grid
  shear_dim :: int
  priv_filter :: ndarray
  priv_shear :: real

definition fourier_dim :: "int \<Rightarrow> int" where
  "fourier_dim sd = (if sd = 0 then 1 else 0)"

text \<open>\<^verbatim>\<open>np.fft.ifftshift\<close> of a one-dimensional array.\<close>

definition ifftshift_list :: "'a list \<Rightarrow> 'a list" where
  "ifftshift_list xs = map (\<lambda>k. xs ! ((k + length xs div 2) mod length xs)) [0..<length xs]"

text \<open>\<^verbatim>\<open>np.exp(-1j * shear * np.outer(y, fx))\<close>.\<close>

definition shear_phase :: "real \<Rightarrow> real list \<Rightarrow> real list \<Rightarrow> ndarray" where
  "shear_phase a y fx =
     \<lparr>shape = [length y, length fx], dtype = complex128,
      elem = (\<lambda>idx. cis (- (a * (y ! (idx ! 0) * fx ! (idx ! 1)))))\<rparr>"

text \<open>\<^verbatim>\<open>a.T\<close>: the axes in reverse order.\<close>

definition transpose_array :: "ndarray \<Rightarrow> ndarray" where
  "transpose_array a = a\<lparr>shape := rev (shape a), elem := (\<lambda>idx. elem a (rev idx))\<rparr>"

text \<open>The setter of \<^verbatim>\<open>shear\<close>, given the grid and the sheared dimension.\<close>

definition shear_filter :: "env \<Rightarrow> grid \<Rightarrow> int \<Rightarrow> real \<Rightarrow> error + ndarray" where
  "shear_filter E g sd a =
     bindE (make_fft_grid E g 1 1) (\<lambda>fg.
     bindE (all_separated_coords fg) (\<lambda>fcs.
     bindE (py_index fcs sd) (\<lambda>fx.
     bindE (all_separated_coords g) (\<lambda>cs.
     bindE (py_index cs (fourier_dim sd)) (\<lambda>y.
       Inr (if sd = 1 then transpose_array (shear_phase a y (ifftshift_list fx))
            else shear_phase a y (ifftshift_list fx)))))))"

definition FourierShear_set_shear :: "env \<Rightarrow> FourierShear \<Rightarrow> real \<Rightarrow> error + FourierShear" where
  "FourierShear_set_shear E s a =
     bindE (shear_filter E (shear_input_grid s) (shear_dim s) a) (\<lambda>flt.
       Inr (s\<lparr>priv_filter := flt, priv_shear := a\<rparr>))"

definition FourierShear_init :: "env \<Rightarrow> grid \<Rightarrow> real \<Rightarrow> int \<Rightarrow> error + FourierShear" where
  "FourierShear_init E g a sd =
     (if \<not> is_regular g \<or> ndim g \<noteq> 2 then Inl ValueError
      else bindE (shear_filter E g sd a) (\<lambda>flt.
             Inr \<lparr>shear_input_grid = g, shear_dim = sd, priv_filter = flt, priv_shear = a\<rparr>))"

definition FourierShear_operation :: "FourierShear \<Rightarrow> pyval \<Rightarrow> bool \<Rightarrow> error + field" where
  "FourierShear_operation s field adjoint =
     bindE (attr_shaped field) (\<lambda>fs.
     bindE (fft fs (- shear_dim s - 1)) (\<lambda>f.
     bindE (imul f (if adjoint then conj (priv_filter s) else priv_filter s)) (\<lambda>f.
     bindE (ifft f (- shear_dim s - 1)) (\<lambda>f.
     bindE (attr_grid field) (\<lambda>g.
     bindE (reshape_infer (shape_lead (ndim g) (shape f)) f) (\<lambda>res.
       Inr (Field res g)))))))"

definition FourierShear_forward :: "FourierShear \<Rightarrow> pyval \<Rightarrow> error + field" where
  "FourierShear_forward s field = FourierShear_operation s field False"

definition FourierShear_backward :: "FourierShear \<Rightarrow> pyval \<Rightarrow> error + field" where
  "FourierShear_backward s field = FourierShear_operation s field True"

record FourierRotation =
  rot_input_grid :: grid
  priv_shear_x :: FourierShear
  priv_shear_y :: FourierShear
  priv_angle :: real

definition FourierRotation_set_angle :: "env \<Rightarrow> FourierRotation \<Rightarrow> real \<Rightarrow> error + FourierRotation" where
  "FourierRotation_set_angle E r angle =
     bindE (FourierShear_set_shear E (priv_shear_x r) (tan (angle / 2))) (\<lambda>sx.
     bindE (FourierShear_set_shear E (priv_shear_y r) (- sin angle)) (\<lambda>sy.
       Inr (r\<lparr>priv_shear_x := sx, priv_shear_y := sy, priv_angle := angle\<rparr>)))"

definition FourierRotation_init :: "env \<Rightarrow> grid \<Rightarrow> real \<Rightarrow> error + FourierRotation" where
  "FourierRotation_init E g angle =
     (if \<not> is_regular g \<or> ndim g \<noteq> 2 then Inl ValueError
      else
        bindE (FourierShear_init E g 0 0) (\<lambda>sx.
        bindE (FourierShear_init E g 0 1) (\<lambda>sy.
          FourierRotation_set_angle E
            \<lparr>rot_input_grid = g, priv_shear_x = sx, priv_shear_y = sy, priv_angle = 0\<rparr> angle)))"

text \<open>\<^verbatim>\<open>_operation\<close> ends with \<^verbatim>\<open>return f1, f2, f3\<close>: a tuple of the three stages.\<close>

definition FourierRotation_operation :: "FourierRotation \<Rightarrow> pyval \<Rightarrow> bool \<Rightarrow> error + pyval" where
  "FourierRotation_operation r field adjoint =
     bindE (FourierShear_operation (priv_shear_x r) field adjoint) (\<lambda>f1.
     bindE (FourierShear_operation (priv_shear_y r) (FieldV f1) adjoint) (\<lambda>f2.
     bindE (FourierShear_operation (priv_shear_x r) (FieldV f2) adjoint) (\<lambda>f3.
       Inr (TupleV [f1, f2, f3]))))"

definition FourierRotation_forward :: "FourierRotation \<Rightarrow> pyval \<Rightarrow> error + pyval" where
  "FourierRotation_forward r field = FourierRotation_operation r field False"

definition FourierRotation_backward :: "FourierRotation \<Rightarrow> pyval \<Rightarrow> error + pyval" where
  "FourierRotation_backward r field = FourierRotation_operation r field True"

section \<open>AngularSpectrumPropagator\<close>

text \<open>
  A parameter of an optical element is a constant or a function of the grids and the
  wavelength; \<^verbatim>\<open>evaluate_parameter\<close> calls the function.
\<close>

datatype parameter = Constant real | Function "grid \<Rightarrow> grid \<Rightarrow> real \<Rightarrow> real"

definition evaluate_parameter :: "parameter \<Rightarrow> grid \<Rightarrow> grid \<Rightarrow> real \<Rightarrow> real" where
  "evaluate_parameter p ig og wl = (case p of Constant c \<Rightarrow> c | Function f \<Rightarrow> f ig og wl)"

record instance_data =
  fourier_filter :: FourierFilter

record AngularSpectrumPropagator =
  distance :: real
  num_oversampling :: nat
  refractive_index :: parameter
  instances :: "grid \<times> real \<rightharpoonup> instance_data"

definition AngularSpectrumPropagator_init :: "real \<Rightarrow> nat \<Rightarrow> parameter \<Rightarrow> AngularSpectrumPropagator" where
  "AngularSpectrumPropagator_init d n ri =
     \<lparr>distance = d, num_oversampling = n, refractive_index = ri, instances = Map.empty\<rparr>"

text \<open>The setters clear the cache of instances.\<close>

definition set_distance :: "real \<Rightarrow> AngularSpectrumPropagator \<Rightarrow> AngularSpectrumPropagator" where
  "set_distance d p = p\<lparr>distance := d, instances := Map.empty\<rparr>"

definition set_num_oversampling :: "nat \<Rightarrow> AngularSpectrumPropagator \<Rightarrow> AngularSpectrumPropagator" where
  "set_num_oversampling n p = p\<lparr>num_oversampling := n, instances := Map.empty\<rparr>"

definition set_refractive_index :: "parameter \<Rightarrow> AngularSpectrumPropagator \<Rightarrow> AngularSpectrumPropagator" where
  "set_refractive_index ri p = p\<lparr>refractive_index := ri, instances := Map.empty\<rparr>"

text \<open>
  The coordinate \<open>i\<close> of every point of a regular grid (\<^verbatim>\<open>grid.x\<close> is coordinate 0 and
  \<^verbatim>\<open>grid.y\<close> coordinate 1), and the radius of the polar representation of a
  two-dimensional Cartesian grid.
\<close>

definition point_coord :: "grid \<Rightarrow> nat \<Rightarrow> nat \<Rightarrow> real" where
  "point_coord g i k =
     zero g ! i + delta g ! i * real ((k div prod_list (take i (dims g))) mod (dims g ! i))"

definition grid_coord :: "grid \<Rightarrow> nat \<Rightarrow> error + (nat \<Rightarrow> real)" where
  "grid_coord g i = (if ndim g \<le> i then Inl IndexError else Inr (point_coord g i))"

definition polar_r :: "grid \<Rightarrow> error + (nat \<Rightarrow> real)" where
  "polar_r g =
     (if ndim g \<noteq> 2 then Inl ValueError
      else if coords g = polar then Inr (point_coord g 0)
      else Inr (\<lambda>k. sqrt ((point_coord g 0 k)\<^sup>2 + (point_coord g 1 k)\<^sup>2)))"

text \<open>A field of the given samples on a grid.\<close>

definition field_of_samples :: "(nat \<Rightarrow> complex) \<Rightarrow> grid \<Rightarrow> field" where
  "field_of_samples f g =
     Field \<lparr>shape = [grid_size g], dtype = complex128, elem = (\<lambda>idx. f (idx ! 0))\<rparr> g"

text \<open>
  The impulse response and the transfer function in frequency space, for the wave
  number \<open>k\<close> and the distance \<open>d\<close>. The samples are exact: where numpy yields an
  infinity or a NaN (\<open>r = 0\<close>) the model has the value of HOL's total division.
\<close>

definition impulse_response :: "real \<Rightarrow> real \<Rightarrow> grid \<Rightarrow> error + field" where
  "impulse_response k d g =
     bindE (grid_coord g 0) (\<lambda>x.
     bindE (grid_coord g 1) (\<lambda>y.
       Inr (field_of_samples (\<lambda>p.
              let r_squared = (x p)\<^sup>2 + (y p)\<^sup>2 + d\<^sup>2;
                  r = sqrt r_squared;
                  cos_theta = d / r
              in complex_of_real (cos_theta / (2 * pi)) * cis (k * r)
                 * (complex_of_real (1 / r_squared) - \<i> * complex_of_real (k / r))) g)))"

definition transfer_function_native :: "real \<Rightarrow> real \<Rightarrow> grid \<Rightarrow> error + field" where
  "transfer_function_native k d g =
     bindE (polar_r g) (\<lambda>r.
       Inr (field_of_samples (\<lambda>p.
              let k_squared = (r p)\<^sup>2;
                  k_z = csqrt (complex_of_real (k\<^sup>2 - k_squared))
              in exp (\<i> * k_z * complex_of_real d)) g))"

text \<open>The two generators that \<^verbatim>\<open>make_instance\<close> chooses from.\<close>

definition transfer_function_impulse :: "env \<Rightarrow> real \<Rightarrow> real \<Rightarrow> nat \<Rightarrow> grid \<Rightarrow> error + field" where
  "transfer_function_impulse E k d n fourier_grid =
     bindE (make_fft_grid E fourier_grid 1 1) (\<lambda>enlarged_grid.
     bindE (FastFourierTransform E enlarged_grid 1) (\<lambda>fft_upscale.
     bindE (evaluate_supersampled E (impulse_response k d) enlarged_grid n) (\<lambda>ir.
       fft_forward E fft_upscale ir)))"

definition transfer_function_direct :: "env \<Rightarrow> real \<Rightarrow> real \<Rightarrow> nat \<Rightarrow> grid \<Rightarrow> error + field" where
  "transfer_function_direct E k d n fourier_grid =
     evaluate_supersampled E (transfer_function_native k d) fourier_grid n"

text \<open>
  The test \<^verbatim>\<open>np.any(input_grid.delta < wavelength * self.distance / L_max)\<close>.
  \<open>L_max\<close> is a numpy float, so a division by zero does not raise: it yields an
  infinity of the sign of the numerator, or NaN, and a comparison with NaN is false.
\<close>

datatype float_value = Finite real | PlusInf | MinusInf | NaN

definition float_divide :: "real \<Rightarrow> real \<Rightarrow> float_value" where
  "float_divide x y =
     (if y \<noteq> 0 then Finite (x / y)
      else if 0 < x then PlusInf else if x < 0 then MinusInf else NaN)"

definition float_less :: "real \<Rightarrow> float_value \<Rightarrow> bool" where
  "float_less x v = (case v of Finite y \<Rightarrow> x < y | PlusInf \<Rightarrow> True | MinusInf \<Rightarrow> False | NaN \<Rightarrow> False)"

text \<open>\<^verbatim>\<open>np.max(input_grid.dims * input_grid.delta)\<close>; the maximum of no value raises.\<close>

definition L_max :: "grid \<Rightarrow> error + real" where
  "L_max g =
     (case map2 (\<lambda>n d. real n * d) (dims g) (delta g) of
        [] \<Rightarrow> Inl ValueError
      | x # xs \<Rightarrow> Inr (Max (set (x # xs))))"

definition spacing_below_criterion :: "grid \<Rightarrow> real \<Rightarrow> real \<Rightarrow> real \<Rightarrow> bool" where
  "spacing_below_criterion g wl d L =
     list_ex (\<lambda>dl. float_less dl (float_divide (wl * d) L)) (delta g)"

text \<open>
  \<^verbatim>\<open>make_instance\<close>. The wavelength is a Python number, and the division by a zero
  wavelength raises.
\<close>

definition make_instance :: "env \<Rightarrow> AngularSpectrumPropagator \<Rightarrow> grid \<Rightarrow> grid \<Rightarrow> real \<Rightarrow> error + instance_data" where
  "make_instance E p ig og wl =
     (if \<not> is_regular ig \<or> coords ig \<noteq> cartesian then Inl ValueError
      else if wl = 0 then Inl ZeroDivisionError
      else
        let k = 2 * pi / wl * evaluate_parameter (refractive_index p) ig og wl
        in bindE (L_max ig) (\<lambda>L.
             bindE (FourierFilter_init E ig
                      (Generator
                         (if spacing_below_criterion ig wl (distance p) L
                          then transfer_function_impulse E k (distance p) (num_oversampling p)
                          else transfer_function_direct E k (distance p) (num_oversampling p)))
                      2) (\<lambda>ff.
               Inr \<lparr>fourier_filter = ff\<rparr>)))"

text \<open>A wavefront: the electric field, the wavelength and the input Stokes vector.\<close>

record wavefront =
  electric_field :: field
  wavelength :: real
  input_stokes_vector :: "real list option"

definition Wavefront :: "field \<Rightarrow> real \<Rightarrow> real list option \<Rightarrow> wavefront" where
  "Wavefront e wl sv = \<lparr>electric_field = e, wavelength = wl, input_stokes_vector = sv\<rparr>"

text \<open>
  Modelled from the spec: the decorators \<^verbatim>\<open>make_agnostic_forward\<close> and
  \<^verbatim>\<open>make_agnostic_backward\<close> of the optics module. They look the instance up under the
  key of the wavefront's grid and wavelength, build it with \<^verbatim>\<open>make_instance\<close> when the
  key is new, and call the method with it. Input and output grid of the propagator are
  the same grid.
\<close>

definition get_instance_data :: "env \<Rightarrow> AngularSpectrumPropagator \<Rightarrow> grid \<Rightarrow> real \<Rightarrow> error + instance_data \<times> AngularSpectrumPropagator" where
  "get_instance_data E p g wl =
     (case instances p (g, wl) of
        Some inst \<Rightarrow> Inr (inst, p)
      | None \<Rightarrow>
          bindE (make_instance E p g g wl) (\<lambda>inst.
            Inr (inst, p\<lparr>instances := (instances p)((g, wl) \<mapsto> inst)\<rparr>)))"

text \<open>
  The methods \<^verbatim>\<open>forward\<close> and \<^verbatim>\<open>backward\<close>: the filter is applied to the electric
  field, and the filter after the call stays in the instance.
\<close>

definition propagate :: "bool \<Rightarrow> instance_data \<Rightarrow> wavefront \<Rightarrow> error + wavefront \<times> instance_data" where
  "propagate adjoint inst wfront =
     bindE (if adjoint then FourierFilter_backward (fourier_filter inst) (electric_field wfront)
            else FourierFilter_forward (fourier_filter inst) (electric_field wfront)) (\<lambda>(filtered, ff).
       Inr (Wavefront filtered (wavelength wfront) (input_stokes_vector wfront),
            inst\<lparr>fourier_filter := ff\<rparr>))"

definition agnostic_call :: "bool \<Rightarrow> env \<Rightarrow> AngularSpectrumPropagator \<Rightarrow> wavefront \<Rightarrow> error + wavefront \<times> AngularSpectrumPropagator" where
  "agnostic_call adjoint E p wfront =
     (let key = (grid (electric_field wfront), wavelength wfront)
      in bindE (get_instance_data E p (fst key) (snd key)) (\<lambda>(inst, p1).
         bindE (propagate adjoint inst wfront) (\<lambda>(res, inst1).
           Inr (res, p1\<lparr>instances := (instances p1)(key \<mapsto> inst1)\<rparr>))))"

definition AngularSpectrumPropagator_forward :: "env \<Rightarrow> AngularSpectrumPropagator \<Rightarrow> wavefront \<Rightarrow> error + wavefront \<times> AngularSpectrumPropagator" where
  "AngularSpectrumPropagator_forward E p wfront = agnostic_call False E p wfront"

definition AngularSpectrumPropagator_backward :: "env \<Rightarrow> AngularSpectrumPropagator \<Rightarrow> wavefront \<Rightarrow> error + wavefront \<times> AngularSpectrumPropagator" where
  "AngularSpectrumPropagator_backward E p wfront = agnostic_call True E p wfront"

section \<open>Concrete inputs\<close>

text \<open>
  An instance of the collaborators, for the evaluation of the operators at concrete
  inputs: the Fourier grid of a regular grid with the padding factor \<open>q\<close>, the cutout
  of the input samples about the centre of the padded buffer, a phase ramp, and an
  evaluator that does not supersample.
\<close>

definition sample_fft_grid :: "grid \<Rightarrow> real \<Rightarrow> grid" where
  "sample_fft_grid g q =
     \<lparr>is_regular = True, coords = cartesian, ndim = ndim g,
      dims = map (\<lambda>n. nat \<lfloor>real n * q\<rfloor>) (dims g),
      delta = map2 (\<lambda>d n. 2 * pi / (d * real n) / q) (delta g) (dims g),
      zero = map2 (\<lambda>d n. - (2 * pi / (d * real n) / q) * real (nat \<lfloor>real n * q\<rfloor> div 2))
               (delta g) (dims g)\<rparr>"

definition sample_cutout :: "grid \<Rightarrow> real \<Rightarrow> (nat \<times> nat) list option" where
  "sample_cutout g q =
     (if q = 1 then None
      else Some (map (\<lambda>n. (nat \<lfloor>real n * q\<rfloor> div 2 - n div 2,
                           nat \<lfloor>real n * q\<rfloor> div 2 - n div 2 + n))
                  (grid_shape g)))"

definition sample_env :: env where
  "sample_env =
     \<lparr>FastFourierTransform = (\<lambda>g q. if \<not> is_regular g then Inl ValueError
          else Inr \<lparr>output_grid = sample_fft_grid g q, cutout_input = sample_cutout g q\<rparr>),
      fft_forward = (\<lambda>fo f. Inr (Field (data f) (output_grid fo))),
      make_fft_grid = (\<lambda>g q fov. if \<not> is_regular g then Inl ValueError
          else Inr (sample_fft_grid g (q * fov))),
      numexpr_grid_shift = (\<lambda>sh g. Inr \<lparr>shape = [grid_size g], dtype = complex128,
          elem = (\<lambda>idx. cis (\<Sum>i<ndim g. sh ! i * point_coord g i (idx ! 0)))\<rparr>),
      evaluate_supersampled = (\<lambda>f g n. f g)\<rparr>"

text \<open>A grid of four by four samples of spacing one, and a grid of a single sample.\<close>

definition grid44 :: grid where
  "grid44 = \<lparr>is_regular = True, coords = cartesian, ndim = 2, dims = [4, 4],
             delta = [1, 1], zero = [0, 0]\<rparr>"

definition grid11 :: grid where
  "grid11 = \<lparr>is_regular = True, coords = cartesian, ndim = 2, dims = [1, 1],
             delta = [1, 1], zero = [0, 0]\<rparr>"

text \<open>A grid of three dimensions, which is regular but not two-dimensional.\<close>

definition grid222 :: grid where
  "grid222 = \<lparr>is_regular = True, coords = cartesian, ndim = 3, dims = [2, 2, 2],
              delta = [1, 1, 1], zero = [0, 0, 0]\<rparr>"

text \<open>The internal grid of the single-sample grid for a padding factor of two.\<close>

definition igrid22 :: grid where
  "igrid22 = sample_fft_grid grid11 2"

text \<open>The field of the single sample 1 on the single-sample grid.\<close>

definition ones11 :: field where
  "ones11 = Field \<lparr>shape = [1], dtype = complex128, elem = (\<lambda>idx. 1)\<rparr> grid11"

text \<open>Scalar fields on the grid of three dimensions and on the grid of four by four samples,
  and a field of vectors of two components on the latter.\<close>

definition ones222 :: field where
  "ones222 = Field \<lparr>shape = [8], dtype = complex128, elem = (\<lambda>idx. 1)\<rparr> grid222"

definition ones44 :: field where
  "ones44 = Field \<lparr>shape = [16], dtype = complex128, elem = (\<lambda>idx. 1)\<rparr> grid44"

definition vector44 :: field where
  "vector44 = Field \<lparr>shape = [2, 16], dtype = complex128, elem = (\<lambda>idx. 1)\<rparr> grid44"

text \<open>
  A grid of one dimension with a single sample, and its internal grids for the padding
  factors one and two.
\<close>

definition grid1 :: grid where
  "grid1 = \<lparr>is_regular = True, coords = cartesian, ndim = 1, dims = [1], delta = [1], zero = [0]\<rparr>"

definition igrid1 :: grid where
  "igrid1 = sample_fft_grid grid1 1"

definition igrid2 :: grid where
  "igrid2 = sample_fft_grid grid1 2"

text \<open>
  The scalar field of a constant value, and the field of vectors of \<open>m\<close> components of
  a constant value.
\<close>

definition const_field :: "grid \<Rightarrow> dtype \<Rightarrow> complex \<Rightarrow> field" where
  "const_field g d c = Field \<lparr>shape = [grid_size g], dtype = d, elem = (\<lambda>idx. c)\<rparr> g"

definition const_vector_field :: "grid \<Rightarrow> nat \<Rightarrow> dtype \<Rightarrow> complex \<Rightarrow> field" where
  "const_vector_field g m d c = Field \<lparr>shape = [m, grid_size g], dtype = d, elem = (\<lambda>idx. c)\<rparr> g"

text \<open>
  The filters that \<open>FourierFilter_init\<close> builds on the grid of one sample from a
  transfer function, without padding and with the padding factor two.
\<close>

definition unpadded_filter :: "transfer_function \<Rightarrow> FourierFilter" where
  "unpadded_filter tf =
     \<lparr>input_grid = grid1, internal_grid = igrid1, cutout = None, shape_in = [1],
      transfer_function = tf, priv_transfer_function = None, internal_array = None\<rparr>"

definition padded_filter :: "transfer_function \<Rightarrow> FourierFilter" where
  "padded_filter tf =
     \<lparr>input_grid = grid1, internal_grid = igrid2, cutout = Some [(1, 2)], shape_in = [1],
      transfer_function = tf, priv_transfer_function = None, internal_array = None\<rparr>"

text \<open>The value that a call returned, and the operator after the call.\<close>

definition returned :: "error + 'a \<times> 's \<Rightarrow> 'a" where
  "returned r = fst (projr r)"

definition state_after :: "error + 'a \<times> 's \<Rightarrow> 's" where
  "state_after r = snd (projr r)"

text \<open>
  The padded filter of the transfer function 1, and that filter after a forward call
  with a field of vectors of two components.
\<close>

definition unit_padded_filter :: FourierFilter where
  "unit_padded_filter = padded_filter (Precomputed (const_field igrid2 complex128 1))"

definition used_padded_filter :: FourierFilter where
  "used_padded_filter =
     state_after (FourierFilter_forward unit_padded_filter (const_vector_field grid1 2 complex128 1))"

text \<open>
  The unpadded filter of the transfer function 2, and that filter after a forward call
  with the complex field of the sample 1.
\<close>

definition used_unpadded_filter :: FourierFilter where
  "used_unpadded_filter =
     state_after (FourierFilter_forward (unpadded_filter (Precomputed (const_field igrid1 complex128 2)))
                    (const_field grid1 complex128 1))"

text \<open>
  The reading of claim C5 by its words: the spacing is too coarse for the criterion when
  the spacing of some axis is larger than \<open>wavelength * distance / L_max\<close>.
\<close>

definition spacing_too_coarse :: "grid \<Rightarrow> real \<Rightarrow> real \<Rightarrow> real \<Rightarrow> bool" where
  "spacing_too_coarse g wl d L = list_ex (\<lambda>dl. wl * d / L < dl) (delta g)"

section \<open>Notions for the adjoint\<close>

text \<open>
  The transform of an array along one axis, as a sum over that axis with a kernel: the
  sample at \<open>idx\<close> of the result is the sum, over the positions \<open>j\<close> of the axis, of
  the sample at \<open>idx\<close> with \<open>j\<close> on the axis, times \<open>K j (idx ! ax)\<close>. \<open>dft_axis\<close>
  is this sum with the kernel \<open>dft_kernel\<close>.
\<close>

definition axis_op :: "(nat \<Rightarrow> nat \<Rightarrow> complex) \<Rightarrow> nat \<Rightarrow> nat \<Rightarrow> (nat list \<Rightarrow> complex) \<Rightarrow> nat list \<Rightarrow> complex" where
  "axis_op K ax n x idx = (\<Sum>j<n. x (idx[ax := j]) * K j (idx ! ax))"

text \<open>
  The inner product of two arrays of the shape \<open>sh\<close>, given by their samples, as a sum
  over the set of the indices of the shape.
\<close>

definition inner_on :: "nat list \<Rightarrow> (nat list \<Rightarrow> complex) \<Rightarrow> (nat list \<Rightarrow> complex) \<Rightarrow> complex" where
  "inner_on sh x y = (\<Sum>idx\<in>set (indices sh). x idx * cnj (y idx))"

text \<open>The transforms along a list of axes, the last axis of the list first, as \<open>fftn1\<close> does.\<close>

fun axes_op :: "bool \<Rightarrow> nat list \<Rightarrow> nat list \<Rightarrow> (nat list \<Rightarrow> complex) \<Rightarrow> nat list \<Rightarrow> complex" where
  "axes_op bw sh [] x = x"
| "axes_op bw sh (ax # axs) x = axis_op (dft_kernel bw (sh ! ax)) ax (sh ! ax) (axes_op bw sh axs x)"

text \<open>The axes of a list, counted from the front of a shape of \<open>nd\<close> axes.\<close>

definition norm_axes :: "nat \<Rightarrow> int list \<Rightarrow> nat list" where
  "norm_axes nd axes = map (\<lambda>ax. projr (normalize_axis nd ax)) axes"

text \<open>
  A field has the shape that its grid gives: the grid has as many entries in \<open>dims\<close> as
  it has dimensions, at least one, and the last axis of the data is the number of
  samples of the grid. \<^verbatim>\<open>Field\<close> of the field module does not check it.
\<close>

definition well_formed :: "field \<Rightarrow> bool" where
  "well_formed f =
     (length (dims (grid f)) = ndim (grid f) \<and> 0 < ndim (grid f)
      \<and> shape (data f) = tensor_shape f @ [grid_size (grid f)])"

text \<open>
  A filter fits a field: the internal grid has as many entries in \<open>dims\<close> as it has
  dimensions; without a cutout the internal grid has the shape of the grid of the
  field; with a cutout the call allocates the scratch buffer, and the cutout of the
  buffer has the shape of the shaped field.
\<close>

definition filter_conforms :: "FourierFilter \<Rightarrow> field \<Rightarrow> bool" where
  "filter_conforms s field =
     (length (dims (internal_grid s)) = ndim (internal_grid s)
      \<and> (case cutout s of
            None \<Rightarrow> grid_shape (internal_grid s) = grid_shape (grid field)
          | Some c \<Rightarrow>
              recompute_internal_array s field
              \<and> sliced_shape (cutout_slices (tensor_order field) c)
                    (tensor_shape field @ grid_shape (internal_grid s)) =
                  tensor_shape field @ grid_shape (grid field)))"

section \<open>Properties\<close>

lemma bindE_simps [simp]:
  "bindE (Inl e) k = Inl e"
  "bindE (Inr x) k = k x"
  by (simp_all add: bindE_def)

lemma bindE_eq_Inr: "bindE r k = Inr y \<longleftrightarrow> (\<exists>x. r = Inr x \<and> k x = Inr y)"
  by (cases r) simp_all

subsection \<open>Construction of the shear and the rotation\<close>

text \<open>
  Claim C8. Constructing a FourierShear or a FourierRotation with an input grid that is
  not regular, or whose number of dimensions is not two, raises ValueError: the
  constructor returns no operator, whatever the other arguments are.
\<close>

theorem shear_rotation_reject_grid:
  "\<not> is_regular g \<or> ndim g \<noteq> 2 \<Longrightarrow>
   FourierShear_init E g a sd = Inl ValueError \<and> FourierRotation_init E g angle = Inl ValueError"
  by (simp add: FourierShear_init_def FourierRotation_init_def)

theorem shear_rotation_reject_grid_witness:
  "ndim grid222 \<noteq> 2
   \<and> FourierShear_init sample_env grid222 1 0 = Inl ValueError
   \<and> FourierRotation_init sample_env grid222 1 = Inl ValueError"
  using shear_rotation_reject_grid [of grid222 sample_env 1 0 1]
  by (simp add: grid222_def)

subsection \<open>The choice of the transfer function of the propagator\<close>



lemma FourierFilter_init_transfer_function:
  "FourierFilter_init E g tf q = Inr ff \<Longrightarrow> transfer_function ff = tf"
  by (auto simp: FourierFilter_init_def bindE_eq_Inr)

lemma make_instance_transfer_function:
  assumes "make_instance E p g og wl = Inr inst"
  shows "\<exists>L. L_max g = Inr L \<and>
           transfer_function (fourier_filter inst) =
             Generator
               (if spacing_below_criterion g wl (distance p) L
                then transfer_function_impulse E
                       (2 * pi / wl * evaluate_parameter (refractive_index p) g og wl)
                       (distance p) (num_oversampling p)
                else transfer_function_direct E
                       (2 * pi / wl * evaluate_parameter (refractive_index p) g og wl)
                       (distance p) (num_oversampling p))"
  using assms
  by (auto simp: make_instance_def Let_def bindE_eq_Inr split: if_splits
           dest!: FourierFilter_init_transfer_function)

lemma L_max_grid44: "L_max grid44 = Inr 4"
  by (simp add: L_max_def grid44_def)

lemma make_instance_grid44:
  "make_instance sample_env (AngularSpectrumPropagator_init d 2 (Constant 1)) grid44 grid44 1 =
     Inr \<lparr>fourier_filter =
           \<lparr>input_grid = grid44, internal_grid = sample_fft_grid grid44 2,
            cutout = sample_cutout grid44 2, shape_in = [4, 4],
            transfer_function =
              Generator (if spacing_below_criterion grid44 1 d 4
                         then transfer_function_impulse sample_env (2 * pi) d 2
                         else transfer_function_direct sample_env (2 * pi) d 2),
            priv_transfer_function = None, internal_array = None\<rparr>\<rparr>"
  by (simp add: make_instance_def L_max_grid44 FourierFilter_init_def Let_def
        AngularSpectrumPropagator_init_def evaluate_parameter_def)
     (simp add: grid44_def sample_env_def grid_shape_def)




text \<open>
  Claim C5, as amended. When \<open>make_instance\<close> builds an instance for a grid whose
  largest extent \<open>L_max\<close> is not zero, the transfer function is the transform of the
  supersampled impulse response exactly when the spacing of some axis is smaller than
  \<open>wavelength * distance / L_max\<close>, and the direct transfer function in frequency space
  otherwise.
\<close>

theorem make_instance_selects:
  assumes "make_instance E p g og wl = Inr inst" and "L_max g = Inr L" and "L \<noteq> 0"
  shows "transfer_function (fourier_filter inst) =
           Generator
             (if \<exists>dl\<in>set (delta g). dl < wl * distance p / L
              then transfer_function_impulse E
                     (2 * pi / wl * evaluate_parameter (refractive_index p) g og wl)
                     (distance p) (num_oversampling p)
              else transfer_function_direct E
                     (2 * pi / wl * evaluate_parameter (refractive_index p) g og wl)
                     (distance p) (num_oversampling p))"
proof -
  have "spacing_below_criterion g wl (distance p) L \<longleftrightarrow> (\<exists>dl\<in>set (delta g). dl < wl * distance p / L)"
    using assms(3)
    by (simp add: spacing_below_criterion_def float_divide_def float_less_def list_ex_iff)
  with make_instance_transfer_function [OF assms(1)] assms(2) show ?thesis by auto
qed

theorem make_instance_selects_witness:
  "L_max grid44 = Inr 4 \<and> (4::real) \<noteq> 0
   \<and> (\<exists>inst. make_instance sample_env (AngularSpectrumPropagator_init 2 2 (Constant 1))
                 grid44 grid44 1 = Inr inst
        \<and> transfer_function (fourier_filter inst) =
            Generator (transfer_function_direct sample_env (2 * pi) 2 2))"
proof -
  let ?p = "AngularSpectrumPropagator_init 2 2 (Constant 1)"
  obtain inst where mk: "make_instance sample_env ?p grid44 grid44 1 = Inr inst"
    using make_instance_grid44 [of 2] by blast
  from make_instance_selects [OF mk L_max_grid44]
  have "transfer_function (fourier_filter inst) =
          Generator (transfer_function_direct sample_env (2 * pi) 2 2)"
    by (simp add: AngularSpectrumPropagator_init_def evaluate_parameter_def grid44_def)
  with mk L_max_grid44 show ?thesis by auto
qed

text \<open>
  At a spacing of 1 and a criterion \<open>wavelength * distance / L_max = 1 * 8 / 4 = 2\<close>
  the spacing is finer than the criterion, not coarser, and the impulse response is
  chosen.
\<close>

theorem make_instance_coarse_counterexample:
  "\<not> spacing_too_coarse grid44 1 8 4
   \<and> make_instance sample_env (AngularSpectrumPropagator_init 8 2 (Constant 1)) grid44 grid44 1 =
       Inr \<lparr>fourier_filter =
             \<lparr>input_grid = grid44, internal_grid = sample_fft_grid grid44 2,
              cutout = sample_cutout grid44 2, shape_in = [4, 4],
              transfer_function = Generator (transfer_function_impulse sample_env (2 * pi) 8 2),
              priv_transfer_function = None, internal_array = None\<rparr>\<rparr>"
proof -
  have "spacing_below_criterion grid44 1 8 4"
    by (simp add: spacing_below_criterion_def float_divide_def float_less_def grid44_def)
  moreover have "\<not> spacing_too_coarse grid44 1 8 4"
    by (simp add: spacing_too_coarse_def grid44_def)
  ultimately show ?thesis using make_instance_grid44 [of 8] by simp
qed

subsection \<open>Evaluation of the array operations\<close>

lemma conj_simps [simp]:
  "shape (conj a) = shape a" "dtype (conj a) = dtype a" "elem (conj a) idx = cnj (elem a idx)"
  by (simp_all add: conj_def)

lemma astype_simps [simp]:
  "shape (astype d a) = shape a" "dtype (astype d a) = d"
  by (simp_all add: astype_def)

lemma upt2: "[0..<2] = [0, Suc 0]"
  by (simp add: upt_conv_Cons)

lemma igrid22_simps: "is_regular igrid22" "ndim igrid22 = 2" "grid_shape igrid22 = [2, 2]" "grid_size igrid22 = 4"
  by (simp_all add: igrid22_def sample_fft_grid_def grid11_def grid_shape_def grid_size_def)

lemma grid11_simps: "is_regular grid11" "ndim grid11 = 2" "grid_shape grid11 = [1, 1]" "grid_size grid11 = 1"
  by (simp_all add: grid11_def grid_shape_def grid_size_def)

subsection \<open>The shift operator\<close>

lemma flatnonzero_zeros: "\<forall>x\<in>set sh. x = 0 \<Longrightarrow> flatnonzero sh = []"
  by (auto simp: flatnonzero_def filter_empty_conv)

text \<open>
  Claim C6. When every component of the shift is zero, the operator that the constructor
  (or the setter of the shift) yields has no filter, and forward and backward return the
  input field with its samples, shape and grid unchanged and the dtype complex128. No
  transform is part of the result.
\<close>

theorem zero_shift_identity:
  assumes "\<forall>x\<in>set sh. x = 0"
  shows "(\<exists>s. FourierShift_init E g sh = Inr s
             \<and> FourierShift_forward s u = Inr (u\<lparr>data := (data u)\<lparr>dtype := complex128\<rparr>\<rparr>)
             \<and> FourierShift_backward s u = Inr (u\<lparr>data := (data u)\<lparr>dtype := complex128\<rparr>\<rparr>))
       \<and> (\<exists>s. FourierShift_set_shift E s0 sh = Inr s
             \<and> FourierShift_forward s u = Inr (u\<lparr>data := (data u)\<lparr>dtype := complex128\<rparr>\<rparr>)
             \<and> FourierShift_backward s u = Inr (u\<lparr>data := (data u)\<lparr>dtype := complex128\<rparr>\<rparr>))"
  using flatnonzero_zeros [OF assms]
  by (simp add: FourierShift_init_def FourierShift_set_shift_def shift_ft_axes_def Let_def
        FourierShift_forward_def FourierShift_backward_def FourierShift_operation_def
        field_astype_def astype_def is_complex_dtype_def)

theorem zero_shift_identity_witness:
  "list_all (\<lambda>x. x = 0) [0, 0 :: real]
   \<and> (\<exists>s. FourierShift_init sample_env grid11 [0, 0] = Inr s
          \<and> FourierShift_forward s ones11 = Inr (ones11\<lparr>data := (data ones11)\<lparr>dtype := complex128\<rparr>\<rparr>)
          \<and> FourierShift_backward s ones11 = Inr (ones11\<lparr>data := (data ones11)\<lparr>dtype := complex128\<rparr>\<rparr>))"
  using zero_shift_identity [of "[0, 0]" sample_env grid11 ones11]
  by simp

lemma shift222:
  "\<exists>s. FourierShift_init sample_env grid222 [0, 1, 0] = Inr s \<and> priv_ft_axes s = [0] \<and> priv_shift s = [0, 1, 0]"
  by (simp add: FourierShift_init_def FourierShift_set_shift_def shift_ft_axes_def Let_def flatnonzero_def
     sample_env_def grid222_def sample_fft_grid_def mask_select_def CartesianGrid_regular_def grid_size_def
    reshape_def grid_shape_def ifftshift_axis_def normalize_axis_def broadcasting_slice_def)

lemma shift44:
  "\<exists>s. FourierShift_init sample_env grid44 [0, 1] = Inr s \<and> priv_ft_axes s = [0] \<and> priv_shift s = [0, 1]"
  by (simp add: FourierShift_init_def FourierShift_set_shift_def shift_ft_axes_def Let_def flatnonzero_def
     sample_env_def grid44_def sample_fft_grid_def mask_select_def CartesianGrid_regular_def grid_size_def
    reshape_def grid_shape_def ifftshift_axis_def normalize_axis_def broadcasting_slice_def)

text \<open>
  Claim C7, at inputs where it fails. For the shift \<open>(0, 1, 0)\<close> on a grid of three
  dimensions the only transformed axis of a scalar field is axis 0 of the shaped array,
  which is dimension 2 of the grid, where the shift is zero; dimension 1, where the shift
  is not zero, is not transformed. For the shift \<open>(0, 1)\<close> on a grid of two dimensions
  the transformed axis of a field of vectors is the tensor axis, while for a scalar
  field it is dimension 1, as the claim says.
\<close>

theorem shift_transforms_zero_shift_axis:
  "(\<exists>s. FourierShift_init sample_env grid222 [0, 1, 0] = Inr s
        \<and> transformed_dims s ones222 = [Inr (Some 2)]
        \<and> priv_shift s ! 2 = 0 \<and> priv_shift s ! 1 \<noteq> 0)
   \<and> (\<exists>s. FourierShift_init sample_env grid44 [0, 1] = Inr s
        \<and> transformed_dims s vector44 = [Inr None]
        \<and> transformed_dims s ones44 = [Inr (Some 1)])"
proof -
  have a: "tensor_order ones222 = 0" "ndim (grid ones222) = 3"
    by (simp_all add: ones222_def Field_def tensor_order_def grid222_def)
  have b: "tensor_order vector44 = 1" "ndim (grid vector44) = 2"
    by (simp_all add: vector44_def Field_def tensor_order_def grid44_def)
  have c: "tensor_order ones44 = 0" "ndim (grid ones44) = 2"
    by (simp_all add: ones44_def Field_def tensor_order_def grid44_def)
  obtain s1 where s1: "FourierShift_init sample_env grid222 [0, 1, 0] = Inr s1"
      "priv_ft_axes s1 = [0]" "priv_shift s1 = [0, 1, 0]"
    using shift222 by blast
  obtain s2 where s2: "FourierShift_init sample_env grid44 [0, 1] = Inr s2"
      "priv_ft_axes s2 = [0]" "priv_shift s2 = [0, 1]"
    using shift44 by blast
  have "transformed_dims s1 ones222 = [Inr (Some 2)]"
    by (simp add: transformed_dims_def a s1 normalize_axis_def grid_dim_of_axis_def)
  moreover have "transformed_dims s2 vector44 = [Inr None]"
    by (simp add: transformed_dims_def b s2 normalize_axis_def grid_dim_of_axis_def)
  moreover have "transformed_dims s2 ones44 = [Inr (Some 1)]"
    by (simp add: transformed_dims_def c s2 normalize_axis_def grid_dim_of_axis_def)
  ultimately show ?thesis using s1 s2 by auto
qed


subsection \<open>The propagator\<close>

lemma padded_filter_operation:
  assumes s: "input_grid s = grid11" "internal_grid s = igrid22" "cutout s = Some [(1, 2), (1, 2)]"
             "transfer_function s = Generator gen" "priv_transfer_function s = None" "internal_array s = None"
    and gen: "gen igrid22 = Inr tfg" "grid tfg = igrid22" "shape (data tfg) = [4]"
    and u: "grid u = grid11" "shape (data u) = [1]"
  shows "\<exists>r s'. FourierFilter_operation s u adj = Inr (r, s')"
proof -
  have tsh: "tensor_shape u = []" "tensor_order u = 0" "tensor_shape tfg = []"
    using u gen by (simp_all add: tensor_shape_def tensor_order_def)
  obtain t1 where t1: "shaped tfg = Inr t1" "shape t1 = [2, 2]"
    using gen by (simp add: shaped_def igrid22_simps reshape_def tsh)
  obtain t2 where t2: "ifftshift t1 (last_axes 2) = Inr t2" "shape t2 = [2, 2]"
    using t1(2) by (simp add: last_axes_def upt2 normalize_axis_def ifftshift_axis_def)
  define tf where "tf = astype (field_dtype u) t2"
  have tf: "shape tf = [2, 2]" by (simp add: tf_def t2)
  have ctf: "compute_transfer_function s u = Inr tf"
    by (simp add: compute_transfer_function_def s gen t1 grid11_simps t2 tf_def)
  define buf where "buf = \<lparr>shape = [2, 2], dtype = field_dtype u, elem = (\<lambda>idx. 0::complex)\<rparr>"
  define s1 where "s1 = s\<lparr>priv_transfer_function := Some tf, internal_array := Some buf\<rparr>"
  have cf: "FourierFilter_compute_functions s u = Inr s1"
    by (simp add: FourierFilter_compute_functions_def s ctf recompute_internal_array_def
          zeros_shaped_def igrid22_simps tsh buf_def s1_def)
  have s1: "input_grid s1 = grid11" "internal_grid s1 = igrid22" "cutout s1 = Some [(1, 2), (1, 2)]"
     "priv_transfer_function s1 = Some tf" "internal_array s1 = Some buf"
    by (simp_all add: s1_def s)
  obtain f0 where f0: "shaped u = Inr f0" "shape f0 = [1, 1]"
    using u by (simp add: shaped_def grid11_simps reshape_def tsh)
  obtain f1 where f1: "setitem (buf\<lparr>elem := (\<lambda>idx. 0)\<rparr>) (cutout_slices 0 [(1, 2), (1, 2)]) f0 = Inr f1"
      "shape f1 = [2, 2]"
    by (simp add: setitem_def buf_def cutout_slices_def sliced_shape_def pad_slices_def slice_len_def
          f0 broadcastable_def)
  obtain f2 where f2: "fftn f1 (last_axes 2) = Inr f2" "shape f2 = [2, 2]"
    using f1(2) by (simp add: fftn_def last_axes_def upt2 fft1_def normalize_axis_def dft_axis_def)
  obtain f3 where f3: "apply_transfer_function igrid22 tf f2 adj = Inr f3" "shape f3 = [2, 2]"
    using f2(2) tf by (cases adj) (simp_all add: apply_transfer_function_def s1 igrid22_simps imul_def broadcastable_def)
  obtain f4 where f4: "ifftn f3 (last_axes 2) = Inr f4" "shape f4 = [2, 2]"
    using f3(2) by (simp add: ifftn_def last_axes_def upt2 fft1_def normalize_axis_def dft_axis_def)
  obtain f5 where f5: "getitem f4 (cutout_slices 0 [(1, 2), (1, 2)]) = Inr f5" "shape f5 = [1, 1]"
    using f4(2) by (simp add: getitem_def cutout_slices_def sliced_shape_def pad_slices_def slice_len_def)
  obtain f6 where f6: "reshape_infer (shape_lead 2 (shape f4)) f5 = Inr f6"
    using f4(2) f5(2) by (simp add: reshape_infer_def shape_lead_def reshape_def)
  show ?thesis
    using f1 f2 f3 f4 f5 f6
    by (simp add: FourierFilter_operation_def cf f0 s1 tsh grid11_simps igrid22_simps)
qed


lemma propagate_frame:
  "propagate adj inst w = Inr (res, inst') \<Longrightarrow>
   wavelength res = wavelength w \<and> input_stokes_vector res = input_stokes_vector w"
  by (auto simp: propagate_def bindE_eq_Inr Wavefront_def split: if_splits)

text \<open>
  Claim C9. The wavefront that forward or backward of the propagator returns has the
  wavelength and the input Stokes vector of the wavefront passed in.
\<close>

theorem propagator_preserves_wavelength_stokes:
  assumes "AngularSpectrumPropagator_forward E p w = Inr (res, p')
           \<or> AngularSpectrumPropagator_backward E p w = Inr (res, p')"
  shows "wavelength res = wavelength w \<and> input_stokes_vector res = input_stokes_vector w"
  using assms
  by (auto simp: AngularSpectrumPropagator_forward_def AngularSpectrumPropagator_backward_def
        agnostic_call_def Let_def bindE_eq_Inr dest: propagate_frame)

lemma ones11_simps: "grid ones11 = grid11" "shape (data ones11) = [1]" "field_dtype ones11 = complex128"
  by (simp_all add: ones11_def Field_def field_dtype_def)

lemma L_max_grid11: "L_max grid11 = Inr 1"
  by (simp add: L_max_def grid11_def)

lemma make_instance_grid11:
  "make_instance sample_env (AngularSpectrumPropagator_init 1 2 (Constant 1)) grid11 grid11 1 =
     Inr \<lparr>fourier_filter =
           \<lparr>input_grid = grid11, internal_grid = igrid22,
            cutout = Some [(1, 2), (1, 2)], shape_in = [1, 1],
            transfer_function = Generator (transfer_function_direct sample_env (2 * pi) 1 2),
            priv_transfer_function = None, internal_array = None\<rparr>\<rparr>"
  by (simp add: make_instance_def L_max_grid11 FourierFilter_init_def Let_def
        AngularSpectrumPropagator_init_def evaluate_parameter_def grid11_simps igrid22_def
        spacing_below_criterion_def float_divide_def float_less_def)
     (simp add: grid11_def sample_env_def grid_shape_def sample_cutout_def)

lemma direct_igrid22:
  "\<exists>tfg. transfer_function_direct sample_env k d n igrid22 = Inr tfg \<and> grid tfg = igrid22
     \<and> shape (data tfg) = [4]"
  by (simp add: transfer_function_direct_def sample_env_def transfer_function_native_def
        polar_r_def igrid22_simps field_of_samples_def Field_def)

theorem propagator_preserves_wavelength_stokes_witness:
  "\<exists>res p'. AngularSpectrumPropagator_forward sample_env
       (AngularSpectrumPropagator_init 1 2 (Constant 1)) (Wavefront ones11 1 (Some [1, 0, 0, 0])) = Inr (res, p')
     \<and> wavelength res = 1 \<and> input_stokes_vector res = Some [1, 0, 0, 0]"
proof -
  let ?p = "AngularSpectrumPropagator_init 1 2 (Constant 1)"
  let ?w = "Wavefront ones11 1 (Some [1, 0, 0, 0])"
  let ?ff = "\<lparr>input_grid = grid11, internal_grid = igrid22,
            cutout = Some [(1, 2), (1, 2)], shape_in = [1, 1],
            transfer_function = Generator (transfer_function_direct sample_env (2 * pi) 1 2),
            priv_transfer_function = None, internal_array = None\<rparr>"
  obtain tfg where tfg: "transfer_function_direct sample_env (2 * pi) 1 2 igrid22 = Inr tfg"
      "grid tfg = igrid22" "shape (data tfg) = [4]"
    using direct_igrid22 by blast
  obtain r s' where op: "FourierFilter_operation ?ff ones11 False = Inr (r, s')"
    using padded_filter_operation [where s = ?ff and tfg = tfg and u = ones11 and adj = False] tfg ones11_simps by auto
  have "\<exists>res p'. AngularSpectrumPropagator_forward sample_env ?p ?w = Inr (res, p')"
    by (simp add: AngularSpectrumPropagator_forward_def agnostic_call_def get_instance_data_def
          Wavefront_def ones11_simps make_instance_grid11 [simplified] propagate_def
          FourierFilter_forward_def op [simplified])
       (simp add: AngularSpectrumPropagator_init_def ones11_simps make_instance_grid11 [simplified AngularSpectrumPropagator_init_def] op [simplified])
  then obtain res p' where fw: "AngularSpectrumPropagator_forward sample_env ?p ?w = Inr (res, p')"
    by blast
  from propagator_preserves_wavelength_stokes [of sample_env ?p ?w res p'] fw
  show ?thesis by (auto simp: Wavefront_def)
qed


subsection \<open>The cache of the filter\<close>

lemma grid1_simps: "is_regular grid1" "ndim grid1 = 1" "grid_shape grid1 = [1]" "grid_size grid1 = 1"
  by (simp_all add: grid1_def grid_shape_def grid_size_def)

lemma igrid1_simps: "is_regular igrid1" "ndim igrid1 = 1" "grid_shape igrid1 = [1]" "grid_size igrid1 = 1"
  by (simp_all add: igrid1_def sample_fft_grid_def grid1_def grid_shape_def grid_size_def)

lemma igrid2_simps: "is_regular igrid2" "ndim igrid2 = 1" "grid_shape igrid2 = [2]" "grid_size igrid2 = 2"
  by (simp_all add: igrid2_def sample_fft_grid_def grid1_def grid_shape_def grid_size_def)

lemma init_unpadded: "FourierFilter_init sample_env grid1 tf 1 = Inr (unpadded_filter tf)"
  by (simp add: FourierFilter_init_def sample_env_def grid1_simps unpadded_filter_def igrid1_def sample_cutout_def)

lemma init_padded: "FourierFilter_init sample_env grid1 tf 2 = Inr (padded_filter tf)"
  by (simp add: FourierFilter_init_def sample_env_def grid1_simps padded_filter_def igrid2_def sample_cutout_def)

lemma const_field_simps [simp]:
  "grid (const_field g d c) = g" "shape (data (const_field g d c)) = [grid_size g]"
  "field_dtype (const_field g d c) = d" "elem (data (const_field g d c)) idx = c"
  "tensor_shape (const_field g d c) = []" "tensor_order (const_field g d c) = 0"
  by (simp_all add: const_field_def Field_def field_dtype_def tensor_shape_def tensor_order_def)

lemma const_vector_field_simps [simp]:
  "grid (const_vector_field g m d c) = g" "shape (data (const_vector_field g m d c)) = [m, grid_size g]"
  "field_dtype (const_vector_field g m d c) = d" "elem (data (const_vector_field g m d c)) idx = c"
  "tensor_shape (const_vector_field g m d c) = [m]" "tensor_order (const_vector_field g m d c) = 1"
  by (simp_all add: const_vector_field_def Field_def field_dtype_def tensor_shape_def tensor_order_def)

lemma padded_first_call:
  assumes tf: "grid tfld = igrid2" "shape (data tfld) = [2]"
    and u: "grid u = grid1" "shape (data u) = [m, 1]" "0 < m"
  shows "\<exists>r s1 c buf. FourierFilter_operation (padded_filter (Precomputed tfld)) u adj = Inr (r, s1)
          \<and> input_grid s1 = grid1 \<and> internal_grid s1 = igrid2 \<and> cutout s1 = Some [(1, 2)]
          \<and> priv_transfer_function s1 = Some c \<and> shape c = [2] \<and> dtype c = field_dtype u
          \<and> internal_array s1 = Some buf \<and> shape buf = [m, 2] \<and> dtype buf = field_dtype u
          \<and> shape (data r) = [m, 1]"
proof -
  let ?s = "padded_filter (Precomputed tfld)"
  have s: "input_grid ?s = grid1" "internal_grid ?s = igrid2" "cutout ?s = Some [(1, 2)]"
     "transfer_function ?s = Precomputed tfld" "priv_transfer_function ?s = None" "internal_array ?s = None"
    by (simp_all add: padded_filter_def)
  have tsh: "tensor_shape u = [m]" "tensor_order u = 1" "tensor_shape tfld = []"
    using u tf by (simp_all add: tensor_shape_def tensor_order_def)
  obtain t1 where t1: "shaped tfld = Inr t1" "shape t1 = [2]"
    using tf by (simp add: shaped_def igrid2_simps reshape_def tsh)
  obtain t2 where t2: "ifftshift t1 (last_axes 1) = Inr t2" "shape t2 = [2]"
    using t1(2) by (simp add: last_axes_def normalize_axis_def ifftshift_axis_def)
  define c where "c = astype (field_dtype u) t2"
  have c: "shape c = [2]" "dtype c = field_dtype u" by (simp_all add: c_def t2 astype_def)
  have ctf: "compute_transfer_function ?s u = Inr c"
    using t2 by (simp add: compute_transfer_function_def s t1 grid1_simps c_def)
  define buf where "buf = \<lparr>shape = [m, 2], dtype = field_dtype u, elem = (\<lambda>idx. 0::complex)\<rparr>"
  define s1 where "s1 = ?s\<lparr>priv_transfer_function := Some c, internal_array := Some buf\<rparr>"
  have cf: "FourierFilter_compute_functions ?s u = Inr s1"
    by (simp add: FourierFilter_compute_functions_def s ctf recompute_internal_array_def
          zeros_shaped_def igrid2_simps tsh buf_def s1_def)
  have s1: "input_grid s1 = grid1" "internal_grid s1 = igrid2" "cutout s1 = Some [(1, 2)]"
     "priv_transfer_function s1 = Some c" "internal_array s1 = Some buf"
    by (simp_all add: s1_def s)
  obtain f0 where f0: "shaped u = Inr f0" "shape f0 = [m, 1]"
    using u by (simp add: shaped_def grid1_simps reshape_def tsh)
  obtain f1 where f1: "setitem (buf\<lparr>elem := (\<lambda>idx. 0)\<rparr>) (cutout_slices 1 [(1, 2)]) f0 = Inr f1"
      "shape f1 = [m, 2]" "dtype f1 = field_dtype u"
    by (simp add: setitem_def buf_def cutout_slices_def sliced_shape_def pad_slices_def slice_len_def
          f0 broadcastable_def)
  obtain f2 where f2: "fftn f1 (last_axes 1) = Inr f2" "shape f2 = [m, 2]"
    using f1(2) by (simp add: fftn_def last_axes_def fft1_def normalize_axis_def dft_axis_def)
  obtain f3 where f3: "apply_transfer_function igrid2 c f2 adj = Inr f3" "shape f3 = [m, 2]"
    using f2(2) c by (cases adj) (simp_all add: apply_transfer_function_def igrid2_simps imul_def broadcastable_def conj_def)
  obtain f4 where f4: "ifftn f3 (last_axes 1) = Inr f4" "shape f4 = [m, 2]"
    using f3(2) by (simp add: ifftn_def last_axes_def fft1_def normalize_axis_def dft_axis_def)
  obtain f5 where f5: "getitem f4 (cutout_slices 1 [(1, 2)]) = Inr f5" "shape f5 = [m, 1]"
    using f4(2) by (simp add: getitem_def cutout_slices_def sliced_shape_def pad_slices_def slice_len_def)
  obtain f6 where f6: "reshape_infer (shape_lead 1 (shape f4)) f5 = Inr f6" "shape f6 = [m, 1]"
    using f4(2) f5(2) u(3) by (simp add: reshape_infer_def shape_lead_def reshape_def)
  have "FourierFilter_operation ?s u adj = Inr (Field f6 grid1, s1\<lparr>internal_array := Some f1\<rparr>)"
    using f1 f2 f3 f4 f5 f6
    by (simp add: FourierFilter_operation_def cf f0 s1 tsh grid1_simps igrid2_simps)
  then show ?thesis using s1 c f1 f6 by (simp add: Field_def)
qed

lemma padded_second_call:
  assumes s1: "input_grid s1 = grid1" "internal_grid s1 = igrid2" "cutout s1 = Some [(1, 2)]"
      "priv_transfer_function s1 = Some c" "shape c = [2]" "dtype c = field_dtype u"
      "internal_array s1 = Some buf" "shape buf = [2, 2]" "dtype buf = field_dtype u"
    and u: "grid u = grid1" "shape (data u) = [m, 1]"
  shows "m = 2 \<Longrightarrow> recompute_internal_array s1 u"
    and "m \<noteq> 2 \<Longrightarrow> \<not> recompute_internal_array s1 u"
    and "m = 3 \<Longrightarrow> FourierFilter_operation s1 u adj = Inl ValueError"
    and "m = 1 \<Longrightarrow> \<exists>r s2. FourierFilter_operation s1 u adj = Inr (r, s2) \<and> shape (data r) = [2, 1]"
proof -
  have tsh: "tensor_shape u = [m]" "tensor_order u = 1"
    using u by (simp_all add: tensor_shape_def tensor_order_def)
  show "m = 2 \<Longrightarrow> recompute_internal_array s1 u"
    by (simp add: recompute_internal_array_def s1 tsh u grid1_simps)
  show nr: "m \<noteq> 2 \<Longrightarrow> \<not> recompute_internal_array s1 u"
    by (simp add: recompute_internal_array_def s1 tsh u grid1_simps)
  have cf: "m \<noteq> 2 \<Longrightarrow> FourierFilter_compute_functions s1 u = Inr s1"
    using nr by (simp add: FourierFilter_compute_functions_def s1)
  have f0: "\<exists>f0. shaped u = Inr f0 \<and> shape f0 = [m, 1]"
    using u by (simp add: shaped_def grid1_simps reshape_def tsh)
  show "FourierFilter_operation s1 u adj = Inl ValueError" if m3: "m = 3"
  proof -
    obtain f0 where f0: "shaped u = Inr f0" "shape f0 = [m, 1]" using f0 m3 by auto
    have "setitem (buf\<lparr>elem := (\<lambda>idx. 0)\<rparr>) (cutout_slices 1 [(1, 2)]) f0 = Inl ValueError"
      using m3 by (simp add: setitem_def s1 cutout_slices_def sliced_shape_def pad_slices_def slice_len_def
          f0 broadcastable_def)
    then show ?thesis using cf m3
      by (simp add: FourierFilter_operation_def f0 s1 tsh)
  qed
  show "\<exists>r s2. FourierFilter_operation s1 u adj = Inr (r, s2) \<and> shape (data r) = [2, 1]" if m1: "m = 1"
  proof -
    obtain f0 where f0: "shaped u = Inr f0" "shape f0 = [1, 1]" using f0 m1 by auto
    obtain f1 where f1: "setitem (buf\<lparr>elem := (\<lambda>idx. 0)\<rparr>) (cutout_slices 1 [(1, 2)]) f0 = Inr f1"
      "shape f1 = [2, 2]"
      by (simp add: setitem_def s1 cutout_slices_def sliced_shape_def pad_slices_def slice_len_def
          f0 broadcastable_def)
    obtain f2 where f2: "fftn f1 (last_axes 1) = Inr f2" "shape f2 = [2, 2]"
      using f1(2) by (simp add: fftn_def last_axes_def fft1_def normalize_axis_def dft_axis_def)
    obtain f3 where f3: "apply_transfer_function igrid2 c f2 adj = Inr f3" "shape f3 = [2, 2]"
      using f2(2) s1 by (cases adj) (simp_all add: apply_transfer_function_def igrid2_simps imul_def broadcastable_def conj_def)
    obtain f4 where f4: "ifftn f3 (last_axes 1) = Inr f4" "shape f4 = [2, 2]"
      using f3(2) by (simp add: ifftn_def last_axes_def fft1_def normalize_axis_def dft_axis_def)
    obtain f5 where f5: "getitem f4 (cutout_slices 1 [(1, 2)]) = Inr f5" "shape f5 = [2, 1]"
      using f4(2) by (simp add: getitem_def cutout_slices_def sliced_shape_def pad_slices_def slice_len_def)
    obtain f6 where f6: "reshape_infer (shape_lead 1 (shape f4)) f5 = Inr f6" "shape f6 = [2, 1]"
      using f4(2) f5(2) by (simp add: reshape_infer_def shape_lead_def reshape_def)
    have "FourierFilter_operation s1 u adj = Inr (Field f6 grid1, s1\<lparr>internal_array := Some f1\<rparr>)"
      using f1 f2 f3 f4 f5 f6 cf m1
      by (simp add: FourierFilter_operation_def f0 s1 tsh grid1_simps igrid2_simps)
    then show ?thesis using f6 by (simp add: Field_def)
  qed
qed

lemma compute_functions_frame:
  assumes "FourierFilter_compute_functions s u = Inr s'"
  shows "input_grid s' = input_grid s" "internal_grid s' = internal_grid s" "cutout s' = cutout s"
    "transfer_function s' = transfer_function s" "shape_in s' = shape_in s"
  using assms
  by (auto simp: FourierFilter_compute_functions_def bindE_eq_Inr split: if_splits)

lemma unpadded_compute_fresh:
  assumes s: "internal_grid s = igrid1" "input_grid s = grid1" "transfer_function s = Precomputed tfld"
    and tfld: "grid tfld = igrid1" "shape (data tfld) = [1]"
    and nc: "priv_transfer_function s = None \<or> dtype (the (priv_transfer_function s)) \<noteq> field_dtype u"
  shows "\<exists>s' c. FourierFilter_compute_functions s u = Inr s' \<and> priv_transfer_function s' = Some c
           \<and> shape c = [1] \<and> dtype c = field_dtype u
           \<and> elem c [0] = (if is_complex_dtype (field_dtype u) then elem (data tfld) [0]
                           else complex_of_real (Re (elem (data tfld) [0])))"
proof -
  have tsh: "tensor_shape tfld = []" using tfld by (simp add: tensor_shape_def)
  obtain t1 where t1: "shaped tfld = Inr t1" "shape t1 = [1]" "elem t1 [0] = elem (data tfld) [0]"
    using tfld by (simp add: shaped_def igrid1_simps reshape_def tsh)
  obtain t2 where t2: "ifftshift t1 (last_axes 1) = Inr t2" "shape t2 = [1]" "elem t2 [0] = elem t1 [0]"
    using t1(2) by (simp add: last_axes_def normalize_axis_def ifftshift_axis_def)
  define c where "c = astype (field_dtype u) t2"
  have c: "shape c = [1]" "dtype c = field_dtype u"
    "elem c [0] = (if is_complex_dtype (field_dtype u) then elem (data tfld) [0]
                           else complex_of_real (Re (elem (data tfld) [0])))"
    by (simp_all add: c_def t2 t1 astype_def)
  have ctf: "compute_transfer_function s u = Inr c"
    using t2 by (simp add: compute_transfer_function_def s t1 grid1_simps c_def)
  show ?thesis
    using nc c
    by (auto simp add: FourierFilter_compute_functions_def ctf zeros_shaped_def s igrid1_simps)
qed

lemma unpadded_compute_cached:
  assumes s: "internal_grid s = igrid1"
    and c: "priv_transfer_function s = Some c" "dtype c = field_dtype u"
  shows "\<exists>s'. FourierFilter_compute_functions s u = Inr s' \<and> priv_transfer_function s' = Some c"
  using c by (auto simp add: FourierFilter_compute_functions_def zeros_shaped_def s igrid1_simps)

lemma unpadded_operation:
  assumes cf: "FourierFilter_compute_functions s u = Inr s'"
    and s: "input_grid s = grid1" "internal_grid s = igrid1" "cutout s = None"
    and c: "priv_transfer_function s' = Some c" "shape c = [1]"
    and u: "grid u = grid1" "shape (data u) = [1]"
  shows "\<exists>r. FourierFilter_operation s u adj = Inr (r, s') \<and> shape (data r) = [1] \<and> grid r = grid1
           \<and> elem (data r) [0] = elem (data u) [0] * (if adj then cnj (elem c [0]) else elem c [0])"
proof -
  note s' = compute_functions_frame [OF cf, unfolded s]
  have tsh: "tensor_shape u = []" "tensor_order u = 0"
    using u by (simp_all add: tensor_shape_def tensor_order_def)
  obtain f0 where f0: "shaped u = Inr f0" "shape f0 = [1]" "elem f0 [0] = elem (data u) [0]"
    using u by (simp add: shaped_def grid1_simps reshape_def tsh)
  obtain f2 where f2: "fftn f0 (last_axes 1) = Inr f2" "shape f2 = [1]" "elem f2 [0] = elem f0 [0]"
    using f0(2) by (simp add: fftn_def last_axes_def fft1_def normalize_axis_def dft_axis_def dft_kernel_def)
  obtain f3 where f3: "apply_transfer_function igrid1 c f2 adj = Inr f3" "shape f3 = [1]"
      "elem f3 [0] = elem f2 [0] * (if adj then cnj (elem c [0]) else elem c [0])"
    using f2(2) c by (cases adj) (simp_all add: apply_transfer_function_def igrid1_simps imul_def
        broadcastable_def broadcast_index_def)
  obtain f4 where f4: "ifftn f3 (last_axes 1) = Inr f4" "shape f4 = [1]" "elem f4 [0] = elem f3 [0]"
    using f3(2) by (simp add: ifftn_def last_axes_def fft1_def normalize_axis_def dft_axis_def dft_kernel_def)
  obtain f6 where f6: "reshape_infer (shape_lead 1 (shape f4)) f4 = Inr f6" "shape f6 = [1]"
      "elem f6 [0] = elem f4 [0]"
    using f4(2) by (simp add: reshape_infer_def shape_lead_def reshape_def)
  have "FourierFilter_operation s u adj = Inr (Field f6 grid1, s')"
    using f2 f3 f4 f6
    by (simp add: FourierFilter_operation_def cf f0 s' c tsh grid1_simps igrid1_simps)
  then show ?thesis using f6 f4 f3 f2 f0 by (simp add: Field_def)
qed

lemma set_transfer_function_simps [simp]:
  "input_grid (set_transfer_function tf s) = input_grid s"
  "internal_grid (set_transfer_function tf s) = internal_grid s"
  "cutout (set_transfer_function tf s) = cutout s"
  "priv_transfer_function (set_transfer_function tf s) = priv_transfer_function s"
  "internal_array (set_transfer_function tf s) = internal_array s"
  "transfer_function (set_transfer_function tf s) = tf"
  by (simp_all add: set_transfer_function_def)

lemma recompute_internal_array_cong:
  "internal_array s = internal_array t \<Longrightarrow> recompute_internal_array s u = recompute_internal_array t u"
  by (simp add: recompute_internal_array_def)

lemma compute_functions_cached_reassigned:
  assumes "priv_transfer_function s = Some c" "dtype c = field_dtype u"
  shows "FourierFilter_compute_functions (set_transfer_function tf s) u =
           bindE (FourierFilter_compute_functions s u) (\<lambda>s'. Inr (set_transfer_function tf s'))"
  using assms
  by (simp add: FourierFilter_compute_functions_def
        recompute_internal_array_cong [of "set_transfer_function tf s" s] bindE_def
        split: sum.splits)
     (simp add: set_transfer_function_def)

text \<open>
  Claim C4, as amended. Assigning a new transfer function does not invalidate the cached
  one. While a cached transfer function of the dtype of the field is present, forward
  and backward return what they return without the assignment, from the cached transfer
  function. The assigned transfer function is read only when nothing is cached or the
  dtype of the field differs from the dtype of the cached transfer function: then the
  call does what it does on a filter without a cached transfer function.
\<close>

theorem reassigned_transfer_function_cached:
  "(priv_transfer_function s = Some c \<and> dtype c = field_dtype u \<longrightarrow>
      FourierFilter_operation (set_transfer_function tf s) u adj =
        bindE (FourierFilter_operation s u adj) (\<lambda>(r, s'). Inr (r, set_transfer_function tf s')))
   \<and> (priv_transfer_function s = None \<or> dtype (the (priv_transfer_function s)) \<noteq> field_dtype u \<longrightarrow>
      FourierFilter_operation (set_transfer_function tf s) u adj =
        FourierFilter_operation (set_transfer_function tf (s\<lparr>priv_transfer_function := None\<rparr>)) u adj)"
proof (intro conjI impI)
  assume a: "priv_transfer_function s = Some c \<and> dtype c = field_dtype u"
  show "FourierFilter_operation (set_transfer_function tf s) u adj =
        bindE (FourierFilter_operation s u adj) (\<lambda>(r, s'). Inr (r, set_transfer_function tf s'))"
    unfolding FourierFilter_operation_def
      compute_functions_cached_reassigned [of s c u tf, OF conjunct1 [OF a] conjunct2 [OF a]]
    by (auto simp: bindE_def set_transfer_function_def split: sum.splits option.splits prod.splits)
next
  assume a: "priv_transfer_function s = None \<or> dtype (the (priv_transfer_function s)) \<noteq> field_dtype u"
  let ?t = "set_transfer_function tf (s\<lparr>priv_transfer_function := None\<rparr>)"
  have ctf: "compute_transfer_function (set_transfer_function tf s) u = compute_transfer_function ?t u"
    by (cases tf) (simp_all add: compute_transfer_function_def set_transfer_function_def)
  have st: "(set_transfer_function tf s)\<lparr>priv_transfer_function := Some x\<rparr> = ?t\<lparr>priv_transfer_function := Some x\<rparr>" for x
    by (simp add: set_transfer_function_def)
  have "FourierFilter_compute_functions (set_transfer_function tf s) u =
        FourierFilter_compute_functions ?t u"
    using a by (cases "compute_transfer_function ?t u")
      (auto simp: FourierFilter_compute_functions_def ctf st)
  then show "FourierFilter_operation (set_transfer_function tf s) u adj =
        FourierFilter_operation (set_transfer_function tf (s\<lparr>priv_transfer_function := None\<rparr>)) u adj"
    by (simp add: FourierFilter_operation_def)
qed


lemma const_field_grid1_shape [simp]:
  "shape (data (const_field grid1 d c)) = [1]" "shape (data (const_field igrid1 d c)) = [1]"
  by (simp_all add: grid1_simps igrid1_simps)

lemma unpadded_filter_simps [simp]:
  "input_grid (unpadded_filter tf) = grid1" "internal_grid (unpadded_filter tf) = igrid1"
  "cutout (unpadded_filter tf) = None" "transfer_function (unpadded_filter tf) = tf"
  "priv_transfer_function (unpadded_filter tf) = None" "internal_array (unpadded_filter tf) = None"
  by (simp_all add: unpadded_filter_def)

lemma unpadded_first_call:
  assumes u: "grid u = grid1" "shape (data u) = [1]"
  shows "\<exists>r s' c. FourierFilter_operation (unpadded_filter (Precomputed (const_field igrid1 d x))) u adj = Inr (r, s')
      \<and> input_grid s' = grid1 \<and> internal_grid s' = igrid1 \<and> cutout s' = None
      \<and> priv_transfer_function s' = Some c \<and> shape c = [1] \<and> dtype c = field_dtype u
      \<and> elem c [0] = (if is_complex_dtype (field_dtype u) then x else complex_of_real (Re x))
      \<and> shape (data r) = [1] \<and> grid r = grid1
      \<and> elem (data r) [0] = elem (data u) [0] * (if adj then cnj (elem c [0]) else elem c [0])"
proof -
  let ?s = "unpadded_filter (Precomputed (const_field igrid1 d x))"
  obtain s' c where cf: "FourierFilter_compute_functions ?s u = Inr s'"
      and c: "priv_transfer_function s' = Some c" "shape c = [1]" "dtype c = field_dtype u"
         "elem c [0] = (if is_complex_dtype (field_dtype u) then x else complex_of_real (Re x))"
    using unpadded_compute_fresh [of ?s "const_field igrid1 d x" u] by (auto simp: igrid1_simps)
  have fr: "input_grid s' = grid1" "internal_grid s' = igrid1" "cutout s' = None"
    using compute_functions_frame [OF cf] by simp_all
  obtain r where r: "FourierFilter_operation ?s u adj = Inr (r, s')" "shape (data r) = [1]"
      "grid r = grid1"
      "elem (data r) [0] = elem (data u) [0] * (if adj then cnj (elem c [0]) else elem c [0])"
    using unpadded_operation [OF cf _ _ _ c(1,2) u, of adj] by auto
  show ?thesis using r fr c by blast
qed

lemma unpadded_cached_call:
  assumes s: "input_grid s = grid1" "internal_grid s = igrid1" "cutout s = None"
      "priv_transfer_function s = Some c" "shape c = [1]" "dtype c = field_dtype u"
    and u: "grid u = grid1" "shape (data u) = [1]"
  shows "\<exists>r s'. FourierFilter_operation s u adj = Inr (r, s')
      \<and> elem (data r) [0] = elem (data u) [0] * (if adj then cnj (elem c [0]) else elem c [0])"
proof -
  obtain s' where cf: "FourierFilter_compute_functions s u = Inr s'"
      and c: "priv_transfer_function s' = Some c"
    using unpadded_compute_cached [OF s(2,4,6)] by auto
  from unpadded_operation [OF cf s(1,2,3) c s(5) u, of adj]
  show ?thesis by auto
qed

lemma returned_simps [simp]: "returned (Inr (r, s)) = r" "state_after (Inr (r, s)) = s"
  by (simp_all add: returned_def state_after_def)

text \<open>
  A filter of the transfer function 2 is applied to the field of the sample 1, the
  transfer function 3 is assigned, and the filter is applied again: the result is still
  2, while a filter of the transfer function 3 gives 3.
\<close>

theorem reassigned_transfer_function_counterexample:
  "elem (data (returned (FourierFilter_forward
      (set_transfer_function (Precomputed (const_field igrid1 complex128 3))
         (state_after (FourierFilter_forward (unpadded_filter (Precomputed (const_field igrid1 complex128 2)))
                         (const_field grid1 complex128 1))))
      (const_field grid1 complex128 1)))) [0] = 2
   \<and> elem (data (returned (FourierFilter_forward
      (unpadded_filter (Precomputed (const_field igrid1 complex128 3)))
      (const_field grid1 complex128 1)))) [0] = 3"
proof -
  let ?u = "const_field grid1 complex128 1"
  let ?A = "Precomputed (const_field igrid1 complex128 2)"
  let ?B = "Precomputed (const_field igrid1 complex128 3)"
  obtain r1 s1 c where 1: "FourierFilter_forward (unpadded_filter ?A) ?u = Inr (r1, s1)"
     and s1: "input_grid s1 = grid1" "internal_grid s1 = igrid1" "cutout s1 = None"
      "priv_transfer_function s1 = Some c" "shape c = [1]" "dtype c = field_dtype ?u" "elem c [0] = 2"
    using unpadded_first_call [of ?u complex128 2 False]
    by (auto simp: FourierFilter_forward_def is_complex_dtype_def grid1_simps igrid1_simps)
  obtain r2 s2 where 2: "FourierFilter_forward (set_transfer_function ?B s1) ?u = Inr (r2, s2)"
     and r2: "elem (data r2) [0] = 2"
    using unpadded_cached_call [of "set_transfer_function ?B s1" c ?u False] s1
    by (auto simp: FourierFilter_forward_def grid1_simps igrid1_simps)
  obtain r3 s3 where 3: "FourierFilter_forward (unpadded_filter ?B) ?u = Inr (r3, s3)"
     and r3: "elem (data r3) [0] = 3"
    using unpadded_first_call [of ?u complex128 3 False]
    by (auto simp: FourierFilter_forward_def is_complex_dtype_def grid1_simps igrid1_simps)
  show ?thesis by (simp add: 1 2 3 r2 r3)
qed

lemma unpadded_fresh_call:
  assumes s: "input_grid s = grid1" "internal_grid s = igrid1" "cutout s = None"
      "transfer_function s = Precomputed (const_field igrid1 d x)"
    and nc: "priv_transfer_function s = None \<or> dtype (the (priv_transfer_function s)) \<noteq> field_dtype u"
    and u: "grid u = grid1" "shape (data u) = [1]"
  shows "\<exists>r s' c. FourierFilter_operation s u adj = Inr (r, s')
      \<and> input_grid s' = grid1 \<and> internal_grid s' = igrid1 \<and> cutout s' = None
      \<and> transfer_function s' = transfer_function s
      \<and> priv_transfer_function s' = Some c \<and> shape c = [1] \<and> dtype c = field_dtype u
      \<and> elem c [0] = (if is_complex_dtype (field_dtype u) then x else complex_of_real (Re x))
      \<and> shape (data r) = [1] \<and> grid r = grid1
      \<and> elem (data r) [0] = elem (data u) [0] * (if adj then cnj (elem c [0]) else elem c [0])"
proof -
  obtain s' c where cf: "FourierFilter_compute_functions s u = Inr s'"
      and c: "priv_transfer_function s' = Some c" "shape c = [1]" "dtype c = field_dtype u"
         "elem c [0] = (if is_complex_dtype (field_dtype u) then x else complex_of_real (Re x))"
    using unpadded_compute_fresh [OF s(2,1,4) _ _ nc] by (auto simp: igrid1_simps)
  have fr: "input_grid s' = grid1" "internal_grid s' = igrid1" "cutout s' = None"
     "transfer_function s' = transfer_function s"
    using compute_functions_frame [OF cf] s by simp_all
  obtain r where r: "FourierFilter_operation s u adj = Inr (r, s')" "shape (data r) = [1]"
      "grid r = grid1"
      "elem (data r) [0] = elem (data u) [0] * (if adj then cnj (elem c [0]) else elem c [0])"
    using unpadded_operation [OF cf s(1,2,3) c(1,2) u, of adj] by auto
  show ?thesis using r fr c by blast
qed

lemma field_inner_single:
  "shape (data a) = [1] \<Longrightarrow> field_inner a b = elem (data a) [0] * cnj (elem (data b) [0])"
  by (simp add: field_inner_def array_inner_def)

text \<open>
  The transfer function \<open>\<i>\<close> on the grid of one sample, a field \<open>u\<close> of dtype
  float64 and a field \<open>v\<close> of dtype complex128: forward casts the transfer function to
  float64, which discards it, and backward computes it anew for complex128. The inner
  products of claim C1 are 0 and \<open>\<i>\<close>.
\<close>

theorem adjoint_dtype_counterexample:
  "field_inner (returned (FourierFilter_forward (unpadded_filter (Precomputed (const_field igrid1 complex128 \<i>)))
                            (const_field grid1 float64 1)))
               (const_field grid1 complex128 1) = 0
   \<and> field_inner (const_field grid1 float64 1)
        (returned (FourierFilter_backward
           (state_after (FourierFilter_forward (unpadded_filter (Precomputed (const_field igrid1 complex128 \<i>)))
                           (const_field grid1 float64 1)))
           (const_field grid1 complex128 1))) = \<i>"
proof -
  let ?F = "unpadded_filter (Precomputed (const_field igrid1 complex128 \<i>))"
  let ?u = "const_field grid1 float64 1"
  let ?v = "const_field grid1 complex128 1"
  obtain r1 s1 c where 1: "FourierFilter_forward ?F ?u = Inr (r1, s1)"
     and s1: "input_grid s1 = grid1" "internal_grid s1 = igrid1" "cutout s1 = None"
      "transfer_function s1 = Precomputed (const_field igrid1 complex128 \<i>)"
      "priv_transfer_function s1 = Some c" "dtype c = float64"
     and r1: "shape (data r1) = [1]" "elem (data r1) [0] = 0"
    using unpadded_fresh_call [of ?F complex128 \<i> ?u False]
    by (auto simp: FourierFilter_forward_def is_complex_dtype_def grid1_simps igrid1_simps)
  obtain r2 s2 where 2: "FourierFilter_backward s1 ?v = Inr (r2, s2)"
     and r2: "shape (data r2) = [1]" "elem (data r2) [0] = - \<i>"
    using unpadded_fresh_call [of s1 complex128 \<i> ?v True] s1
    by (auto simp: FourierFilter_backward_def is_complex_dtype_def grid1_simps igrid1_simps)
  show ?thesis
    by (simp add: 1 2 field_inner_single r1 r2 grid1_simps)
qed

lemma used_unpadded_filter_cached:
  "\<exists>c. priv_transfer_function used_unpadded_filter = Some c \<and> dtype c = complex128"
proof -
  obtain r1 s1 c where "FourierFilter_forward (unpadded_filter (Precomputed (const_field igrid1 complex128 2)))
                    (const_field grid1 complex128 1) = Inr (r1, s1)"
      "priv_transfer_function s1 = Some c" "dtype c = complex128"
    using unpadded_fresh_call [of "unpadded_filter (Precomputed (const_field igrid1 complex128 2))"
        complex128 2 "const_field grid1 complex128 1" False]
    by (auto simp: FourierFilter_forward_def grid1_simps igrid1_simps)
  then show ?thesis by (simp add: used_unpadded_filter_def)
qed

theorem reassigned_transfer_function_cached_witness:
  "priv_transfer_function used_unpadded_filter \<noteq> None
   \<and> dtype (the (priv_transfer_function used_unpadded_filter)) = field_dtype (const_field grid1 complex128 1)
   \<and> FourierFilter_operation
        (set_transfer_function (Precomputed (const_field igrid1 complex128 3)) used_unpadded_filter)
        (const_field grid1 complex128 1) False =
      bindE (FourierFilter_operation used_unpadded_filter (const_field grid1 complex128 1) False)
        (\<lambda>(r, s'). Inr (r, set_transfer_function (Precomputed (const_field igrid1 complex128 3)) s'))
   \<and> priv_transfer_function (unpadded_filter (Precomputed (const_field igrid1 complex128 2))) = None
   \<and> FourierFilter_operation
        (set_transfer_function (Precomputed (const_field igrid1 complex128 3))
           (unpadded_filter (Precomputed (const_field igrid1 complex128 2))))
        (const_field grid1 complex128 1) False =
      FourierFilter_operation
        (set_transfer_function (Precomputed (const_field igrid1 complex128 3))
           ((unpadded_filter (Precomputed (const_field igrid1 complex128 2)))\<lparr>priv_transfer_function := None\<rparr>))
        (const_field grid1 complex128 1) False"
proof -
  obtain c where c: "priv_transfer_function used_unpadded_filter = Some c" "dtype c = complex128"
    using used_unpadded_filter_cached by blast
  show ?thesis
    using reassigned_transfer_function_cached [of used_unpadded_filter c "const_field grid1 complex128 1"
        "Precomputed (const_field igrid1 complex128 3)" False]
      reassigned_transfer_function_cached [of "unpadded_filter (Precomputed (const_field igrid1 complex128 2))"
        c "const_field grid1 complex128 1" "Precomputed (const_field igrid1 complex128 3)" False]
    by (simp add: c)
qed

lemma padded_filter_simps [simp]:
  "input_grid (padded_filter tf) = grid1" "internal_grid (padded_filter tf) = igrid2"
  "cutout (padded_filter tf) = Some [(1, 2)]" "transfer_function (padded_filter tf) = tf"
  "priv_transfer_function (padded_filter tf) = None" "internal_array (padded_filter tf) = None"
  by (simp_all add: padded_filter_def)

text \<open>
  Claim C3, at inputs where it fails. The padded filter has been applied to a field of
  vectors of two components, and its scratch buffer has the shape \<open>(2, 2)\<close>. For a
  field of the same tensor shape the buffer is allocated anew, although it matches. For
  a field of vectors of three components (same tensor order and dtype) the buffer is
  kept, and the call raises when the field is copied into it. For a field of vectors of
  one component the buffer is kept as well, and the result has two components.
\<close>

theorem scratch_buffer_test_inverted:
  "FourierFilter_init sample_env grid1 (Precomputed (const_field igrid2 complex128 1)) 2 = Inr unit_padded_filter
   \<and> shape (the (internal_array used_padded_filter)) = [2, 2]
   \<and> recompute_internal_array used_padded_filter (const_vector_field grid1 2 complex128 1)
   \<and> \<not> recompute_internal_array used_padded_filter (const_vector_field grid1 3 complex128 1)
   \<and> FourierFilter_forward used_padded_filter (const_vector_field grid1 3 complex128 1) = Inl ValueError
   \<and> shape (data (const_vector_field grid1 1 complex128 1)) = [1, 1]
   \<and> shape (data (returned (FourierFilter_forward used_padded_filter
                                (const_vector_field grid1 1 complex128 1)))) = [2, 1]"
proof -
  let ?v = "\<lambda>m. const_vector_field grid1 m complex128 1"
  obtain r s1 c buf where 1: "FourierFilter_forward unit_padded_filter (?v 2) = Inr (r, s1)"
    and s1: "input_grid s1 = grid1" "internal_grid s1 = igrid2" "cutout s1 = Some [(1, 2)]"
      "priv_transfer_function s1 = Some c" "shape c = [2]" "dtype c = complex128"
      "internal_array s1 = Some buf" "shape buf = [2, 2]" "dtype buf = complex128"
    using padded_first_call [of "const_field igrid2 complex128 1" "?v 2" 2 False]
    by (auto simp: FourierFilter_forward_def unit_padded_filter_def grid1_simps igrid2_simps)
  have u: "used_padded_filter = s1" by (simp add: used_padded_filter_def 1)
  have sh: "shape (data (?v m)) = [m, 1]" for m by (simp add: grid1_simps)
  note second = padded_second_call [of s1 c "?v m" buf m for m, OF s1(1-5) _ s1(7,8) _ _ sh, simplified, OF s1(6) s1(9)]
  obtain r3 s3 where 3: "FourierFilter_forward s1 (?v 1) = Inr (r3, s3)" "shape (data r3) = [2, 1]"
    using second(4) [of 1 False] by (auto simp: FourierFilter_forward_def)
  show ?thesis
    using second(1) [of 2] second(2) [of 3] second(3) [of 3 False] 3
    by (simp add: u init_padded unit_padded_filter_def s1 FourierFilter_forward_def grid1_simps)
qed

subsection \<open>The rotation\<close>

lemma shear_filter11:
  assumes "sd = 0 \<or> sd = 1"
  shows "\<exists>flt. shear_filter sample_env grid11 sd a = Inr flt \<and> shape flt = [1, 1]"
  using assms
  by (auto simp: shear_filter_def sample_env_def grid11_simps sample_fft_grid_def
        all_separated_coords_def upt2 py_index_def separated_coords_def fourier_dim_def
        shear_phase_def transpose_array_def ifftshift_list_def grid11_def)

lemma shear_init11:
  assumes "sd = 0 \<or> sd = 1"
  shows "\<exists>s. FourierShear_init sample_env grid11 a sd = Inr s \<and> shear_dim s = sd
           \<and> shear_input_grid s = grid11 \<and> shape (priv_filter s) = [1, 1]"
  using shear_filter11 [OF assms, of a]
  by (auto simp: FourierShear_init_def grid11_simps)

lemma set_shear11:
  assumes "shear_input_grid s = grid11" "shear_dim s = 0 \<or> shear_dim s = 1"
  shows "\<exists>s'. FourierShear_set_shear sample_env s a = Inr s' \<and> shear_dim s' = shear_dim s
           \<and> shape (priv_filter s') = [1, 1]"
  using shear_filter11 [OF assms(2), of a]
  by (auto simp: FourierShear_set_shear_def assms(1))

lemma rotation_init11:
  "\<exists>r. FourierRotation_init sample_env grid11 a = Inr r
       \<and> shear_dim (priv_shear_x r) = 0 \<and> shape (priv_filter (priv_shear_x r)) = [1, 1]
       \<and> shear_dim (priv_shear_y r) = 1 \<and> shape (priv_filter (priv_shear_y r)) = [1, 1]"
proof -
  obtain sx where sx: "FourierShear_init sample_env grid11 0 0 = Inr sx" "shear_dim sx = 0"
      "shear_input_grid sx = grid11"
    using shear_init11 [of 0 0] by auto
  obtain sy where sy: "FourierShear_init sample_env grid11 0 1 = Inr sy" "shear_dim sy = 1"
      "shear_input_grid sy = grid11"
    using shear_init11 [of 1 0] by auto
  obtain sx' where sx': "FourierShear_set_shear sample_env sx (tan (a / 2)) = Inr sx'"
      "shear_dim sx' = 0" "shape (priv_filter sx') = [1, 1]"
    using set_shear11 [of sx "tan (a / 2)"] sx by auto
  obtain sy' where sy': "FourierShear_set_shear sample_env sy (- sin a) = Inr sy'"
      "shear_dim sy' = 1" "shape (priv_filter sy') = [1, 1]"
    using set_shear11 [of sy "- sin a"] sy by auto
  show ?thesis
    by (simp add: FourierRotation_init_def grid11_simps sx sy FourierRotation_set_angle_def sx' sy')
qed

lemma shear_operation11:
  assumes s: "shape (priv_filter s) = [1, 1]" "shear_dim s = 0 \<or> shear_dim s = 1"
    and u: "grid u = grid11" "shape (data u) = [1]"
  shows "\<exists>r. FourierShear_operation s (FieldV u) adj = Inr r \<and> grid r = grid11 \<and> shape (data r) = [1]"
proof -
  have tsh: "tensor_shape u = []" using u by (simp add: tensor_shape_def)
  obtain f0 where f0: "shaped u = Inr f0" "shape f0 = [1, 1]"
    using u by (simp add: shaped_def grid11_simps reshape_def tsh)
  obtain f1 where f1: "fft f0 (- shear_dim s - 1) = Inr f1" "shape f1 = [1, 1]"
    using s(2) f0(2) by (auto simp: fft_def fft1_def normalize_axis_def dft_axis_def)
  obtain f2 where f2: "imul f1 (if adj then conj (priv_filter s) else priv_filter s) = Inr f2"
      "shape f2 = [1, 1]"
    using s(1) f1(2) by (cases adj) (simp_all add: imul_def broadcastable_def)
  obtain f3 where f3: "ifft f2 (- shear_dim s - 1) = Inr f3" "shape f3 = [1, 1]"
    using s(2) f2(2) by (auto simp: ifft_def fft1_def normalize_axis_def dft_axis_def)
  obtain f4 where f4: "reshape_infer (shape_lead 2 (shape f3)) f3 = Inr f4" "shape f4 = [1]"
    using f3(2) by (simp add: reshape_infer_def shape_lead_def reshape_def)
  show ?thesis
    using f1 f2 f3 f4
    by (simp add: FourierShear_operation_def attr_shaped_def attr_grid_def f0 u grid11_simps Field_def)
qed

lemma rotation_never_field:
  "FourierRotation_operation r x adj \<noteq> Inr (FieldV f)"
  by (auto simp: FourierRotation_operation_def bindE_def split: sum.splits)

lemma rotation_of_tuple:
  "FourierRotation_operation r (TupleV fs) adj = Inl AttributeError"
  by (simp add: FourierRotation_operation_def FourierShear_operation_def attr_shaped_def)

lemma rotation_operation11:
  assumes r: "shear_dim (priv_shear_x r) = 0" "shape (priv_filter (priv_shear_x r)) = [1, 1]"
       "shear_dim (priv_shear_y r) = 1" "shape (priv_filter (priv_shear_y r)) = [1, 1]"
    and u: "grid u = grid11" "shape (data u) = [1]"
  shows "\<exists>f1 f2 f3. FourierRotation_operation r (FieldV u) adj = Inr (TupleV [f1, f2, f3])"
proof -
  obtain f1 where f1: "FourierShear_operation (priv_shear_x r) (FieldV u) adj = Inr f1"
      "grid f1 = grid11" "shape (data f1) = [1]"
    using shear_operation11 [of "priv_shear_x r" u adj] r u by auto
  obtain f2 where f2: "FourierShear_operation (priv_shear_y r) (FieldV f1) adj = Inr f2"
      "grid f2 = grid11" "shape (data f2) = [1]"
    using shear_operation11 [of "priv_shear_y r" f1 adj] r f1 by auto
  obtain f3 where f3: "FourierShear_operation (priv_shear_x r) (FieldV f2) adj = Inr f3"
    using shear_operation11 [of "priv_shear_x r" f2 adj] r f2 by auto
  show ?thesis by (simp add: FourierRotation_operation_def f1 f2 f3)
qed

text \<open>
  Claim C2, where it fails. Forward of a rotation never returns a single field: where it
  returns, the value is the tuple of the three shear stages. Passed to forward of another
  rotation such a tuple raises AttributeError, as a tuple has no shaped view. On the grid
  of one sample the rotation by the angle 1 returns a tuple, and the rotation by the
  angle -1 raises on it.
\<close>

theorem rotation_returns_tuple:
  "FourierRotation_forward r x \<noteq> Inr (FieldV f)
   \<and> FourierRotation_forward r (TupleV fs) = Inl AttributeError
   \<and> (\<exists>r1 r2 f1 f2 f3.
         FourierRotation_init sample_env grid11 1 = Inr r1
       \<and> FourierRotation_init sample_env grid11 (- 1) = Inr r2
       \<and> FourierRotation_forward r1 (FieldV ones11) = Inr (TupleV [f1, f2, f3])
       \<and> FourierRotation_forward r2 (TupleV [f1, f2, f3]) = Inl AttributeError)"
proof -
  obtain r1 where r1: "FourierRotation_init sample_env grid11 1 = Inr r1"
     "shear_dim (priv_shear_x r1) = 0" "shape (priv_filter (priv_shear_x r1)) = [1, 1]"
     "shear_dim (priv_shear_y r1) = 1" "shape (priv_filter (priv_shear_y r1)) = [1, 1]"
    using rotation_init11 [of 1] by auto
  obtain r2 where r2: "FourierRotation_init sample_env grid11 (- 1) = Inr r2"
    using rotation_init11 [of "- 1"] by auto
  obtain f1 f2 f3 where t: "FourierRotation_operation r1 (FieldV ones11) False = Inr (TupleV [f1, f2, f3])"
    using rotation_operation11 [OF r1(2-5) ones11_simps(1,2)] by blast
  show ?thesis
    using r1(1) r2 t
    by (auto simp: FourierRotation_forward_def rotation_never_field rotation_of_tuple)
qed

theorem rotation_returns_tuple_witness:
  "\<exists>r1 f1 f2 f3. FourierRotation_init sample_env grid11 1 = Inr r1
       \<and> FourierRotation_forward r1 (FieldV ones11) = Inr (TupleV [f1, f2, f3])"
  using rotation_returns_tuple by blast

subsection \<open>Backward as the adjoint of forward\<close>

lemma set_indices:
  "set (indices sh) = {idx. length idx = length sh \<and> (\<forall>i<length sh. idx ! i < sh ! i)}"
proof (induction sh)
  case Nil
  then show ?case by simp
next
  case (Cons n sh)
  show ?case
  proof (rule set_eqI)
    fix idx
    show "idx \<in> set (indices (n # sh)) \<longleftrightarrow>
          idx \<in> {idx. length idx = length (n # sh) \<and> (\<forall>i<length (n # sh). idx ! i < (n # sh) ! i)}"
    proof (cases idx)
      case Nil
      then show ?thesis by auto
    next
      case (Cons i rest)
      have "(\<forall>k<Suc (length sh). (i # rest) ! k < (n # sh) ! k) \<longleftrightarrow>
            i < n \<and> (\<forall>k<length sh. rest ! k < sh ! k)"
        by (auto simp: nth_Cons split: nat.splits)
      with Cons Cons.IH show ?thesis by auto
    qed
  qed
qed

lemma distinct_indices: "distinct (indices sh)"
proof (induction sh)
  case Nil
  then show ?case by simp
next
  case (Cons n sh)
  let ?xss = "map (\<lambda>i. map ((#) i) (indices sh)) [0..<n]"
  have 1: "distinct (removeAll [] ?xss)"
  proof (cases "indices sh = []")
    case True
    then show ?thesis by (simp add: removeAll_id [symmetric] removeAll_filter_not_eq)
  next
    case False
    then obtain x where "x \<in> set (indices sh)" by (cases "indices sh") auto
    then have "inj (\<lambda>i. map ((#) i) (indices sh))"
      by (auto simp: inj_on_def dest!: map_eq_conv [THEN iffD1, rotated -1])
    then have "distinct ?xss" by (simp add: distinct_map inj_on_def)
    then show ?thesis by (rule distinct_removeAll)
  qed
  have 2: "\<And>ys. ys \<in> set ?xss \<Longrightarrow> distinct ys"
    using Cons by (auto simp: distinct_map inj_on_def)
  have 3: "\<And>ys zs. ys \<in> set ?xss \<Longrightarrow> zs \<in> set ?xss \<Longrightarrow> ys \<noteq> zs \<Longrightarrow> set ys \<inter> set zs = {}"
    by auto
  show ?case
    unfolding indices.simps distinct_concat_iff using 1 2 3 by blast
qed

lemma array_inner_inner_on: "array_inner a b = inner_on (shape a) (elem a) (elem b)"
  by (simp add: array_inner_def inner_on_def sum_list_distinct_conv_sum_set distinct_indices)

lemma indices_Cons_iff [simp]:
  "i # rest \<in> set (indices (n # sh)) \<longleftrightarrow> i < n \<and> rest \<in> set (indices sh)"
  by auto

lemma indices_Cons_cases:
  assumes "idx \<in> set (indices (n # sh))"
  obtains i rest where "idx = i # rest" "i < n" "rest \<in> set (indices sh)"
  using assms by auto

lemma indices_Nil [simp]: "idx \<in> set (indices []) \<longleftrightarrow> idx = []"
  by simp

lemma ravel_bound: "idx \<in> set (indices sh) \<Longrightarrow> ravel sh idx < prod_list sh"
proof (induction sh arbitrary: idx)
  case Nil
  then show ?case by simp
next
  case (Cons n sh)
  from Cons.prems obtain i rest where idx: "idx = i # rest" "i < n" "rest \<in> set (indices sh)"
    by (rule indices_Cons_cases)
  from Cons.IH [OF idx(3)] have r: "ravel sh rest < prod_list sh" .
  have "i * prod_list sh + ravel sh rest < (i + 1) * prod_list sh" using r by simp
  also have "\<dots> \<le> n * prod_list sh" using idx(2) by (intro mult_le_mono1) simp
  finally show ?case by (simp add: idx)
qed

lemma unravel_ravel: "idx \<in> set (indices sh) \<Longrightarrow> unravel sh (ravel sh idx) = idx"
proof (induction sh arbitrary: idx)
  case Nil
  then show ?case by simp
next
  case (Cons n sh)
  from Cons.prems obtain i rest where idx: "idx = i # rest" "i < n" "rest \<in> set (indices sh)"
    by (rule indices_Cons_cases)
  from ravel_bound [OF idx(3)] have r: "ravel sh rest < prod_list sh" .
  show ?case using Cons.IH [OF idx(3)] r by (simp add: idx)
qed

lemma unravel_valid: "k < prod_list sh \<Longrightarrow> unravel sh k \<in> set (indices sh)"
proof (induction sh arbitrary: k)
  case Nil
  then show ?case by simp
next
  case (Cons n sh)
  then have P: "0 < prod_list sh" by (cases "prod_list sh = 0") auto
  have "k div prod_list sh < n"
    using Cons.prems by (simp add: less_mult_imp_div_less mult.commute)
  moreover have "unravel sh (k mod prod_list sh) \<in> set (indices sh)"
    using P by (intro Cons.IH) simp
  ultimately show ?case by (simp del: indices.simps)
qed

lemma ravel_unravel: "k < prod_list sh \<Longrightarrow> ravel sh (unravel sh k) = k"
proof (induction sh arbitrary: k)
  case Nil
  then show ?case by simp
next
  case (Cons n sh)
  then have P: "0 < prod_list sh" by (cases "prod_list sh = 0") auto
  have "ravel sh (unravel sh (k mod prod_list sh)) = k mod prod_list sh"
    using P by (intro Cons.IH) simp
  then show ?case by simp
qed

lemma reshape_sum:
  assumes "prod_list ns = prod_list sh"
  shows "(\<Sum>idx\<in>set (indices ns). g (unravel sh (ravel ns idx)) idx) =
         (\<Sum>idx\<in>set (indices sh). g idx (unravel ns (ravel sh idx)))"
proof (rule sum.reindex_bij_witness [where i = "\<lambda>idx. unravel ns (ravel sh idx)"
        and j = "\<lambda>idx. unravel sh (ravel ns idx)"])
  fix a assume a: "a \<in> set (indices ns)"
  have b: "ravel ns a < prod_list sh" using ravel_bound [OF a] assms by simp
  show "unravel ns (ravel sh (unravel sh (ravel ns a))) = a"
    by (simp add: ravel_unravel [OF b] unravel_ravel [OF a])
  show "unravel sh (ravel ns a) \<in> set (indices sh)" by (rule unravel_valid [OF b])
  show "g (unravel sh (ravel ns a)) (unravel ns (ravel sh (unravel sh (ravel ns a)))) =
        g (unravel sh (ravel ns a)) a"
    by (simp add: ravel_unravel [OF b] unravel_ravel [OF a])
next
  fix b assume a: "b \<in> set (indices sh)"
  have c: "ravel sh b < prod_list ns" using ravel_bound [OF a] assms by simp
  show "unravel sh (ravel ns (unravel ns (ravel sh b))) = b"
    by (simp add: ravel_unravel [OF c] unravel_ravel [OF a])
  show "unravel ns (ravel sh b) \<in> set (indices ns)" by (rule unravel_valid [OF c])
qed

lemma valid_update:
  assumes "idx \<in> set (indices sh)" "ax < length sh" "j < sh ! ax"
  shows "idx[ax := j] \<in> set (indices sh)"
  using assms by (auto simp: set_indices nth_list_update)

lemma valid_nth: "idx \<in> set (indices sh) \<Longrightarrow> ax < length sh \<Longrightarrow> idx ! ax < sh ! ax"
  by (simp add: set_indices)

lemma axis_op_adjoint:
  assumes ax: "ax < length sh" and n: "n = sh ! ax"
  shows "inner_on sh (axis_op K ax n x) y = inner_on sh x (axis_op (\<lambda>j k. cnj (K k j)) ax n y)"
proof -
  let ?I = "set (indices sh)"
  have "inner_on sh (axis_op K ax n x) y =
        (\<Sum>idx\<in>?I. \<Sum>j<n. x (idx[ax := j]) * K j (idx ! ax) * cnj (y idx))"
    by (simp add: inner_on_def axis_op_def sum_distrib_right)
  also have "\<dots> = (\<Sum>(idx, j)\<in>?I \<times> {..<n}. x (idx[ax := j]) * K j (idx ! ax) * cnj (y idx))"
    by (simp add: sum.cartesian_product)
  also have "\<dots> = (\<Sum>(idx, k)\<in>?I \<times> {..<n}. x idx * K (idx ! ax) k * cnj (y (idx[ax := k])))"
  proof (rule sum.reindex_bij_witness [where i = "\<lambda>(idx, k). (idx[ax := k], idx ! ax)"
        and j = "\<lambda>(idx, j). (idx[ax := j], idx ! ax)"])
    fix p assume "p \<in> ?I \<times> {..<n}"
    then obtain idx j where p: "p = (idx, j)" "idx \<in> ?I" "j < n" by auto
    have len: "ax < length idx" using p(2) ax by (simp add: set_indices)
    show "(case case p of (idx, j) \<Rightarrow> (idx[ax := j], idx ! ax) of (idx, k) \<Rightarrow> (idx[ax := k], idx ! ax)) = p"
      using len by (simp add: p)
    show "(case p of (idx, j) \<Rightarrow> (idx[ax := j], idx ! ax)) \<in> ?I \<times> {..<n}"
      using p ax n by (simp add: valid_update valid_nth)
    show "(case case p of (idx, j) \<Rightarrow> (idx[ax := j], idx ! ax) of
            (idx, k) \<Rightarrow> x idx * K (idx ! ax) k * cnj (y (idx[ax := k]))) =
          (case p of (idx, j) \<Rightarrow> x (idx[ax := j]) * K j (idx ! ax) * cnj (y idx))"
      using len by (simp add: p)
  next
    fix p assume "p \<in> ?I \<times> {..<n}"
    then obtain idx j where p: "p = (idx, j)" "idx \<in> ?I" "j < n" by auto
    have len: "ax < length idx" using p(2) ax by (simp add: set_indices)
    show "(case case p of (idx, k) \<Rightarrow> (idx[ax := k], idx ! ax) of (idx, j) \<Rightarrow> (idx[ax := j], idx ! ax)) = p"
      using len by (simp add: p)
    show "(case p of (idx, k) \<Rightarrow> (idx[ax := k], idx ! ax)) \<in> ?I \<times> {..<n}"
      using p ax n by (simp add: valid_update valid_nth)
  qed
  also have "\<dots> = (\<Sum>idx\<in>?I. \<Sum>k<n. x idx * K (idx ! ax) k * cnj (y (idx[ax := k])))"
    by (simp add: sum.cartesian_product)
  also have "\<dots> = inner_on sh x (axis_op (\<lambda>j k. cnj (K k j)) ax n y)"
    by (simp add: inner_on_def axis_op_def sum_distrib_left ac_simps)
  finally show ?thesis .
qed

lemma dft_axis_simps [simp]:
  "shape (dft_axis bw ax a) = shape a"
  "dtype (dft_axis bw ax a) = complex128"
  "elem (dft_axis bw ax a) = axis_op (dft_kernel bw (shape a ! ax)) ax (shape a ! ax) (elem a)"
  by (simp_all add: dft_axis_def axis_op_def fun_eq_iff)

lemma cnj_dft_kernel_forward:
  "n \<noteq> 0 \<Longrightarrow> cnj (dft_kernel False n k j) = of_nat n * dft_kernel True n j k"
  by (simp add: dft_kernel_def cis_cnj mult.commute mult.left_commute)

lemma cnj_dft_kernel_backward:
  "cnj (dft_kernel True n k j) = dft_kernel False n j k / of_nat n"
  by (simp add: dft_kernel_def cis_cnj mult.commute mult.left_commute)

lemma axis_op_scale_kernel: "axis_op (\<lambda>j k. c * K j k) ax n x = (\<lambda>idx. c * axis_op K ax n x idx)"
  by (simp add: axis_op_def fun_eq_iff sum_distrib_left ac_simps)

lemma axis_op_div_kernel: "axis_op (\<lambda>j k. K j k / c) ax n x = (\<lambda>idx. axis_op K ax n x idx / c)"
  by (simp add: axis_op_def fun_eq_iff sum_divide_distrib)

lemma inner_on_scale_right: "inner_on sh x (\<lambda>idx. c * y idx) = cnj c * inner_on sh x y"
  by (simp add: inner_on_def sum_distrib_left ac_simps)

lemma inner_on_div_right: "inner_on sh x (\<lambda>idx. y idx / c) = inner_on sh x y / cnj c"
  by (simp add: inner_on_def sum_divide_distrib)

lemma dft_adjoint:
  assumes "ax < length sh" "sh ! ax \<noteq> 0"
  shows "inner_on sh (axis_op (dft_kernel False (sh ! ax)) ax (sh ! ax) x) y =
         of_nat (sh ! ax) * inner_on sh x (axis_op (dft_kernel True (sh ! ax)) ax (sh ! ax) y)"
  by (simp add: axis_op_adjoint [OF assms(1) refl] cnj_dft_kernel_forward [OF assms(2)]
        axis_op_scale_kernel inner_on_scale_right)

lemma idft_adjoint:
  assumes "ax < length sh"
  shows "inner_on sh (axis_op (dft_kernel True (sh ! ax)) ax (sh ! ax) x) y =
         inner_on sh x (axis_op (dft_kernel False (sh ! ax)) ax (sh ! ax) y) / of_nat (sh ! ax)"
  by (simp add: axis_op_adjoint [OF assms(1) refl] cnj_dft_kernel_backward
        axis_op_div_kernel inner_on_div_right)

lemma sandwich_axis:
  assumes ax: "ax < length sh" "sh ! ax \<noteq> 0"
    and adj: "\<And>x y. inner_on sh (M x) y = inner_on sh x (M' y)"
  shows "inner_on sh (axis_op (dft_kernel True (sh ! ax)) ax (sh ! ax)
                        (M (axis_op (dft_kernel False (sh ! ax)) ax (sh ! ax) x))) y =
         inner_on sh x (axis_op (dft_kernel True (sh ! ax)) ax (sh ! ax)
                        (M' (axis_op (dft_kernel False (sh ! ax)) ax (sh ! ax) y)))"
  using ax(2) by (simp add: idft_adjoint [OF ax(1)] adj dft_adjoint [OF ax])

lemma axis_op_commute:
  "axis_op (dft_kernel bw (sh ! a)) a (sh ! a) (axis_op (dft_kernel bw (sh ! b)) b (sh ! b) x) =
   axis_op (dft_kernel bw (sh ! b)) b (sh ! b) (axis_op (dft_kernel bw (sh ! a)) a (sh ! a) x)"
proof (cases "a = b")
  case True
  then show ?thesis by simp
next
  case False
  show ?thesis
  proof
    fix idx
    have "axis_op (dft_kernel bw (sh ! a)) a (sh ! a) (axis_op (dft_kernel bw (sh ! b)) b (sh ! b) x) idx =
          (\<Sum>j<sh ! a. \<Sum>k<sh ! b. x (idx[a := j, b := k]) * dft_kernel bw (sh ! b) k (idx ! b)
               * dft_kernel bw (sh ! a) j (idx ! a))"
      using False by (simp add: axis_op_def sum_distrib_right)
    also have "\<dots> = (\<Sum>k<sh ! b. \<Sum>j<sh ! a. x (idx[a := j, b := k]) * dft_kernel bw (sh ! b) k (idx ! b)
               * dft_kernel bw (sh ! a) j (idx ! a))"
      by (rule sum.swap)
    also have "\<dots> = axis_op (dft_kernel bw (sh ! b)) b (sh ! b) (axis_op (dft_kernel bw (sh ! a)) a (sh ! a) x) idx"
      using False
      by (simp add: axis_op_def sum_distrib_right list_update_swap [of a b])
         (intro sum.cong refl, simp add: ac_simps)
    finally show "axis_op (dft_kernel bw (sh ! a)) a (sh ! a) (axis_op (dft_kernel bw (sh ! b)) b (sh ! b) x) idx =
      axis_op (dft_kernel bw (sh ! b)) b (sh ! b) (axis_op (dft_kernel bw (sh ! a)) a (sh ! a) x) idx" .
  qed
qed

lemma axes_op_commute:
  "axis_op (dft_kernel bw (sh ! a)) a (sh ! a) (axes_op bw sh axs x) =
   axes_op bw sh axs (axis_op (dft_kernel bw (sh ! a)) a (sh ! a) x)"
  by (induction axs) (simp_all add: axis_op_commute [of bw sh a])

lemma sandwich_axes:
  assumes "\<forall>ax\<in>set axs. ax < length sh \<and> sh ! ax \<noteq> 0"
    and "\<And>x y. inner_on sh (M x) y = inner_on sh x (M' y)"
  shows "inner_on sh (axes_op True sh axs (M (axes_op False sh axs x))) y =
         inner_on sh x (axes_op True sh axs (M' (axes_op False sh axs y)))"
  using assms
proof (induction axs arbitrary: M M')
  case Nil
  then show ?case by simp
next
  case (Cons ax axs)
  let ?D = "axis_op (dft_kernel False (sh ! ax)) ax (sh ! ax)"
  let ?I = "axis_op (dft_kernel True (sh ! ax)) ax (sh ! ax)"
  have ax: "ax < length sh" "sh ! ax \<noteq> 0" using Cons.prems(1) by auto
  have rest: "\<forall>ax\<in>set axs. ax < length sh \<and> sh ! ax \<noteq> 0" using Cons.prems(1) by auto
  have N: "inner_on sh (?I (M (?D x))) y = inner_on sh x (?I (M' (?D y)))" for x y
    by (rule sandwich_axis [OF ax Cons.prems(2)])
  have "inner_on sh (axes_op True sh (ax # axs) (M (axes_op False sh (ax # axs) x))) y =
        inner_on sh (axes_op True sh axs (?I (M (?D (axes_op False sh axs x))))) y"
    by (simp add: axes_op_commute)
  also have "\<dots> = inner_on sh x (axes_op True sh axs (?I (M' (?D (axes_op False sh axs y)))))"
    by (rule Cons.IH [OF rest, of "\<lambda>x. ?I (M (?D x))" "\<lambda>y. ?I (M' (?D y))"]) (rule N)
  also have "\<dots> = inner_on sh x (axes_op True sh (ax # axs) (M' (axes_op False sh (ax # axs) y)))"
    by (simp add: axes_op_commute)
  finally show ?case .
qed

lemma normalize_axis_bound: "normalize_axis nd ax = Inr k \<Longrightarrow> k < nd"
  by (auto simp: normalize_axis_def split: if_splits)

lemma fft1_Inr:
  assumes "fft1 bw a axis = Inr r"
  shows "shape r = shape a" "dtype r = complex128"
    "projr (normalize_axis (length (shape a)) axis) < length (shape a)"
    "shape a ! projr (normalize_axis (length (shape a)) axis) \<noteq> 0"
    "elem r = axis_op (dft_kernel bw (shape a ! projr (normalize_axis (length (shape a)) axis)))
                (projr (normalize_axis (length (shape a)) axis))
                (shape a ! projr (normalize_axis (length (shape a)) axis)) (elem a)"
  using assms
  by (auto simp: fft1_def split: sum.splits if_splits dest: normalize_axis_bound)

lemma fftn1_Inr:
  assumes "fftn1 bw a axes = Inr r"
  shows "shape r = shape a \<and> dtype r = complex128
     \<and> (\<forall>ax\<in>set (norm_axes (length (shape a)) axes). ax < length (shape a) \<and> shape a ! ax \<noteq> 0)
     \<and> elem r = axes_op bw (shape a) (norm_axes (length (shape a)) axes) (elem a)"
  using assms
proof (induction axes arbitrary: r)
  case Nil
  then show ?case by (auto simp: norm_axes_def)
next
  case (Cons axis axes)
  from Cons.prems obtain b where b: "fftn1 bw a axes = Inr b" "fft1 bw b axis = Inr r"
    by (auto split: sum.splits)
  from Cons.IH [OF b(1)] have IH: "shape b = shape a"
    "\<forall>ax\<in>set (norm_axes (length (shape a)) axes). ax < length (shape a) \<and> shape a ! ax \<noteq> 0"
    "elem b = axes_op bw (shape a) (norm_axes (length (shape a)) axes) (elem a)"
    by auto
  from fft1_Inr [OF b(2)] IH show ?case
    by (simp add: norm_axes_def)
qed

lemma imul_Inr:
  assumes "imul f b = Inr r"
  shows "shape r = shape f" "elem r = (\<lambda>idx. elem f idx * elem b (broadcast_index (shape b) idx))"
  using assms by (auto simp: imul_def split: if_splits)

lemma reshape_Inr:
  assumes "reshape ns a = Inr r"
  shows "shape r = ns" "prod_list ns = prod_list (shape a)"
    "elem r = (\<lambda>idx. elem a (unravel (shape a) (ravel ns idx)))"
  using assms by (auto simp: reshape_def split: if_splits)

lemma shaped_Inr:
  assumes "shaped u = Inr us"
  shows "shape us = tensor_shape u @ grid_shape (grid u)"
    "prod_list (tensor_shape u @ grid_shape (grid u)) = prod_list (shape (data u))"
    "elem us = (\<lambda>idx. elem (data u) (unravel (shape (data u)) (ravel (tensor_shape u @ grid_shape (grid u)) idx)))"
  using assms by (auto simp: shaped_def split: if_splits dest: reshape_Inr)

lemma grid_size_shape: "prod_list (grid_shape g) = grid_size g"
  by (simp add: grid_shape_def grid_size_def prod_list.rev)

lemma well_formed_lead:
  assumes "well_formed u"
  shows "shape_lead (ndim (grid u)) (tensor_shape u @ grid_shape (grid u)) = tensor_shape u"
  using assms by (simp add: well_formed_def shape_lead_def grid_shape_def)

lemma reshape_infer_flat:
  assumes "reshape_infer tsh X = Inr R" "shape X = tsh @ gsh"
  shows "reshape (tsh @ [prod_list gsh]) X = Inr R"
  using assms by (auto simp: reshape_infer_def split: if_splits)

text \<open>The inner product of a flattened array with a field, through the shaped view.\<close>

lemma inner_flat_left:
  assumes R: "reshape (shape (data v)) X = Inr R" and vs: "shaped v = Inr vs" and sh: "shape X = shape vs"
  shows "array_inner R (data v) = inner_on (shape vs) (elem X) (elem vs)"
proof -
  note r = reshape_Inr [OF R]
  note s = shaped_Inr [OF vs]
  have p: "prod_list (shape (data v)) = prod_list (shape vs)" using s by simp
  show ?thesis
    unfolding array_inner_inner_on inner_on_def r(1) r(3) s(3) sh s(1) [symmetric]
    using reshape_sum [OF p, of "\<lambda>a b. elem X a * cnj (elem (data v) b)"] by simp
qed

lemma inner_flat_right:
  assumes R: "reshape (shape (data u)) X = Inr R" and us: "shaped u = Inr us" and sh: "shape X = shape us"
  shows "array_inner (data u) R = inner_on (shape us) (elem us) (elem X)"
proof -
  note r = reshape_Inr [OF R]
  note s = shaped_Inr [OF us]
  have p: "prod_list (shape (data u)) = prod_list (shape us)" using s by simp
  show ?thesis
    unfolding array_inner_inner_on inner_on_def r(3) s(3) sh s(1) [symmetric]
    using reshape_sum [OF p, of "\<lambda>a b. elem (data u) b * cnj (elem X a)"] by simp
qed

lemma mult_adjoint:
  "inner_on sh (\<lambda>idx. x idx * G idx) y = inner_on sh x (\<lambda>idx. y idx * cnj (G idx))"
  by (simp add: inner_on_def ac_simps)

lemma tensor_shape_eq: "shape (data u) = shape (data v) \<Longrightarrow> tensor_shape u = tensor_shape v"
  by (simp add: tensor_shape_def)

lemma well_formed_transfer:
  "well_formed u \<Longrightarrow> grid u = grid v \<Longrightarrow> shape (data u) = shape (data v) \<Longrightarrow> well_formed v"
  by (simp add: well_formed_def tensor_shape_def)

lemma well_formed_flat_shape:
  assumes "well_formed u"
  shows "tensor_shape u @ [prod_list (grid_shape (grid u))] = shape (data u)"
  using assms by (simp add: well_formed_def grid_size_shape)

lemma shear_stages:
  assumes "FourierShear_operation s (FieldV u) adj = Inr r" and wf: "well_formed u"
  shows "\<exists>us X. shaped u = Inr us \<and> shape X = shape us
     \<and> reshape (shape (data u)) X = Inr (data r)
     \<and> (let sh = shape us; ax = projr (normalize_axis (length sh) (- shear_dim s - 1));
             G = (\<lambda>idx. elem (priv_filter s) (broadcast_index (shape (priv_filter s)) idx))
         in ax < length sh \<and> sh ! ax \<noteq> 0
            \<and> elem X = axes_op True sh [ax]
                 ((\<lambda>x idx. x idx * (if adj then cnj (G idx) else G idx)) (axes_op False sh [ax] (elem us))))"
proof -
  from assms(1) obtain us f1 f2 f3 res where
    us: "shaped u = Inr us" and f1: "fft us (- shear_dim s - 1) = Inr f1"
    and f2: "imul f1 (if adj then conj (priv_filter s) else priv_filter s) = Inr f2"
    and f3: "ifft f2 (- shear_dim s - 1) = Inr f3"
    and res: "reshape_infer (shape_lead (ndim (grid u)) (shape f3)) f3 = Inr res"
    and r: "r = Field res (grid u)"
    by (auto simp: FourierShear_operation_def bindE_eq_Inr attr_shaped_def attr_grid_def)
  note s1 = fft1_Inr [OF f1 [unfolded fft_def]]
  note s2 = imul_Inr [OF f2]
  note s3 = fft1_Inr [OF f3 [unfolded ifft_def]]
  have shs: "shape f3 = shape us" "shape f2 = shape us" "shape f1 = shape us"
    by (simp_all add: s1 s2 s3)
  have lead: "shape_lead (ndim (grid u)) (shape f3) = tensor_shape u"
    using well_formed_lead [OF wf] shaped_Inr(1) [OF us] shs by simp
  have "reshape (tensor_shape u @ [prod_list (grid_shape (grid u))]) f3 = Inr res"
    using reshape_infer_flat [OF res [unfolded lead]] shaped_Inr(1) [OF us] shs by simp
  then have R: "reshape (shape (data u)) f3 = Inr (data r)"
    by (simp add: well_formed_flat_shape [OF wf] r Field_def)
  have G: "elem f2 = (\<lambda>idx. elem f1 idx *
      (if adj then cnj (elem (priv_filter s) (broadcast_index (shape (priv_filter s)) idx))
       else elem (priv_filter s) (broadcast_index (shape (priv_filter s)) idx)))"
    by (cases adj) (simp_all add: s2)
  show ?thesis
    using us R shs s1(3,4)
    by - (rule exI [of _ us], rule exI [of _ f3], simp add: Let_def s3(5) s1(5) G)
qed

lemma shear_adjoint:
  assumes f: "FourierShear_operation s (FieldV u) False = Inr r1"
      and b: "FourierShear_operation s (FieldV v) True = Inr r2"
      and g: "grid u = grid v" and sh: "shape (data u) = shape (data v)" and wf: "well_formed u"
  shows "field_inner r1 v = field_inner u r2"
proof -
  note wfv = well_formed_transfer [OF wf g sh]
  from shear_stages [OF f wf] obtain us X where
    us: "shaped u = Inr us" "shape X = shape us" "reshape (shape (data u)) X = Inr (data r1)"
    and X: "let sh = shape us; ax = projr (normalize_axis (length sh) (- shear_dim s - 1));
             G = (\<lambda>idx. elem (priv_filter s) (broadcast_index (shape (priv_filter s)) idx))
         in ax < length sh \<and> sh ! ax \<noteq> 0
            \<and> elem X = axes_op True sh [ax]
                 ((\<lambda>x idx. x idx * (if False then cnj (G idx) else G idx)) (axes_op False sh [ax] (elem us)))"
    by blast
  from shear_stages [OF b wfv] obtain vs Y where
    vs: "shaped v = Inr vs" "shape Y = shape vs" "reshape (shape (data v)) Y = Inr (data r2)"
    and Y: "let sh = shape vs; ax = projr (normalize_axis (length sh) (- shear_dim s - 1));
             G = (\<lambda>idx. elem (priv_filter s) (broadcast_index (shape (priv_filter s)) idx))
         in ax < length sh \<and> sh ! ax \<noteq> 0
            \<and> elem Y = axes_op True sh [ax]
                 ((\<lambda>x idx. x idx * (if True then cnj (G idx) else G idx)) (axes_op False sh [ax] (elem vs)))"
    by blast
  have same: "shape vs = shape us"
    using shaped_Inr(1) [OF us(1)] shaped_Inr(1) [OF vs(1)] g tensor_shape_eq [OF sh] by simp
  define shp where "shp = shape us"
  define ax where "ax = projr (normalize_axis (length shp) (- shear_dim s - 1))"
  define G where "G = (\<lambda>idx. elem (priv_filter s) (broadcast_index (shape (priv_filter s)) idx))"
  have ax: "\<forall>a\<in>set [ax]. a < length shp \<and> shp ! a \<noteq> 0"
    using X by (simp add: Let_def shp_def ax_def)
  have eX: "elem X = axes_op True shp [ax] ((\<lambda>x idx. x idx * G idx) (axes_op False shp [ax] (elem us)))"
    using X by (simp add: Let_def shp_def ax_def G_def)
  have eY: "elem Y = axes_op True shp [ax] ((\<lambda>x idx. x idx * cnj (G idx)) (axes_op False shp [ax] (elem vs)))"
    using Y by (simp add: Let_def shp_def ax_def G_def same)
  have "field_inner r1 v = inner_on shp (elem X) (elem vs)"
    unfolding field_inner_def
    using inner_flat_left [OF us(3) [unfolded sh] vs(1)] us(2) same by (simp add: shp_def)
  also have "\<dots> = inner_on shp (elem us) (elem Y)"
    unfolding eX eY by (rule sandwich_axes [OF ax mult_adjoint])
  also have "\<dots> = field_inner u r2"
    unfolding field_inner_def
    using inner_flat_right [OF vs(3) [folded sh] us(1)] vs(2) same by (simp add: shp_def)
  finally show ?thesis .
qed

lemma generic_adjoint:
  assumes us: "shaped u = Inr us" and vs: "shaped v = Inr vs"
    and X: "shape X = shape us" "reshape (shape (data u)) X = Inr (data r1)"
    and Y: "shape Y = shape vs" "reshape (shape (data v)) Y = Inr (data r2)"
    and same: "shape vs = shape us" "shape (data u) = shape (data v)"
    and core: "inner_on (shape us) (elem X) (elem vs) = inner_on (shape us) (elem us) (elem Y)"
  shows "field_inner r1 v = field_inner u r2"
proof -
  have "field_inner r1 v = inner_on (shape us) (elem X) (elem vs)"
    unfolding field_inner_def
    using inner_flat_left [OF X(2) [unfolded same(2)] vs] X(1) same(1) by simp
  also note core
  also have "inner_on (shape us) (elem us) (elem Y) = field_inner u r2"
    unfolding field_inner_def
    using inner_flat_right [OF Y(2) [folded same(2)] us] Y(1) same(1) by simp
  finally show ?thesis .
qed

lemma shaped_same_shape:
  assumes "shaped u = Inr us" "shaped v = Inr vs" "grid u = grid v" "shape (data u) = shape (data v)"
  shows "shape vs = shape us"
  using shaped_Inr(1) [OF assms(1)] shaped_Inr(1) [OF assms(2)] assms(3) tensor_shape_eq [OF assms(4)]
  by simp

lemma flat_result:
  assumes res: "reshape_infer (shape_lead (ndim (grid u)) (shape X)) X = Inr res"
    and us: "shaped u = Inr us" and sh: "shape X = shape us" and wf: "well_formed u"
  shows "reshape (shape (data u)) X = Inr res"
proof -
  have lead: "shape_lead (ndim (grid u)) (shape X) = tensor_shape u"
    using well_formed_lead [OF wf] shaped_Inr(1) [OF us] sh by simp
  have "reshape (tensor_shape u @ [prod_list (grid_shape (grid u))]) X = Inr res"
    using reshape_infer_flat [OF res [unfolded lead]] shaped_Inr(1) [OF us] sh by simp
  then show ?thesis by (simp add: well_formed_flat_shape [OF wf])
qed

lemma shift_stages:
  assumes op: "FourierShift_operation s u adj = Inr r" and flt: "priv_shift_filter s = Some flt"
    and wf: "well_formed u"
  shows "\<exists>us X. shaped u = Inr us \<and> shape X = shape us
     \<and> reshape (shape (data u)) X = Inr (data r)
     \<and> (\<forall>ax\<in>set (norm_axes (length (shape us)) (priv_ft_axes s)). ax < length (shape us) \<and> shape us ! ax \<noteq> 0)
     \<and> elem X = axes_op True (shape us) (norm_axes (length (shape us)) (priv_ft_axes s))
                 (\<lambda>idx. axes_op False (shape us) (norm_axes (length (shape us)) (priv_ft_axes s)) (elem us) idx
                        * (if adj then cnj (elem flt (broadcast_index (shape flt) idx))
                           else elem flt (broadcast_index (shape flt) idx)))"
proof -
  from op flt obtain us f1 f2 f3 res where
    us: "shaped u = Inr us" and f1: "fftn us (priv_ft_axes s) = Inr f1"
    and f2: "imul f1 (if adj then conj flt else flt) = Inr f2"
    and f3: "ifftn f2 (priv_ft_axes s) = Inr f3"
    and res: "reshape_infer (shape_lead (ndim (grid u)) (shape f3)) f3 = Inr res"
    and r: "r = Field res (grid u)"
    by (auto simp: FourierShift_operation_def bindE_eq_Inr)
  note s1 = fftn1_Inr [OF f1 [unfolded fftn_def]]
  note s2 = imul_Inr [OF f2]
  note s3 = fftn1_Inr [OF f3 [unfolded ifftn_def]]
  have shs: "shape f3 = shape us" "shape f2 = shape us" "shape f1 = shape us"
    using s1 s2 s3 by simp_all
  have R: "reshape (shape (data u)) f3 = Inr (data r)"
    using flat_result [OF res us shs(1) wf] by (simp add: r Field_def)
  have G: "elem f2 = (\<lambda>idx. elem f1 idx *
      (if adj then cnj (elem flt (broadcast_index (shape flt) idx))
       else elem flt (broadcast_index (shape flt) idx)))"
    by (cases adj) (simp_all add: s2)
  have e3: "elem f3 = axes_op True (shape us) (norm_axes (length (shape us)) (priv_ft_axes s)) (elem f2)"
    using s3 shs by simp
  have e1: "elem f1 = axes_op False (shape us) (norm_axes (length (shape us)) (priv_ft_axes s)) (elem us)"
    using s1 by simp
  show ?thesis
    using us R shs(1) s1
    by - (rule exI [of _ us], rule exI [of _ f3], simp add: e3 G e1)
qed

lemma shift_adjoint:
  assumes f: "FourierShift_operation s u False = Inr r1"
      and b: "FourierShift_operation s v True = Inr r2"
      and g: "grid u = grid v" and sh: "shape (data u) = shape (data v)" and wf: "well_formed u"
  shows "field_inner r1 v = field_inner u r2"
proof (cases "priv_shift_filter s")
  case None
  with f b have "r1 = field_astype complex128 u" "r2 = field_astype complex128 v"
    by (simp_all add: FourierShift_operation_def)
  then show ?thesis
    by (simp add: field_inner_def field_astype_def astype_def is_complex_dtype_def array_inner_def sh)
next
  case (Some flt)
  note wfv = well_formed_transfer [OF wf g sh]
  let ?G = "\<lambda>idx. elem flt (broadcast_index (shape flt) idx)"
  from shift_stages [OF f Some wf] obtain us X where
    us: "shaped u = Inr us" "shape X = shape us" "reshape (shape (data u)) X = Inr (data r1)"
    and ax: "\<forall>ax\<in>set (norm_axes (length (shape us)) (priv_ft_axes s)). ax < length (shape us) \<and> shape us ! ax \<noteq> 0"
    and X: "elem X = axes_op True (shape us) (norm_axes (length (shape us)) (priv_ft_axes s))
                 (\<lambda>idx. axes_op False (shape us) (norm_axes (length (shape us)) (priv_ft_axes s)) (elem us) idx
                        * ?G idx)"
    by auto
  from shift_stages [OF b Some wfv] obtain vs Y where
    vs: "shaped v = Inr vs" "shape Y = shape vs" "reshape (shape (data v)) Y = Inr (data r2)"
    and Y: "elem Y = axes_op True (shape vs) (norm_axes (length (shape vs)) (priv_ft_axes s))
                 (\<lambda>idx. axes_op False (shape vs) (norm_axes (length (shape vs)) (priv_ft_axes s)) (elem vs) idx
                        * cnj (?G idx))"
    by auto
  note same = shaped_same_shape [OF us(1) vs(1) g sh]
  show ?thesis
  proof (rule generic_adjoint [OF us(1) vs(1) us(2,3) vs(2,3) same sh])
    show "inner_on (shape us) (elem X) (elem vs) = inner_on (shape us) (elem us) (elem Y)"
      unfolding X Y same
      by (rule sandwich_axes [OF ax, of "\<lambda>x idx. x idx * ?G idx" "\<lambda>y idx. y idx * cnj (?G idx)"])
         (rule mult_adjoint)
  qed
qed

lemma inner_on_cnj: "inner_on sh x y = cnj (inner_on sh y x)"
  by (simp add: inner_on_def ac_simps)

lemma in_region_iff:
  assumes "length starts = length lens"
  shows "in_region starts lens idx \<longleftrightarrow>
     length idx = length lens
     \<and> (\<forall>i<length lens. starts ! i \<le> idx ! i \<and> idx ! i < starts ! i + lens ! i)"
  using assms by (auto simp: in_region_def list_all2_conv_all_nth)

lemma broadcast_index_valid:
  assumes "idx \<in> set (indices sh)"
  shows "broadcast_index sh idx = idx"
proof -
  have len: "length idx = length sh" and lt: "\<And>i. i < length sh \<Longrightarrow> idx ! i < sh ! i"
    using assms by (auto simp: set_indices)
  have "map2 (\<lambda>b i. if b = 1 then 0 else i) sh idx = idx"
  proof (rule nth_equalityI)
    show "length (map2 (\<lambda>b i. if b = 1 then 0 else i) sh idx) = length idx" using len by simp
    fix i assume "i < length (map2 (\<lambda>b i. if b = 1 then 0 else i) sh idx)"
    then have i: "i < length sh" using len by simp
    show "map2 (\<lambda>b i. if b = 1 then 0 else i) sh idx ! i = idx ! i"
      using lt [OF i] i len by auto
  qed
  then show ?thesis by (simp add: broadcast_index_def len)
qed

lemma crop_pad_adjoint:
  assumes len: "length starts = length big" "length lens = length big"
    and fit: "\<forall>i<length big. starts ! i + lens ! i \<le> big ! i"
  shows "inner_on lens (\<lambda>idx. y (map2 (+) starts idx)) x =
         inner_on big y (\<lambda>idx. if in_region starts lens idx
                                then x (broadcast_index lens (map2 (-) idx starts)) else 0)"
proof -
  let ?R = "{idx \<in> set (indices big). in_region starts lens idx}"
  have "inner_on big y (\<lambda>idx. if in_region starts lens idx
                                then x (broadcast_index lens (map2 (-) idx starts)) else 0) =
        (\<Sum>idx\<in>set (indices big). if in_region starts lens idx
            then y idx * cnj (x (broadcast_index lens (map2 (-) idx starts))) else 0)"
    unfolding inner_on_def by (intro sum.cong refl) simp
  also have "\<dots> = (\<Sum>idx\<in>?R. y idx * cnj (x (broadcast_index lens (map2 (-) idx starts))))"
    by (simp add: sum.inter_filter [symmetric])
  also have "\<dots> = (\<Sum>idx\<in>set (indices lens). y (map2 (+) starts idx) * cnj (x idx))"
  proof (rule sum.reindex_bij_witness [where i = "\<lambda>idx. map2 (+) starts idx"
        and j = "\<lambda>idx. map2 (-) idx starts"])
    fix idx assume "idx \<in> ?R"
    then have l: "length idx = length big" and b: "\<And>i. i < length big \<Longrightarrow> idx ! i < big ! i"
      and r: "\<And>i. i < length big \<Longrightarrow> starts ! i \<le> idx ! i \<and> idx ! i < starts ! i + lens ! i"
      using len by (auto simp: set_indices in_region_iff)
    show "map2 (+) starts (map2 (-) idx starts) = idx"
      by (rule nth_equalityI) (use l len r in auto)
    have "\<And>i. i < length big \<Longrightarrow> idx ! i - starts ! i < lens ! i"
      using r by (metis add.commute less_diff_conv2)
    then show v: "map2 (-) idx starts \<in> set (indices lens)"
      using l len by (auto simp: set_indices)
    show "y (map2 (+) starts (map2 (-) idx starts)) * cnj (x (map2 (-) idx starts)) =
          y idx * cnj (x (broadcast_index lens (map2 (-) idx starts)))"
      using \<open>map2 (+) starts (map2 (-) idx starts) = idx\<close> broadcast_index_valid [OF v] by simp
  next
    fix idx assume "idx \<in> set (indices lens)"
    then have l: "length idx = length big" and b: "\<And>i. i < length big \<Longrightarrow> idx ! i < lens ! i"
      using len by (auto simp: set_indices)
    show "map2 (-) (map2 (+) starts idx) starts = idx"
      by (rule nth_equalityI) (use l len in auto)
    have "\<And>i. i < length big \<Longrightarrow> starts ! i + idx ! i < big ! i"
      using b fit by (metis add_less_cancel_left less_le_trans)
    then show "map2 (+) starts idx \<in> ?R"
      using l len b by (auto simp: set_indices in_region_iff)
  qed
  also have "\<dots> = inner_on lens (\<lambda>idx. y (map2 (+) starts idx)) x"
    by (simp add: inner_on_def)
  finally show ?thesis by simp
qed

lemma pad_crop_adjoint:
  assumes len: "length starts = length big" "length lens = length big"
    and fit: "\<forall>i<length big. starts ! i + lens ! i \<le> big ! i"
  shows "inner_on big (\<lambda>idx. if in_region starts lens idx
                                then x (broadcast_index lens (map2 (-) idx starts)) else 0) y =
         inner_on lens x (\<lambda>idx. y (map2 (+) starts idx))"
  by (subst inner_on_cnj, subst crop_pad_adjoint [OF assms, symmetric], subst inner_on_cnj) simp

lemma slice_fit: "slice_start sl n + slice_len sl n \<le> n"
  by (auto simp: slice_start_def slice_len_def split: option.splits)

lemma length_pad_slices: "length sh \<le> length (pad_slices c (length sh))"
  by (simp add: pad_slices_def)

lemma slices_lengths [simp]:
  "length (slice_starts c sh) = length sh" "length (sliced_shape c sh) = length sh"
  using length_pad_slices [of sh c] by (simp_all add: slice_starts_def sliced_shape_def)

lemma slices_fit: "i < length sh \<Longrightarrow> slice_starts c sh ! i + sliced_shape c sh ! i \<le> sh ! i"
  using length_pad_slices [of sh c] by (simp add: slice_starts_def sliced_shape_def slice_fit)

lemma operation_unfold:
  assumes "FourierFilter_operation s0 u adj = Inr (r, s1)"
  shows "\<exists>s fs f F A I X res.
      FourierFilter_compute_functions s0 u = Inr s \<and> shaped u = Inr fs
    \<and> (case cutout s of
          None \<Rightarrow> f = fs \<and> s1 = s
        | Some c \<Rightarrow> setitem ((the (internal_array s))\<lparr>elem := (\<lambda>idx. 0)\<rparr>)
                       (cutout_slices (tensor_order u) c) fs = Inr f
                    \<and> s1 = s\<lparr>internal_array := Some f\<rparr>)
    \<and> fftn f (last_axes (ndim (input_grid s))) = Inr F
    \<and> apply_transfer_function (internal_grid s) (the (priv_transfer_function s)) F adj = Inr A
    \<and> ifftn A (last_axes (ndim (input_grid s))) = Inr I
    \<and> (case cutout s of None \<Rightarrow> X = I
         | Some c \<Rightarrow> getitem I (cutout_slices (tensor_order u) c) = Inr X)
    \<and> reshape_infer (shape_lead (ndim (internal_grid s)) (shape I)) X = Inr res
    \<and> r = Field res (input_grid s)"
  using assms
  by (cases "cutout s0")
     (auto simp: FourierFilter_operation_def bindE_eq_Inr compute_functions_frame
           split: option.splits)

lemma compute_functions_cached:
  assumes "FourierFilter_compute_functions s0 u = Inr s"
  shows "\<exists>tf. priv_transfer_function s = Some tf \<and> dtype tf = field_dtype u"
    and "priv_transfer_function s0 = Some c \<Longrightarrow> dtype c = field_dtype u \<Longrightarrow> priv_transfer_function s = Some c"
  using assms
  by (auto simp: FourierFilter_compute_functions_def bindE_eq_Inr compute_transfer_function_def
        split: if_splits)

lemma compute_functions_buffer:
  assumes "FourierFilter_compute_functions s0 u = Inr s" "recompute_internal_array s0 u"
  shows "\<exists>buf. internal_array s = Some buf \<and> dtype buf = field_dtype u
           \<and> shape buf = tensor_shape u @ grid_shape (internal_grid s0)"
proof -
  from assms(1) [unfolded FourierFilter_compute_functions_def bindE_eq_Inr] obtain t where
    t0: "(if priv_transfer_function s0 = None
               \<or> dtype (the (priv_transfer_function s0)) \<noteq> field_dtype u
            then bindE (compute_transfer_function s0 u) (\<lambda>tf.
                   Inr (s0\<lparr>priv_transfer_function := Some tf\<rparr>))
            else Inr s0) = Inr t"
    and s: "(if recompute_internal_array t u
             then bindE (zeros_shaped (internal_grid t) (tensor_shape u) (field_dtype u))
                    (\<lambda>buf. Inr (t\<lparr>internal_array := Some buf\<rparr>))
             else Inr t) = Inr s"
    by blast
  have t: "internal_array t = internal_array s0" "internal_grid t = internal_grid s0"
    using t0 by (auto simp: bindE_eq_Inr split: if_splits)
  have "recompute_internal_array t u"
    using assms(2) t(1) by (simp add: recompute_internal_array_def)
  with s t(2) show ?thesis
    by (auto simp: bindE_eq_Inr zeros_shaped_def split: if_splits)
qed

lemma setitem_Inr:
  assumes "setitem a c v = Inr r"
  shows "shape r = shape a" "dtype r = dtype a"
    "elem r = (\<lambda>idx. if in_region (slice_starts c (shape a)) (sliced_shape c (shape a)) idx
                  then elem v (broadcast_index (shape v) (map2 (-) idx (slice_starts c (shape a))))
                  else elem a idx)"
  using assms by (auto simp: setitem_def split: if_splits)

lemma getitem_Inr:
  assumes "getitem a c = Inr r"
  shows "shape r = sliced_shape c (shape a)"
    "elem r = (\<lambda>idx. elem a (map2 (+) (slice_starts c (shape a)) idx))"
  using assms by (auto simp: getitem_def split: if_splits)

lemma apply_scalar:
  assumes A: "apply_transfer_function ig tf F adj = Inr A"
    and sc: "int (length (shape tf)) - int (ndim ig) \<noteq> 2"
  shows "shape A = shape F"
    "elem A = (\<lambda>idx. elem F idx * (if adj then cnj (elem tf (broadcast_index (shape tf) idx))
                                   else elem tf (broadcast_index (shape tf) idx)))"
  using assms by (cases adj; auto simp: apply_transfer_function_def dest: imul_Inr)+

lemma sum_indices_Cons:
  "(\<Sum>idx\<in>set (indices (n # sh)). f idx) = (\<Sum>i<n. \<Sum>w\<in>set (indices sh). f (i # w))"
proof -
  have "set (indices (n # sh)) = (\<lambda>(i, w). i # w) ` ({..<n} \<times> set (indices sh))"
    by (auto simp: image_iff)
  moreover have "inj_on (\<lambda>(i, w). i # w) ({..<n} \<times> set (indices sh))"
    by (auto simp: inj_on_def)
  ultimately have "(\<Sum>idx\<in>set (indices (n # sh)). f idx) =
      (\<Sum>p\<in>{..<n} \<times> set (indices sh). f (case p of (i, w) \<Rightarrow> i # w))"
    by (simp add: sum.reindex case_prod_unfold)
  also have "\<dots> = (\<Sum>i<n. \<Sum>w\<in>set (indices sh). f (i # w))"
    by (simp add: sum.cartesian_product case_prod_unfold)
  finally show ?thesis .
qed

lemma matrix_adjoint:
  "inner_on (K # W) (\<lambda>idx. \<Sum>k<K. T (hd idx) k (tl idx) * x (k # tl idx)) y =
   inner_on (K # W) x (\<lambda>idx. \<Sum>k<K. cnj (T k (hd idx) (tl idx)) * y (k # tl idx))"
proof -
  have "inner_on (K # W) (\<lambda>idx. \<Sum>k<K. T (hd idx) k (tl idx) * x (k # tl idx)) y =
        (\<Sum>k'<K. \<Sum>w\<in>set (indices W). \<Sum>k<K. T k' k w * x (k # w) * cnj (y (k' # w)))"
    unfolding inner_on_def sum_indices_Cons by (simp add: sum_distrib_right)
  also have "\<dots> = (\<Sum>k'<K. \<Sum>k<K. \<Sum>w\<in>set (indices W). T k' k w * x (k # w) * cnj (y (k' # w)))"
    by (intro sum.cong refl sum.swap)
  also have "\<dots> = (\<Sum>k<K. \<Sum>k'<K. \<Sum>w\<in>set (indices W). T k' k w * x (k # w) * cnj (y (k' # w)))"
    by (rule sum.swap)
  also have "\<dots> = (\<Sum>k<K. \<Sum>w\<in>set (indices W). \<Sum>k'<K. T k' k w * x (k # w) * cnj (y (k' # w)))"
    by (intro sum.cong refl sum.swap)
  also have "\<dots> = inner_on (K # W) x (\<lambda>idx. \<Sum>k<K. cnj (T k (hd idx) (tl idx)) * y (k # tl idx))"
    unfolding inner_on_def sum_indices_Cons
    by (intro sum.cong refl) (simp add: sum_distrib_left ac_simps)
  finally show ?thesis .
qed

lemma inner_on_cong:
  "(\<And>idx. idx \<in> set (indices sh) \<Longrightarrow> x idx = x' idx) \<Longrightarrow>
   (\<And>idx. idx \<in> set (indices sh) \<Longrightarrow> y idx = y' idx) \<Longrightarrow>
   inner_on sh x y = inner_on sh x' y'"
  by (simp add: inner_on_def)

lemma grid_shape_length: "length (grid_shape g) = length (dims g)"
  by (simp add: grid_shape_def)

lemma shape_lead_append:
  assumes "length W = nd" "0 < nd"
  shows "shape_lead nd (tsh @ W) = tsh"
  using assms by (simp add: shape_lead_def)

lemma take2: "length xs = Suc (Suc n) \<Longrightarrow> take 2 xs = [xs ! 0, xs ! 1]"
  by (cases xs; cases "tl xs") (auto simp: numeral_2_eq_2)

lemma apply_matrix:
  assumes A: "apply_transfer_function ig tf F adj = Inr A"
    and mx: "int (length (shape tf)) - int (ndim ig) = 2"
    and sh: "shape F = tsh @ grid_shape ig" and ig: "length (dims ig) = ndim ig" "0 < ndim ig"
  shows "\<exists>K. tsh = [K]
     \<and> (if adj then shape tf ! 0 else shape tf ! 1) = K
     \<and> shape A = (if adj then shape tf ! 1 else shape tf ! 0) # grid_shape ig
     \<and> elem A = (\<lambda>idx.
          let j = unravel [if adj then shape tf ! 1 else shape tf ! 0, grid_size ig]
                    (ravel ((if adj then shape tf ! 1 else shape tf ! 0) # grid_shape ig) idx)
          in \<Sum>k<K. (if adj
                      then cnj (elem tf (unravel (shape tf)
                                  (ravel [shape tf ! 0, shape tf ! 1, grid_size ig] [k, j ! 0, j ! 1])))
                      else elem tf (unravel (shape tf)
                                  (ravel [shape tf ! 0, shape tf ! 1, grid_size ig] [j ! 0, k, j ! 1])))
                   * elem F (unravel (K # grid_shape ig) (ravel [K, grid_size ig] [k, j ! 1])))"
proof -
  let ?W = "grid_shape ig" and ?N = "grid_size ig" and ?nd = "ndim ig"
  let ?P = "shape tf ! 0" and ?Q = "shape tf ! 1"
  have lW: "length ?W = ?nd" using ig by (simp add: grid_shape_length)
  have ltf: "length (shape tf) = Suc (Suc ?nd)" using mx by simp
  have leadF: "shape_lead ?nd (shape F) = tsh" using shape_lead_append [OF lW ig(2)] sh by simp
  have leadtf: "shape_lead ?nd (shape tf) = [?P, ?Q]"
    using ltf ig(2) by (simp add: shape_lead_def take2)
  from A mx obtain f1 tf1 tf2 d where
    f1: "reshape (tsh @ [?N]) F = Inr f1"
    and tf1: "reshape ([?P, ?Q] @ [?N]) tf = Inr tf1"
    and tf2: "(if adj then field_conjugate_transpose (Field tf1 ig) else Inr (Field tf1 ig)) = Inr tf2"
    and d: "field_dot tf2 (Field f1 ig) = Inr d" and sA: "shaped d = Inr A"
    by (auto simp: apply_transfer_function_def bindE_eq_Inr leadF leadtf)
  note rf1 = reshape_Inr [OF f1]
  note rtf1 = reshape_Inr [OF tf1]
  have stf2: "shape (data tf2) = (if adj then [?Q, ?P, ?N] else [?P, ?Q, ?N])"
    and etf2: "elem (data tf2) = (if adj then (\<lambda>idx. cnj (elem tf1 [idx ! 1, idx ! 0, idx ! 2])) else elem tf1)"
    using tf2 rtf1(1)
    by (auto simp: field_conjugate_transpose_def Field_def tensor_order_def split: if_splits)
  from d have dd: "length (shape f1) = 2" "shape (data tf2) ! 1 = shape f1 ! 0"
    and dsh: "shape (data d) = [shape (data tf2) ! 0, shape f1 ! 1]" and dg: "grid d = ig"
    and del: "elem (data d) = (\<lambda>idx. \<Sum>k<shape (data tf2) ! 1.
                                 elem (data tf2) [idx ! 0, k, idx ! 1] * elem f1 [k, idx ! 1])"
    by (auto simp: field_dot_def Field_def split: if_splits)
  from dd(1) rf1(1) obtain K where K: "tsh = [K]"
    by (cases tsh) (auto simp: numeral_2_eq_2)
  have f1sh: "shape f1 = [K, ?N]" using rf1(1) K by simp
  have KQ: "(if adj then ?P else ?Q) = K" using dd(2) stf2 f1sh by (auto split: if_splits)
  have dsh': "shape (data d) = [if adj then ?Q else ?P, ?N]"
    using dsh stf2 f1sh by (auto split: if_splits)
  note sa = shaped_Inr [OF sA]
  have tsd: "tensor_shape d = [if adj then ?Q else ?P]" by (simp add: tensor_shape_def dsh')
  have shA: "shape A = (if adj then ?Q else ?P) # ?W" using sa(1) tsd dg by simp
  have elA: "elem A = (\<lambda>idx. elem (data d) (unravel [if adj then ?Q else ?P, ?N]
                   (ravel ((if adj then ?Q else ?P) # ?W) idx)))"
    using sa(3) tsd dg dsh' by simp
  have elf1: "elem f1 = (\<lambda>idx. elem F (unravel (K # ?W) (ravel [K, ?N] idx)))"
    using rf1(3) sh K by simp
  have eltf1: "elem tf1 = (\<lambda>idx. elem tf (unravel (shape tf) (ravel [?P, ?Q, ?N] idx)))"
    using rtf1(3) by simp
  have s2: "shape (data tf2) ! 1 = K" using dd(2) f1sh by simp
  have "elem A = (\<lambda>idx.
          let j = unravel [if adj then shape tf ! 1 else shape tf ! 0, grid_size ig]
                    (ravel ((if adj then shape tf ! 1 else shape tf ! 0) # grid_shape ig) idx)
          in \<Sum>k<K. (if adj
                      then cnj (elem tf (unravel (shape tf)
                                  (ravel [shape tf ! 0, shape tf ! 1, grid_size ig] [k, j ! 0, j ! 1])))
                      else elem tf (unravel (shape tf)
                                  (ravel [shape tf ! 0, shape tf ! 1, grid_size ig] [j ! 0, k, j ! 1])))
                   * elem F (unravel (K # grid_shape ig) (ravel [K, grid_size ig] [k, j ! 1])))"
    using s2 by (cases adj) (simp_all add: elA del etf2 elf1 eltf1 Let_def)
  with K KQ shA show ?thesis by blast
qed

lemma matrix_op_valid:
  assumes idx: "idx \<in> set (indices (K # W))"
  shows "(let j = unravel [K, prod_list W] (ravel (K # W) idx)
          in \<Sum>k<K. T k j * x (unravel (K # W) (ravel [K, prod_list W] [k, j ! 1]))) =
         (\<Sum>k<K. T k [hd idx, ravel W (tl idx)] * x (k # tl idx))"
proof -
  from idx obtain k' w where i: "idx = k' # w" "k' < K" "w \<in> set (indices W)"
    by (rule indices_Cons_cases)
  have n: "ravel W w < prod_list W" using ravel_bound [OF i(3)] by simp
  have j: "unravel [K, prod_list W] (ravel (K # W) (k' # w)) = [k', ravel W w]"
    using n by simp
  have u: "unravel (K # W) (ravel [K, prod_list W] [k, ravel W w]) = k # w" for k
    using n unravel_ravel [OF i(3)] by simp
  show ?thesis
    unfolding i(1) Let_def j by (simp add: u del: unravel.simps ravel.simps)
qed

lemma apply_pair:
  assumes A: "apply_transfer_function ig tf F False = Inr A"
    and A': "apply_transfer_function ig tf F' True = Inr A'"
    and sh: "shape F = tsh @ grid_shape ig" "shape F' = tsh @ grid_shape ig"
    and ig: "length (dims ig) = ndim ig" "0 < ndim ig"
  shows "shape A = shape F \<and> shape A' = shape F
     \<and> (\<exists>M M'. elem A = M (elem F) \<and> elem A' = M' (elem F')
           \<and> (\<forall>x y. inner_on (shape F) (M x) y = inner_on (shape F) x (M' y)))"
proof (cases "int (length (shape tf)) - int (ndim ig) = 2")
  case False
  let ?G = "\<lambda>idx. elem tf (broadcast_index (shape tf) idx)"
  from apply_scalar [OF A False] apply_scalar [OF A' False] sh
  have "shape A = shape F" "shape A' = shape F"
    "elem A = (\<lambda>x idx. x idx * ?G idx) (elem F)" "elem A' = (\<lambda>y idx. y idx * cnj (?G idx)) (elem F')"
    by simp_all
  moreover have "\<forall>x y. inner_on (shape F) ((\<lambda>x idx. x idx * ?G idx) x) y
       = inner_on (shape F) x ((\<lambda>y idx. y idx * cnj (?G idx)) y)"
    by (simp add: mult_adjoint)
  ultimately show ?thesis
    by (intro conjI exI [of _ "\<lambda>x idx. x idx * ?G idx"] exI [of _ "\<lambda>y idx. y idx * cnj (?G idx)"])
next
  case True
  let ?W = "grid_shape ig" and ?N = "grid_size ig"
  let ?P = "shape tf ! 0" and ?Q = "shape tf ! 1"
  from apply_matrix [OF A True sh(1) ig] obtain K where
    K: "tsh = [K]" "?Q = K" "shape A = ?P # ?W"
    and eA: "elem A = (\<lambda>idx.
          let j = unravel [?P, ?N] (ravel (?P # ?W) idx)
          in \<Sum>k<K. elem tf (unravel (shape tf) (ravel [?P, ?Q, ?N] [j ! 0, k, j ! 1]))
                   * elem F (unravel (K # ?W) (ravel [K, ?N] [k, j ! 1])))"
    by auto
  from apply_matrix [OF A' True sh(2) ig] K(1) have
    K': "?P = K" "shape A' = ?Q # ?W"
    and eA': "elem A' = (\<lambda>idx.
          let j = unravel [?Q, ?N] (ravel (?Q # ?W) idx)
          in \<Sum>k<K. cnj (elem tf (unravel (shape tf) (ravel [?P, ?Q, ?N] [k, j ! 0, j ! 1])))
                   * elem F' (unravel (K # ?W) (ravel [K, ?N] [k, j ! 1])))"
    by auto
  define T where "T = (\<lambda>i. elem tf (unravel (shape tf) (ravel [K, K, ?N] i)))"
  define M where "M = (\<lambda>x idx. let j = unravel [K, ?N] (ravel (K # ?W) idx)
          in \<Sum>k<K. T [j ! 0, k, j ! 1] * x (unravel (K # ?W) (ravel [K, ?N] [k, j ! 1])))"
  define M' where "M' = (\<lambda>y idx. let j = unravel [K, ?N] (ravel (K # ?W) idx)
          in \<Sum>k<K. cnj (T [k, j ! 0, j ! 1]) * y (unravel (K # ?W) (ravel [K, ?N] [k, j ! 1])))"
  have shF: "shape F = K # ?W" using sh K by simp
  have N: "?N = prod_list ?W" by (simp add: grid_size_shape)
  note valid = matrix_op_valid [where W = ?W, folded N]
  have 1: "elem A = M (elem F)" unfolding M_def T_def eA K(2) K' ..
  have 2: "elem A' = M' (elem F')" unfolding M'_def T_def eA' K(2) K' ..
  have 3: "inner_on (shape F) (M x) y = inner_on (shape F) x (M' y)" for x y
  proof -
    have "inner_on (K # ?W) (M x) y =
          inner_on (K # ?W) (\<lambda>idx. \<Sum>k<K. T [hd idx, k, ravel ?W (tl idx)] * x (k # tl idx)) y"
      unfolding M_def
      by (rule inner_on_cong)
         (simp_all add: valid [where T = "\<lambda>k j. T [j ! 0, k, j ! 1]", simplified])
    also have "\<dots> = inner_on (K # ?W) x (\<lambda>idx. \<Sum>k<K. cnj (T [k, hd idx, ravel ?W (tl idx)]) * y (k # tl idx))"
      by (rule matrix_adjoint [of K ?W "\<lambda>a b w. T [a, b, ravel ?W w]"])
    also have "\<dots> = inner_on (K # ?W) x (M' y)"
      unfolding M'_def
      by (rule inner_on_cong)
         (simp_all add: valid [where T = "\<lambda>k j. cnj (T [k, j ! 0, j ! 1])", simplified])
    finally show ?thesis by (simp add: shF)
  qed
  show ?thesis using K K' shF 1 2 3 by auto
qed

lemma tensor_order_eq: "shape (data u) = shape (data v) \<Longrightarrow> tensor_order u = tensor_order v"
  by (simp add: tensor_order_def)

lemma well_formed_order:
  "well_formed u \<Longrightarrow> tensor_order u = length (tensor_shape u)"
  by (simp add: well_formed_def tensor_order_def tensor_shape_def)

lemma filter_pair_unfold:
  assumes f: "FourierFilter_operation s0 u False = Inr (r1, s1)"
    and b: "FourierFilter_operation s1 v True = Inr (r2, s2)"
    and dt: "field_dtype u = field_dtype v"
  obtains s s' tf us vs fa fb F F' A A' I I' X Y where
    "FourierFilter_compute_functions s0 u = Inr s" "FourierFilter_compute_functions s1 v = Inr s'"
    "shaped u = Inr us" "shaped v = Inr vs"
    "case cutout s0 of
       None \<Rightarrow> fa = us \<and> fb = vs
     | Some c \<Rightarrow>
         setitem ((the (internal_array s))\<lparr>elem := (\<lambda>idx. 0)\<rparr>) (cutout_slices (tensor_order u) c) us = Inr fa
       \<and> setitem ((the (internal_array s'))\<lparr>elem := (\<lambda>idx. 0)\<rparr>) (cutout_slices (tensor_order v) c) vs = Inr fb
       \<and> s1 = s\<lparr>internal_array := Some fa\<rparr>"
    "fftn fa (last_axes (ndim (input_grid s0))) = Inr F"
    "fftn fb (last_axes (ndim (input_grid s0))) = Inr F'"
    "apply_transfer_function (internal_grid s0) tf F False = Inr A"
    "apply_transfer_function (internal_grid s0) tf F' True = Inr A'"
    "ifftn A (last_axes (ndim (input_grid s0))) = Inr I"
    "ifftn A' (last_axes (ndim (input_grid s0))) = Inr I'"
    "case cutout s0 of
       None \<Rightarrow> X = I \<and> Y = I'
     | Some c \<Rightarrow> getitem I (cutout_slices (tensor_order u) c) = Inr X
               \<and> getitem I' (cutout_slices (tensor_order v) c) = Inr Y"
    "reshape_infer (shape_lead (ndim (internal_grid s0)) (shape I)) X = Inr (data r1)"
    "reshape_infer (shape_lead (ndim (internal_grid s0)) (shape I')) Y = Inr (data r2)"
proof -
  from operation_unfold [OF f] obtain s us fa F A I X res where
    1: "FourierFilter_compute_functions s0 u = Inr s" "shaped u = Inr us"
      "case cutout s of None \<Rightarrow> fa = us \<and> s1 = s
        | Some c \<Rightarrow> setitem ((the (internal_array s))\<lparr>elem := (\<lambda>idx. 0)\<rparr>)
                       (cutout_slices (tensor_order u) c) us = Inr fa
                    \<and> s1 = s\<lparr>internal_array := Some fa\<rparr>"
      "fftn fa (last_axes (ndim (input_grid s))) = Inr F"
      "apply_transfer_function (internal_grid s) (the (priv_transfer_function s)) F False = Inr A"
      "ifftn A (last_axes (ndim (input_grid s))) = Inr I"
      "case cutout s of None \<Rightarrow> X = I
         | Some c \<Rightarrow> getitem I (cutout_slices (tensor_order u) c) = Inr X"
      "reshape_infer (shape_lead (ndim (internal_grid s)) (shape I)) X = Inr res"
      "r1 = Field res (input_grid s)"
    by blast
  from operation_unfold [OF b] obtain s' vs fb F' A' I' Y res' where
    2: "FourierFilter_compute_functions s1 v = Inr s'" "shaped v = Inr vs"
      "case cutout s' of None \<Rightarrow> fb = vs \<and> s2 = s'
        | Some c \<Rightarrow> setitem ((the (internal_array s'))\<lparr>elem := (\<lambda>idx. 0)\<rparr>)
                       (cutout_slices (tensor_order v) c) vs = Inr fb
                    \<and> s2 = s'\<lparr>internal_array := Some fb\<rparr>"
      "fftn fb (last_axes (ndim (input_grid s'))) = Inr F'"
      "apply_transfer_function (internal_grid s') (the (priv_transfer_function s')) F' True = Inr A'"
      "ifftn A' (last_axes (ndim (input_grid s'))) = Inr I'"
      "case cutout s' of None \<Rightarrow> Y = I'
         | Some c \<Rightarrow> getitem I' (cutout_slices (tensor_order v) c) = Inr Y"
      "reshape_infer (shape_lead (ndim (internal_grid s')) (shape I')) Y = Inr res'"
      "r2 = Field res' (input_grid s')"
    by blast
  note fr = compute_functions_frame [OF 1(1)]
  have s1fr: "input_grid s1 = input_grid s0" "internal_grid s1 = internal_grid s0"
    "cutout s1 = cutout s0" "priv_transfer_function s1 = priv_transfer_function s"
    using 1(3) fr by (auto split: option.splits)
  note fr' = compute_functions_frame [OF 2(1), unfolded s1fr]
  from compute_functions_cached(1) [OF 1(1)] obtain tf where
    tf: "priv_transfer_function s = Some tf" "dtype tf = field_dtype u" by blast
  have tf': "priv_transfer_function s' = Some tf"
    using compute_functions_cached(2) [OF 2(1), of tf] tf s1fr(4) dt by simp
  show ?thesis
    apply (rule that [of s s' us vs fa fb F F' tf A A' I I' X Y])
    using 1 2 fr fr' tf tf' by (auto simp: Field_def split: option.splits)
qed

lemma filter_adjoint:
  assumes f: "FourierFilter_operation s0 u False = Inr (r1, s1)"
    and b: "FourierFilter_operation s1 v True = Inr (r2, s2)"
    and dt: "field_dtype u = field_dtype v" and g: "grid u = grid v"
    and sh: "shape (data u) = shape (data v)"
    and wf: "well_formed u" and cf: "filter_conforms s0 u"
  shows "field_inner r1 v = field_inner u r2"
proof -
  let ?ig = "internal_grid s0" and ?axes = "last_axes (ndim (input_grid s0))"
  let ?W = "grid_shape ?ig" and ?tsh = "tensor_shape u"
  note wfv = well_formed_transfer [OF wf g sh]
  note tsv = tensor_shape_eq [OF sh, symmetric] and tov = tensor_order_eq [OF sh, symmetric]
  have igl: "length (dims ?ig) = ndim ?ig" using cf by (simp add: filter_conforms_def)
  have lW: "length ?W = ndim ?ig" using igl by (simp add: grid_shape_length)
  obtain s s' tf us vs fa fb F F' A A' I I' X Y where
    cs: "FourierFilter_compute_functions s0 u = Inr s" "FourierFilter_compute_functions s1 v = Inr s'"
    and sv: "shaped u = Inr us" "shaped v = Inr vs"
    and pad: "case cutout s0 of
       None \<Rightarrow> fa = us \<and> fb = vs
     | Some c \<Rightarrow>
         setitem ((the (internal_array s))\<lparr>elem := (\<lambda>idx. 0)\<rparr>) (cutout_slices (tensor_order u) c) us = Inr fa
       \<and> setitem ((the (internal_array s'))\<lparr>elem := (\<lambda>idx. 0)\<rparr>) (cutout_slices (tensor_order v) c) vs = Inr fb
       \<and> s1 = s\<lparr>internal_array := Some fa\<rparr>"
    and F: "fftn fa ?axes = Inr F" "fftn fb ?axes = Inr F'"
    and A: "apply_transfer_function ?ig tf F False = Inr A" "apply_transfer_function ?ig tf F' True = Inr A'"
    and I: "ifftn A ?axes = Inr I" "ifftn A' ?axes = Inr I'"
    and crop: "case cutout s0 of
       None \<Rightarrow> X = I \<and> Y = I'
     | Some c \<Rightarrow> getitem I (cutout_slices (tensor_order u) c) = Inr X
               \<and> getitem I' (cutout_slices (tensor_order v) c) = Inr Y"
    and res: "reshape_infer (shape_lead (ndim ?ig) (shape I)) X = Inr (data r1)"
             "reshape_infer (shape_lead (ndim ?ig) (shape I')) Y = Inr (data r2)"
    by (rule filter_pair_unfold [OF f b dt])
  note same = shaped_same_shape [OF sv g sh]
  have small: "shape us = ?tsh @ grid_shape (grid u)" by (rule shaped_Inr(1) [OF sv(1)])
  have lgu: "length (grid_shape (grid u)) = ndim (grid u)" "0 < ndim (grid u)"
    using wf by (simp_all add: well_formed_def grid_shape_length)
  note sF = fftn1_Inr [OF F(1) [unfolded fftn_def]] and sF' = fftn1_Inr [OF F(2) [unfolded fftn_def]]
  note sI = fftn1_Inr [OF I(1) [unfolded ifftn_def]] and sI' = fftn1_Inr [OF I(2) [unfolded ifftn_def]]
  show ?thesis
  proof (cases "cutout s0")
    case None
    have W: "?W = grid_shape (grid u)" using cf None by (simp add: filter_conforms_def)
    have nd: "ndim ?ig = ndim (grid u)" "0 < ndim ?ig" using lW lgu W by simp_all
    have fab: "fa = us" "fb = vs" "X = I" "Y = I'" using pad crop None by simp_all
    have shF: "shape F = ?tsh @ ?W" "shape F' = ?tsh @ ?W"
      using sF sF' fab same small W by simp_all
    from apply_pair [OF A shF igl nd(2)] obtain M M' where
      shA: "shape A = shape F" "shape A' = shape F"
      and M: "elem A = M (elem F)" "elem A' = M' (elem F')"
        "\<And>x y. inner_on (shape F) (M x) y = inner_on (shape F) x (M' y)"
      by blast
    have shs: "shape F = shape us" "shape I = shape us" "shape I' = shape us"
      using sF sI sI' shA fab by simp_all
    define axs where "axs = norm_axes (length (shape us)) ?axes"
    have ax: "\<forall>ax\<in>set axs. ax < length (shape us) \<and> shape us ! ax \<noteq> 0"
      using sF fab by (simp add: axs_def)
    have eX: "elem I = axes_op True (shape us) axs (M (axes_op False (shape us) axs (elem us)))"
      using sI sF M(1) shA shs fab by (simp add: axs_def)
    have eY: "elem I' = axes_op True (shape us) axs (M' (axes_op False (shape us) axs (elem vs)))"
      using sI' sF' M(2) shA shs fab same by (simp add: axs_def)
    have R1: "reshape (shape (data u)) I = Inr (data r1)"
      using flat_result [OF res(1) [unfolded fab nd] sv(1) shs(2) wf] .
    have R2: "reshape (shape (data v)) I' = Inr (data r2)"
      using flat_result [OF res(2) [unfolded fab nd g] sv(2) _ wfv] shs(3) same by simp
    show ?thesis
    proof (rule generic_adjoint [OF sv shs(2) R1 _ R2 same sh])
      show "shape I' = shape vs" using shs same by simp
      show "inner_on (shape us) (elem I) (elem vs) = inner_on (shape us) (elem us) (elem I')"
        unfolding eX eY by (rule sandwich_axes [OF ax]) (rule M(3) [unfolded shs])
    qed
  next
    case (Some c)
    let ?c = "cutout_slices (tensor_order u) c"
    let ?big = "?tsh @ ?W"
    have rc: "recompute_internal_array s0 u"
      and fit: "sliced_shape ?c ?big = shape us"
      using cf Some small by (simp_all add: filter_conforms_def)
    have lens: "length ?W = length (grid_shape (grid u))"
      using arg_cong [OF fit, of length] small by simp
    have nd: "ndim ?ig = ndim (grid u)" "0 < ndim ?ig" using lW lgu lens by simp_all
    from pad crop Some have
      fa: "setitem ((the (internal_array s))\<lparr>elem := (\<lambda>idx. 0)\<rparr>) ?c us = Inr fa"
      and fb: "setitem ((the (internal_array s'))\<lparr>elem := (\<lambda>idx. 0)\<rparr>) ?c vs = Inr fb"
      and s1: "s1 = s\<lparr>internal_array := Some fa\<rparr>"
      and gX: "getitem I ?c = Inr X" and gY: "getitem I' ?c = Inr Y"
      by (simp_all add: tov)
    from compute_functions_buffer [OF cs(1) rc] obtain buf where
      buf: "internal_array s = Some buf" "dtype buf = field_dtype u" "shape buf = ?big"
      by blast
    note sfa = setitem_Inr [OF fa [unfolded buf option.sel]]
    have shfa: "shape fa = ?big" "dtype fa = field_dtype u" using sfa buf by simp_all
    have rc': "recompute_internal_array s1 v"
      using shfa dt tsv wfv
      by (simp add: recompute_internal_array_def s1 well_formed_order)
    have ig1: "internal_grid s1 = ?ig" using compute_functions_frame(2) [OF cs(1)] by (simp add: s1)
    from compute_functions_buffer [OF cs(2) rc'] obtain buf' where
      buf': "internal_array s' = Some buf'" "shape buf' = ?big"
      using tsv ig1 by auto
    note sfb = setitem_Inr [OF fb [unfolded buf' option.sel]]
    define starts where "starts = slice_starts ?c ?big"
    define Pad where "Pad = (\<lambda>x idx. if in_region starts (shape us) idx
                                then x (broadcast_index (shape us) (map2 (-) idx starts)) else (0::complex))"
    define Crop where "Crop = (\<lambda>(y::nat list \<Rightarrow> complex) idx. y (map2 (+) starts idx))"
    have efa: "elem fa = Pad (elem us)"
      unfolding sfa(3) Pad_def starts_def by (simp add: buf fit cong: if_cong)
    have efb: "elem fb = Pad (elem vs)"
      unfolding sfb(3) Pad_def starts_def by (simp add: buf' fit same cong: if_cong)
    have shfb: "shape fb = ?big" using sfb buf' by simp
    have shF: "shape F = ?tsh @ ?W" "shape F' = ?tsh @ ?W"
      using sF sF' shfa shfb by simp_all
    from apply_pair [OF A shF igl nd(2)] obtain M M' where
      shA: "shape A = shape F" "shape A' = shape F"
      and M: "elem A = M (elem F)" "elem A' = M' (elem F')"
        "\<And>x y. inner_on (shape F) (M x) y = inner_on (shape F) x (M' y)"
      by blast
    have shs: "shape I = ?big" "shape I' = ?big"
      using sI sI' shA shF by simp_all
    define axs where "axs = norm_axes (length ?big) ?axes"
    have ax: "\<forall>ax\<in>set axs. ax < length ?big \<and> ?big ! ax \<noteq> 0"
      using sF shfa by (simp add: axs_def)
    have eI: "elem I = axes_op True ?big axs (M (axes_op False ?big axs (Pad (elem us))))"
      using sI sF M(1) shA shF shfa efa by (simp add: axs_def)
    have eI': "elem I' = axes_op True ?big axs (M' (axes_op False ?big axs (Pad (elem vs))))"
      using sI' sF' M(2) shA shF shfb efb by (simp add: axs_def)
    note sX = getitem_Inr [OF gX] and sY = getitem_Inr [OF gY]
    have shX: "shape X = shape us" "shape Y = shape us"
      using sX(1) sY(1) shs fit by simp_all
    have eX: "elem X = Crop (elem I)" using sX(2) shs by (simp add: Crop_def starts_def)
    have eY: "elem Y = Crop (elem I')" using sY(2) shs by (simp add: Crop_def starts_def)
    have lead: "shape_lead (ndim ?ig) ?big = ?tsh"
      using shape_lead_append [OF lW nd(2)] .
    have R1: "reshape (shape (data u)) X = Inr (data r1)"
      using reshape_infer_flat [OF res(1) [unfolded shs lead]] shX small
      by (simp add: well_formed_flat_shape [OF wf])
    have R2: "reshape (shape (data v)) Y = Inr (data r2)"
      using reshape_infer_flat [OF res(2) [unfolded shs lead]] shX small
      by (simp add: well_formed_flat_shape [OF wf] sh [symmetric])
    have len: "length starts = length ?big" "length (shape us) = length ?big"
      using fit [symmetric] by (simp_all add: starts_def)
    have fits: "\<forall>i<length ?big. starts ! i + shape us ! i \<le> ?big ! i"
      using slices_fit [of _ ?big ?c] by (simp add: starts_def fit)
    show ?thesis
    proof (rule generic_adjoint [OF sv shX(1) R1 _ R2 same sh])
      show "shape Y = shape vs" using shX same by simp
      have "inner_on (shape us) (elem X) (elem vs) = inner_on ?big (elem I) (Pad (elem vs))"
        unfolding eX Crop_def Pad_def by (rule crop_pad_adjoint [OF len fits])
      also have "\<dots> = inner_on ?big (Pad (elem us)) (elem I')"
        unfolding eI eI' by (rule sandwich_axes [OF ax]) (rule M(3) [unfolded shF])
      also have "\<dots> = inner_on (shape us) (elem us) (elem Y)"
        unfolding eY Crop_def Pad_def by (rule pad_crop_adjoint [OF len fits])
      finally show "inner_on (shape us) (elem X) (elem vs) = inner_on (shape us) (elem us) (elem Y)" .
    qed
  qed
qed

lemma padded_matching_call:
  assumes s1: "input_grid s1 = grid1" "internal_grid s1 = igrid2" "cutout s1 = Some [(1, 2)]"
      "priv_transfer_function s1 = Some c" "shape c = [2]" "dtype c = field_dtype u"
      "internal_array s1 = Some buf" "shape buf = [m, 2]" "dtype buf = field_dtype u"
    and u: "grid u = grid1" "shape (data u) = [m, 1]" "0 < m"
  shows "\<exists>r s2. FourierFilter_operation s1 u adj = Inr (r, s2)"
proof -
  have tsh: "tensor_shape u = [m]" "tensor_order u = 1"
    using u by (simp_all add: tensor_shape_def tensor_order_def)
  have rc: "recompute_internal_array s1 u"
    by (simp add: recompute_internal_array_def s1 tsh u grid1_simps)
  define buf' where "buf' = \<lparr>shape = [m, 2], dtype = field_dtype u, elem = (\<lambda>idx. 0::complex)\<rparr>"
  define s where "s = s1\<lparr>internal_array := Some buf'\<rparr>"
  have cf: "FourierFilter_compute_functions s1 u = Inr s"
    using rc by (simp add: FourierFilter_compute_functions_def s1 zeros_shaped_def igrid2_simps tsh
        buf'_def s_def)
  have s: "input_grid s = grid1" "internal_grid s = igrid2" "cutout s = Some [(1, 2)]"
     "priv_transfer_function s = Some c" "internal_array s = Some buf'"
    by (simp_all add: s_def s1)
  obtain f0 where f0: "shaped u = Inr f0" "shape f0 = [m, 1]"
    using u by (simp add: shaped_def grid1_simps reshape_def tsh)
  obtain f1 where f1: "setitem (buf'\<lparr>elem := (\<lambda>idx. 0)\<rparr>) (cutout_slices 1 [(1, 2)]) f0 = Inr f1"
      "shape f1 = [m, 2]"
    by (simp add: setitem_def buf'_def cutout_slices_def sliced_shape_def pad_slices_def slice_len_def
          f0 broadcastable_def)
  obtain f2 where f2: "fftn f1 (last_axes 1) = Inr f2" "shape f2 = [m, 2]"
    using f1(2) by (simp add: fftn_def last_axes_def fft1_def normalize_axis_def dft_axis_def)
  obtain f3 where f3: "apply_transfer_function igrid2 c f2 adj = Inr f3" "shape f3 = [m, 2]"
    using f2(2) s1 by (cases adj) (simp_all add: apply_transfer_function_def igrid2_simps imul_def broadcastable_def conj_def)
  obtain f4 where f4: "ifftn f3 (last_axes 1) = Inr f4" "shape f4 = [m, 2]"
    using f3(2) by (simp add: ifftn_def last_axes_def fft1_def normalize_axis_def dft_axis_def)
  obtain f5 where f5: "getitem f4 (cutout_slices 1 [(1, 2)]) = Inr f5" "shape f5 = [m, 1]"
    using f4(2) by (simp add: getitem_def cutout_slices_def sliced_shape_def pad_slices_def slice_len_def)
  obtain f6 where f6: "reshape_infer (shape_lead 1 (shape f4)) f5 = Inr f6" "shape f6 = [m, 1]"
    using f4(2) f5(2) u(3) by (simp add: reshape_infer_def shape_lead_def reshape_def)
  have "FourierFilter_operation s1 u adj = Inr (Field f6 grid1, s\<lparr>internal_array := Some f1\<rparr>)"
    using f1 f2 f3 f4 f5 f6
    by (simp add: FourierFilter_operation_def cf f0 s tsh grid1_simps igrid2_simps)
  then show ?thesis by blast
qed

lemma padded_filter_conforms:
  assumes u: "grid u = grid1" "shape (data u) = [m, 1]"
  shows "filter_conforms (padded_filter tf) u"
proof -
  have tsh: "tensor_shape u = [m]" "tensor_order u = 1"
    using u by (simp_all add: tensor_shape_def tensor_order_def)
  show ?thesis
    by (simp add: filter_conforms_def padded_filter_def igrid2_simps grid1_simps u tsh
        recompute_internal_array_def cutout_slices_def sliced_shape_def pad_slices_def slice_len_def
        igrid2_def sample_fft_grid_def grid1_def grid_shape_def)
qed

lemma const_vector_field_well_formed:
  "length (dims g) = ndim g \<Longrightarrow> 0 < ndim g \<Longrightarrow> well_formed (const_vector_field g m d c)"
  by (simp add: well_formed_def)

lemma ones_well_formed: "well_formed ones11" "well_formed ones44"
  by (simp_all add: well_formed_def ones11_def ones44_def Field_def grid11_def grid44_def
      tensor_shape_def grid_size_def)

lemma shift44_filter:
  "\<exists>s flt. FourierShift_init sample_env grid44 [0, 1] = Inr s \<and> priv_ft_axes s = [0]
      \<and> priv_shift_filter s = Some flt \<and> shape flt = [4, 1]"
  by (simp add: FourierShift_init_def FourierShift_set_shift_def shift_ft_axes_def Let_def flatnonzero_def
     sample_env_def grid44_def sample_fft_grid_def mask_select_def CartesianGrid_regular_def grid_size_def
    reshape_def grid_shape_def ifftshift_axis_def normalize_axis_def broadcasting_slice_def)

lemma shift_operation44:
  assumes s: "priv_ft_axes s = [0]" "priv_shift_filter s = Some flt" "shape flt = [4, 1]"
  shows "\<exists>r. FourierShift_operation s ones44 adj = Inr r"
proof -
  have u: "grid ones44 = grid44" "shape (data ones44) = [16]" "tensor_shape ones44 = []"
    by (simp_all add: ones44_def Field_def tensor_shape_def)
  have g: "ndim grid44 = 2" "grid_shape grid44 = [4, 4]" "grid_size grid44 = 16" "is_regular grid44"
    by (simp_all add: grid44_def grid_shape_def grid_size_def)
  obtain f0 where f0: "shaped ones44 = Inr f0" "shape f0 = [4, 4]"
    by (simp add: shaped_def reshape_def u g)
  obtain f1 where f1: "fftn f0 [0] = Inr f1" "shape f1 = [4, 4]"
    using f0(2) by (simp add: fftn_def fft1_def normalize_axis_def dft_axis_def)
  obtain f2 where f2: "imul f1 (if adj then conj flt else flt) = Inr f2" "shape f2 = [4, 4]"
    using s(3) f1(2) by (cases adj) (simp_all add: imul_def broadcastable_def)
  obtain f3 where f3: "ifftn f2 [0] = Inr f3" "shape f3 = [4, 4]"
    using f2(2) by (simp add: ifftn_def fft1_def normalize_axis_def dft_axis_def)
  obtain f4 where f4: "reshape_infer (shape_lead 2 (shape f3)) f3 = Inr f4"
    using f3(2) by (simp add: reshape_infer_def shape_lead_def reshape_def)
  show ?thesis
    using f1 f2 f3 f4 by (simp add: FourierShift_operation_def s f0 u g)
qed

text \<open>
  Claim C1, as amended. Backward is the adjoint of forward for the filter, the shift and
  the shear, in exact arithmetic: for fields \<open>u\<close> and \<open>v\<close> of the same grid and the same
  shape, with \<open>u\<close> of the shape that its grid gives, when forward of \<open>u\<close> returns \<open>r1\<close>
  and backward of \<open>v\<close> returns \<open>r2\<close>, the inner product of \<open>r1\<close> with \<open>v\<close> is the inner
  product of \<open>u\<close> with \<open>r2\<close>. For the filter the two fields have the same dtype, the
  backward call is made on the operator that the forward call left, and the scratch
  buffer is allocated by the forward call with a cutout that fits; the transfer function
  is a scalar field or a field of matrices.
\<close>

theorem backward_adjoint_of_forward:
  assumes "grid u = grid v" and "shape (data u) = shape (data v)" and "well_formed u"
  shows "(FourierFilter_forward flt u = Inr (r1, flt1) \<longrightarrow> FourierFilter_backward flt1 v = Inr (r2, flt2)
            \<longrightarrow> field_dtype u = field_dtype v \<longrightarrow> filter_conforms flt u
            \<longrightarrow> field_inner r1 v = field_inner u r2)
       \<and> (FourierShift_forward sft u = Inr r3 \<longrightarrow> FourierShift_backward sft v = Inr r4
            \<longrightarrow> field_inner r3 v = field_inner u r4)
       \<and> (FourierShear_forward shr (FieldV u) = Inr r5 \<longrightarrow> FourierShear_backward shr (FieldV v) = Inr r6
            \<longrightarrow> field_inner r5 v = field_inner u r6)"
  unfolding FourierFilter_forward_def FourierFilter_backward_def FourierShift_forward_def
    FourierShift_backward_def FourierShear_forward_def FourierShear_backward_def
  using filter_adjoint [OF _ _ _ assms, of flt r1 flt1 r2 flt2]
    shift_adjoint [OF _ _ assms, of sft r3 r4] shear_adjoint [OF _ _ assms, of shr r5 r6]
  by blast

theorem backward_adjoint_of_forward_witness:
  "(\<exists>r1 flt1 r2 flt2.
       FourierFilter_forward (padded_filter (Precomputed (const_field igrid2 complex128 \<i>)))
          (const_vector_field grid1 2 complex128 1) = Inr (r1, flt1)
     \<and> FourierFilter_backward flt1 (const_vector_field grid1 2 complex128 \<i>) = Inr (r2, flt2)
     \<and> filter_conforms (padded_filter (Precomputed (const_field igrid2 complex128 \<i>)))
          (const_vector_field grid1 2 complex128 1)
     \<and> well_formed (const_vector_field grid1 2 complex128 1)
     \<and> field_inner r1 (const_vector_field grid1 2 complex128 \<i>)
         = field_inner (const_vector_field grid1 2 complex128 1) r2)
   \<and> (\<exists>sft r3 r4.
       FourierShift_init sample_env grid44 [0, 1] = Inr sft
     \<and> FourierShift_forward sft ones44 = Inr r3 \<and> FourierShift_backward sft ones44 = Inr r4
     \<and> well_formed ones44
     \<and> field_inner r3 ones44 = field_inner ones44 r4)
   \<and> (\<exists>shr r5 r6.
       FourierShear_init sample_env grid11 1 0 = Inr shr
     \<and> FourierShear_forward shr (FieldV ones11) = Inr r5
     \<and> FourierShear_backward shr (FieldV ones11) = Inr r6
     \<and> well_formed ones11
     \<and> field_inner r5 ones11 = field_inner ones11 r6)"
proof -
  let ?F = "padded_filter (Precomputed (const_field igrid2 complex128 \<i>))"
  let ?u = "const_vector_field grid1 2 complex128 1"
  let ?v = "const_vector_field grid1 2 complex128 \<i>"
  have g1: "length (dims grid1) = ndim grid1" "0 < ndim grid1" by (simp_all add: grid1_def)
  have wu: "well_formed ?u" by (rule const_vector_field_well_formed [OF g1])
  have cf: "filter_conforms ?F ?u"
    by (rule padded_filter_conforms [of _ 2]) (simp_all add: grid1_simps)
  obtain r1 s1 c buf where 1: "FourierFilter_operation ?F ?u False = Inr (r1, s1)"
      and s1: "input_grid s1 = grid1" "internal_grid s1 = igrid2" "cutout s1 = Some [(1, 2)]"
        "priv_transfer_function s1 = Some c" "shape c = [2]" "dtype c = field_dtype ?u"
        "internal_array s1 = Some buf" "shape buf = [2, 2]" "dtype buf = field_dtype ?u"
    using padded_first_call [of "const_field igrid2 complex128 \<i>" ?u 2 False]
    by (auto simp: grid1_simps igrid2_simps)
  obtain r2 s2 where 2: "FourierFilter_operation s1 ?v True = Inr (r2, s2)"
    using padded_matching_call [of s1 c ?v buf 2 True] s1
    by (auto simp: grid1_simps)
  have A: "field_inner r1 ?v = field_inner ?u r2"
    using backward_adjoint_of_forward [of ?u ?v ?F r1 s1 r2 s2] wu cf 1 2
    by (simp add: FourierFilter_forward_def FourierFilter_backward_def)
  obtain sft flt where sft: "FourierShift_init sample_env grid44 [0, 1] = Inr sft"
      "priv_ft_axes sft = [0]" "priv_shift_filter sft = Some flt" "shape flt = [4, 1]"
    using shift44_filter by blast
  obtain r3 where 3: "FourierShift_operation sft ones44 False = Inr r3"
    using shift_operation44 [OF sft(2-4)] by blast
  obtain r4 where 4: "FourierShift_operation sft ones44 True = Inr r4"
    using shift_operation44 [OF sft(2-4)] by blast
  have B: "field_inner r3 ones44 = field_inner ones44 r4"
    using backward_adjoint_of_forward [of ones44 ones44 _ _ _ _ _ sft r3 r4] ones_well_formed 3 4
    by (simp add: FourierShift_forward_def FourierShift_backward_def)
  obtain shr where shr: "FourierShear_init sample_env grid11 1 0 = Inr shr" "shear_dim shr = 0"
      "shape (priv_filter shr) = [1, 1]"
    using shear_init11 [of 0 1] by auto
  obtain r5 where 5: "FourierShear_operation shr (FieldV ones11) False = Inr r5"
    using shear_operation11 [of shr ones11 False] shr ones11_simps by auto
  obtain r6 where 6: "FourierShear_operation shr (FieldV ones11) True = Inr r6"
    using shear_operation11 [of shr ones11 True] shr ones11_simps by auto
  have C: "field_inner r5 ones11 = field_inner ones11 r6"
    using backward_adjoint_of_forward [of ones11 ones11 _ _ _ _ _ _ _ _ shr r5 r6] ones_well_formed 5 6
    by (simp add: FourierShear_forward_def FourierShear_backward_def)
  show ?thesis
    using 1 2 A cf wu sft(1) 3 4 B shr(1) 5 6 C ones_well_formed
    by (simp add: FourierFilter_forward_def FourierFilter_backward_def FourierShift_forward_def
        FourierShift_backward_def FourierShear_forward_def FourierShear_backward_def)
qed

end
